(* ===== verification/Vigo_Prelude.thy ===== *)
theory Vigo_Prelude
  imports Main "HOL-Library.Sublist"
begin

text \<open>
  Shared vocabulary of the development.

  Python's \<^verbatim>\<open>str\<close> is a sequence of Unicode code points and \<^verbatim>\<open>len\<close> counts code
  points, so text is modelled as a list of natural numbers (\<open>ustring\<close>), never as
  a list of 8-bit \<open>char\<close>: the collector handles Chinese text and its size bounds count
  code points. \<open>U\<close> embeds an ASCII literal of the source.

  The theory also holds the collections of facts the component theories feed to the
  simplifier, and the generic list lemmas they share: the last element of a list that is
  appended to (the source's \<^verbatim>\<open>xs[-1] += ...\<close>), filters over concatenations, and
  lists that are built by appending at the end.
\<close>

section \<open>Collections of facts\<close>

named_theorems lit_defs "literal strings of the source, as code point lists"
named_theorems cls_simps "membership of code points in character classes"
named_theorems frame_simps "fields and measures an operation leaves unchanged"

section \<open>Text\<close>

type_synonym codepoint = nat
type_synonym ustring = "codepoint list"

definition U :: "string \<Rightarrow> ustring" where
  "U s = map of_char s"

abbreviation NL :: codepoint where
  "NL \<equiv> 10"

abbreviation NLNL :: ustring where
  "NLNL \<equiv> [10, 10]"

definition EM_DASH :: codepoint where "EM_DASH = 0x2014"

lemma U_Nil [simp]: "U [] = []"
  by (simp add: U_def)

lemma U_Cons: "U (c # cs) = of_char c # U cs"
  by (simp add: U_def)

lemma U_append: "U (xs @ ys) = U xs @ U ys"
  by (simp add: U_def)

lemma length_U [simp]: "length (U s) = length s"
  by (simp add: U_def)

lemma U_eq_Nil_iff [simp]: "U s = [] \<longleftrightarrow> s = []"
  by (simp add: U_def)

lemma U_ascii: "c \<in> set (U s) \<Longrightarrow> c < 256"
  by (auto simp: U_def)

lemma U_inject [simp]: "U s = U t \<longleftrightarrow> s = t"
proof -
  have "inj (of_char :: char \<Rightarrow> nat)"
    by (simp add: inj_on_def)
  then show ?thesis
    unfolding U_def by (simp add: inj_map_eq_map)
qed

section \<open>Lists that grow at the end\<close>

text \<open>
  \<open>snoc_last f xs\<close> is the source's \<^verbatim>\<open>xs[-1] = f(xs[-1])\<close>; the callers guard it
  with a non-emptiness test, and on the empty list (where Python would raise) it is the
  identity, which no caller reaches.
\<close>

definition snoc_last :: "('a \<Rightarrow> 'a) \<Rightarrow> 'a list \<Rightarrow> 'a list" where
  "snoc_last f xs = (if xs = [] then [] else butlast xs @ [f (last xs)])"

lemma snoc_last_Nil [simp]: "snoc_last f [] = []"
  by (simp add: snoc_last_def)

lemma snoc_last_snoc [simp]: "snoc_last f (xs @ [x]) = xs @ [f x]"
  by (simp add: snoc_last_def)

lemma snoc_last_single [simp]: "snoc_last f [x] = [f x]"
  by (simp add: snoc_last_def)

lemma length_snoc_last [simp]: "length (snoc_last f xs) = length xs"
  by (simp add: snoc_last_def)

lemma snoc_last_eq_Nil_iff [simp]: "snoc_last f xs = [] \<longleftrightarrow> xs = []"
  by (simp add: snoc_last_def)

lemma snoc_last_Cons2 [simp]:
  "snoc_last f (x # y # ys) = x # snoc_last f (y # ys)"
  by (simp add: snoc_last_def)

lemma snoc_last_Cons:
  "snoc_last f (x # xs) = (if xs = [] then [f x] else x # snoc_last f xs)"
  by (cases xs) simp_all

lemma set_snoc_last:
  "xs \<noteq> [] \<Longrightarrow> set (snoc_last f xs) = set (butlast xs) \<union> {f (last xs)}"
  by (simp add: snoc_last_def)

lemma concat_snoc_last:
  "xs \<noteq> [] \<Longrightarrow> concat (snoc_last (\<lambda>x. x @ y) xs) = concat xs @ y"
  by (cases xs rule: rev_cases) auto

text \<open>\<open>map_hd f xs\<close> changes the first element only: a piece under construction gets one more
  element in front.\<close>

fun map_hd :: "('a \<Rightarrow> 'a) \<Rightarrow> 'a list \<Rightarrow> 'a list" where
  "map_hd f [] = []"
| "map_hd f (x # xs) = f x # xs"

lemma map_hd_eq_Nil_iff [simp]: "map_hd f xs = [] \<longleftrightarrow> xs = []"
  by (cases xs) simp_all

lemma length_map_hd [simp]: "length (map_hd f xs) = length xs"
  by (cases xs) simp_all

lemma concat_map_hd_Cons: "xs \<noteq> [] \<Longrightarrow> concat (map_hd ((#) c) xs) = c # concat xs"
  by (cases xs) simp_all

lemma map_hd_append_Nil [simp]: "map_hd ((@) []) xs = xs"
  by (cases xs) simp_all

lemma map_hd_Cons_append [simp]: "map_hd ((#) c) (map_hd ((@) p) xs) = map_hd ((@) (c # p)) xs"
  by (cases xs) simp_all

lemma map_hd_id [simp]: "map_hd (\<lambda>a. a) xs = xs"
  by (cases xs) simp_all

lemma map_hd_map_hd: "map_hd f (map_hd g xs) = map_hd (\<lambda>x. f (g x)) xs"
  by (cases xs) simp_all

section \<open>Content up to a class of ignorable elements\<close>

text \<open>
  \<open>strip_all P xs\<close> deletes every element that satisfies \<open>P\<close>; with \<open>P\<close> the
  whitespace class it is the "non-whitespace content" in which the spec states that no
  text is lost.
\<close>

definition strip_all :: "('a \<Rightarrow> bool) \<Rightarrow> 'a list \<Rightarrow> 'a list" where
  "strip_all P xs = filter (\<lambda>x. \<not> P x) xs"

lemma strip_all_Nil [simp]: "strip_all P [] = []"
  by (simp add: strip_all_def)

lemma strip_all_Cons [simp]:
  "strip_all P (x # xs) = (if P x then strip_all P xs else x # strip_all P xs)"
  by (simp add: strip_all_def)

lemma strip_all_append [simp]:
  "strip_all P (xs @ ys) = strip_all P xs @ strip_all P ys"
  by (simp add: strip_all_def)

lemma strip_all_concat:
  "strip_all P (concat xss) = concat (map (strip_all P) xss)"
  by (induction xss) simp_all

lemma strip_all_ignorable:
  "(\<And>x. x \<in> set xs \<Longrightarrow> P x) \<Longrightarrow> strip_all P xs = []"
  by (induction xs) simp_all

lemma strip_all_dropWhile [simp]:
  "strip_all P (dropWhile P xs) = strip_all P xs"
  by (induction xs) simp_all

lemma strip_all_rev: "strip_all P (rev xs) = rev (strip_all P xs)"
  by (simp add: strip_all_def rev_filter)

lemma strip_all_idem [simp]: "strip_all P (strip_all P xs) = strip_all P xs"
  by (simp add: strip_all_def)

lemma map_const_replicate:
  "(\<And>x. x \<in> set xs \<Longrightarrow> f x = c) \<Longrightarrow> map f xs = replicate (length xs) c"
  by (induction xs) simp_all

section \<open>First occurrences\<close>

text \<open>
  \<open>first_seen xs\<close> keeps the first occurrence of every element, in order: what a loop
  builds that appends an element unless the result holds it already.
\<close>

function first_seen :: "'a list \<Rightarrow> 'a list" where
  "first_seen [] = []"
| "first_seen (x # xs) = x # first_seen (filter (\<lambda>y. y \<noteq> x) xs)"
  by pat_completeness auto
termination
  by (relation "measure length") (auto simp: less_Suc_eq_le)

lemma set_first_seen [simp]: "set (first_seen xs) = set xs"
  by (induction xs rule: first_seen.induct) auto

lemma distinct_first_seen [simp]: "distinct (first_seen xs)"
  by (induction xs rule: first_seen.induct) auto

lemma filter_neq_id [simp]: "x \<notin> set xs \<Longrightarrow> filter (\<lambda>y. y \<noteq> x) xs = xs"
  by (induction xs) auto

lemma first_seen_distinct: "distinct xs \<Longrightarrow> first_seen xs = xs"
  by (induction xs) auto

lemma first_seen_idem [simp]: "first_seen (first_seen xs) = first_seen xs"
  by (simp add: first_seen_distinct)

lemma first_seen_filter:
  "first_seen (filter P xs) = filter P (first_seen xs)"
proof (induction xs rule: first_seen.induct)
  case (2 x xs)
  have swap: "filter (\<lambda>y. y \<noteq> x) (filter P xs) = filter P (filter (\<lambda>y. y \<noteq> x) xs)"
    by (simp add: conj_commute)
  show ?case
  proof (cases "P x")
    case True
    with 2 swap show ?thesis by simp
  next
    case False
    then have "filter P xs = filter P (filter (\<lambda>y. y \<noteq> x) xs)"
      by (auto intro: filter_cong)
    with 2 False show ?thesis by simp
  qed
qed simp

lemma length_first_seen_le: "length (first_seen xs) \<le> length xs"
  by (metis distinct_card distinct_first_seen card_length set_first_seen)

end
