(* ===== verification/Py_String.thy ===== *)
theory Py_String
  imports Vigo_Prelude
begin

text \<open>
  The operations of Python's \<^verbatim>\<open>str\<close> and \<^verbatim>\<open>re\<close> that the collector calls, as
  executable functions on code point lists: the character classes behind
  \<^verbatim>\<open>\s\<close>, \<^verbatim>\<open>\d\<close>, \<^verbatim>\<open>[A-Z]\<close> and \<^verbatim>\<open>str.strip\<close>; \<^verbatim>\<open>strip\<close>,
  \<^verbatim>\<open>sep.join\<close>, \<^verbatim>\<open>str.split(sep)\<close>, the substring test \<^verbatim>\<open>in\<close>,
  \<^verbatim>\<open>str.lower\<close> and \<^verbatim>\<open>str(n)\<close>.

  The classes are those of CPython 3.11 (Unicode 14.0): \<open>is_space\<close> lists every code
  point for which \<^verbatim>\<open>str.isspace\<close> holds (the same set \<^verbatim>\<open>\s\<close> and \<^verbatim>\<open>strip\<close>
  use), \<open>is_decimal\<close> the code points of category Nd that \<^verbatim>\<open>\d\<close> matches in a
  \<^verbatim>\<open>str\<close> pattern. \<open>lower\<close> maps the ASCII capitals and the two other code points
  whose lower case contains an ASCII letter (U+0130, U+212A); every other code point is
  kept, where Python maps cased letters outside ASCII to letters outside ASCII. The
  collector searches the lowered text for ASCII phrases only, which no such letter can
  be part of.

  The lemmas give each operation its law: what \<open>strip\<close> removes and keeps, that
  \<open>join\<close> undoes \<open>split_on\<close>, that neither changes the non-whitespace content when
  the separator is whitespace, and that \<open>py_in\<close> is the contiguous-sublist relation of
  the library.
\<close>

section \<open>Character classes\<close>

definition is_space :: "codepoint \<Rightarrow> bool" where
  "is_space c \<longleftrightarrow>
     (0x09 \<le> c \<and> c \<le> 0x0D) \<or> (0x1C \<le> c \<and> c \<le> 0x20) \<or> c = 0x85 \<or> c = 0xA0 \<or>
     c = 0x1680 \<or> (0x2000 \<le> c \<and> c \<le> 0x200A) \<or> c = 0x2028 \<or> c = 0x2029 \<or>
     c = 0x202F \<or> c = 0x205F \<or> c = 0x3000"

definition decimal_blocks :: "codepoint list" where
  "decimal_blocks =
    [0x30, 0x660, 0x6F0, 0x7C0, 0x966, 0x9E6, 0xA66, 0xAE6, 0xB66, 0xBE6, 0xC66, 0xCE6,
     0xD66, 0xDE6, 0xE50, 0xED0, 0xF20, 0x1040, 0x1090, 0x17E0, 0x1810, 0x1946, 0x19D0,
     0x1A80, 0x1A90, 0x1B50, 0x1BB0, 0x1C40, 0x1C50, 0xA620, 0xA8D0, 0xA900, 0xA9D0,
     0xA9F0, 0xAA50, 0xABF0, 0xFF10, 0x104A0, 0x10D30, 0x11066, 0x110F0, 0x11136,
     0x111D0, 0x112F0, 0x11450, 0x114D0, 0x11650, 0x116C0, 0x11730, 0x118E0, 0x11950,
     0x11C50, 0x11D50, 0x11DA0, 0x16A60, 0x16AC0, 0x16B50, 0x1E140, 0x1E2F0, 0x1E950,
     0x1FBF0]"

definition is_decimal :: "codepoint \<Rightarrow> bool" where
  "is_decimal c \<longleftrightarrow>
     list_ex (\<lambda>lo. lo \<le> c \<and> c < lo + 10) decimal_blocks \<or> (0x1D7CE \<le> c \<and> c \<le> 0x1D7FF)"

definition is_upper_ascii :: "codepoint \<Rightarrow> bool" where
  "is_upper_ascii c \<longleftrightarrow> 0x41 \<le> c \<and> c \<le> 0x5A"

lemma is_space_NL [cls_simps]: "is_space 10"
  by (simp add: is_space_def)

lemma is_space_SP [cls_simps]: "is_space 32"
  by (simp add: is_space_def)

lemma is_space_NLNL [cls_simps]: "c \<in> set NLNL \<Longrightarrow> is_space c"
  by (auto simp: is_space_def)

lemma is_decimal_ascii: "c < 0x80 \<Longrightarrow> is_decimal c \<longleftrightarrow> 0x30 \<le> c \<and> c \<le> 0x39"
  by (simp add: is_decimal_def decimal_blocks_def) linarith

lemma is_space_ascii: "c < 0x80 \<Longrightarrow> is_space c \<longleftrightarrow> (9 \<le> c \<and> c \<le> 13) \<or> (28 \<le> c \<and> c \<le> 32)"
  by (auto simp: is_space_def)

lemma is_decimal_gap: "0x1C5A \<le> c \<Longrightarrow> c < 0xA620 \<Longrightarrow> \<not> is_decimal c"
  by (simp add: is_decimal_def decimal_blocks_def)

lemma is_decimal_singles: "\<not> is_decimal 0x85" "\<not> is_decimal 0xA0" "\<not> is_decimal 0x1680"
  by (simp_all add: is_decimal_def decimal_blocks_def)

lemma space_not_decimal: "is_space c \<Longrightarrow> \<not> is_decimal c"
proof -
  assume "is_space c"
  then consider "c < 0x80 \<and> \<not> (0x30 \<le> c \<and> c \<le> 0x39)" | "c = 0x85" | "c = 0xA0" | "c = 0x1680"
    | "0x1C5A \<le> c \<and> c < 0xA620"
    by (auto simp: is_space_def)
  then show ?thesis
    by cases (auto simp: is_decimal_ascii is_decimal_gap is_decimal_singles)
qed

section \<open>\<^verbatim>\<open>str.strip()\<close>\<close>

definition strip :: "ustring \<Rightarrow> ustring" where
  "strip s = rev (dropWhile is_space (rev (dropWhile is_space s)))"

lemma strip_Nil [simp]: "strip [] = []"
  by (simp add: strip_def)

lemma strip_Nil_if: "dropWhile is_space s = [] \<Longrightarrow> strip s = []"
  by (metis strip_def dropWhile.simps(1) rev.simps(1))

lemma strip_all_strip [simp]: "strip_all is_space (strip s) = strip_all is_space s"
  by (simp add: strip_def strip_all_rev)

lemma length_strip_le: "length (strip s) \<le> length s"
proof -
  have "length (strip s) \<le> length (dropWhile is_space s)"
    unfolding strip_def using length_dropWhile_le [of is_space "rev (dropWhile is_space s)"] by simp
  also have "\<dots> \<le> length s" by (rule length_dropWhile_le)
  finally show ?thesis .
qed

lemma strip_decomp:
  "\<exists>l r. s = l @ strip s @ r \<and> (\<forall>c \<in> set l. is_space c) \<and> (\<forall>c \<in> set r. is_space c)"
proof -
  let ?l = "takeWhile is_space s" and ?m = "dropWhile is_space s"
  let ?r = "rev (takeWhile is_space (rev ?m))"
  have "rev ?m = takeWhile is_space (rev ?m) @ dropWhile is_space (rev ?m)" by simp
  then have "?m = strip s @ ?r"
    unfolding strip_def by (metis rev_append rev_rev_ident)
  then have "s = ?l @ strip s @ ?r"
    by (metis takeWhile_dropWhile_id)
  moreover have "\<forall>c \<in> set ?l. is_space c" by (auto dest: set_takeWhileD)
  moreover have "\<forall>c \<in> set ?r. is_space c" by (auto dest: set_takeWhileD)
  ultimately show ?thesis by blast
qed

lemma strip_eq_Nil_iff: "strip s = [] \<longleftrightarrow> (\<forall>c \<in> set s. is_space c)"
proof
  assume "strip s = []"
  with strip_decomp [of s] show "\<forall>c \<in> set s. is_space c" by auto
next
  assume "\<forall>c \<in> set s. is_space c"
  then have "dropWhile is_space s = []" by (metis dropWhile_eq_Nil_conv)
  then show "strip s = []" by (rule strip_Nil_if)
qed

lemma hd_strip: "strip s \<noteq> [] \<Longrightarrow> \<not> is_space (hd (strip s))"
proof -
  assume ne: "strip s \<noteq> []"
  let ?m = "dropWhile is_space s"
  have sub: "strip s = rev (dropWhile is_space (rev ?m))" by (simp add: strip_def)
  from ne have m: "?m \<noteq> []" by (blast dest: strip_Nil_if)
  then have hm: "\<not> is_space (hd ?m)" by (rule hd_dropWhile)
  obtain r where r: "?m = strip s @ r"
    by (metis sub rev_append rev_rev_ident takeWhile_dropWhile_id)
  with ne have "hd ?m = hd (strip s)" by (metis hd_append2)
  with hm show ?thesis by simp
qed

lemma last_strip: "strip s \<noteq> [] \<Longrightarrow> \<not> is_space (last (strip s))"
proof -
  assume ne: "strip s \<noteq> []"
  let ?d = "dropWhile is_space (rev (dropWhile is_space s))"
  from ne have "?d \<noteq> []" by (simp add: strip_def)
  then have "\<not> is_space (hd ?d)" by (rule hd_dropWhile)
  moreover have "last (strip s) = hd ?d"
    using \<open>?d \<noteq> []\<close> by (simp add: strip_def last_rev)
  ultimately show ?thesis by simp
qed

lemma strip_id: "s \<noteq> [] \<Longrightarrow> \<not> is_space (hd s) \<Longrightarrow> \<not> is_space (last s) \<Longrightarrow> strip s = s"
proof -
  assume a: "s \<noteq> []" "\<not> is_space (hd s)" "\<not> is_space (last s)"
  then have 1: "dropWhile is_space s = s" by (cases s) auto
  from a have "rev s \<noteq> []" "\<not> is_space (hd (rev s))" by (simp_all add: hd_rev)
  then have "dropWhile is_space (rev s) = rev s" by (cases "rev s") auto
  with 1 show ?thesis by (simp add: strip_def)
qed

lemma strip_idem [simp]: "strip (strip s) = strip s"
  by (cases "strip s = []") (simp_all add: strip_id hd_strip last_strip)

lemma strip_content_nonempty: "strip s \<noteq> [] \<Longrightarrow> strip_all is_space (strip s) \<noteq> []"
proof -
  assume ne: "strip s \<noteq> []"
  then obtain c cs where "strip s = c # cs" by (cases "strip s") auto
  with hd_strip [OF ne] show ?thesis by simp
qed

section \<open>\<^verbatim>\<open>sep.join(xs)\<close> and \<^verbatim>\<open>s.split(sep)\<close>\<close>

fun join :: "'a list \<Rightarrow> 'a list list \<Rightarrow> 'a list" where
  "join sep [] = []"
| "join sep [x] = x"
| "join sep (x # y # ys) = x @ sep @ join sep (y # ys)"

text \<open>
  \<open>split_on sep s\<close> cuts \<open>s\<close> at the occurrences of a non-empty separator, leftmost
  first and without overlap, as \<^verbatim>\<open>str.split\<close> does. Python raises
  \<^verbatim>\<open>ValueError\<close> for the empty separator: that is the \<open>None\<close> of \<open>py_split\<close>,
  and \<open>split_on\<close> itself returns the uncut text there. Every call of the collector
  passes a literal separator.
\<close>

function split_on :: "'a list \<Rightarrow> 'a list \<Rightarrow> 'a list list" where
  "split_on sep [] = [[]]"
| "split_on sep (c # cs) =
     (if sep \<noteq> [] \<and> prefix sep (c # cs)
      then [] # split_on sep (drop (length sep) (c # cs))
      else map_hd ((#) c) (split_on sep cs))"
  by pat_completeness auto
termination
  by (relation "measure (\<lambda>(sep, s). length s)") auto

definition py_split :: "'a list \<Rightarrow> 'a list \<Rightarrow> 'a list list option" where
  "py_split s sep = (if sep = [] then None else Some (split_on sep s))"

lemma split_on_not_Nil [simp]: "split_on sep s \<noteq> []"
  by (induction sep s rule: split_on.induct) auto

lemma join_Cons: "xs \<noteq> [] \<Longrightarrow> join sep (x # xs) = x @ sep @ join sep xs"
  by (cases xs) simp_all

lemma join_map_hd: "xs \<noteq> [] \<Longrightarrow> join sep (map_hd ((#) c) xs) = c # join sep xs"
proof (cases xs)
  case (Cons y ys)
  then show ?thesis by (cases ys) simp_all
qed simp

lemma join_split_on: "join sep (split_on sep s) = s"
proof (induction sep s rule: split_on.induct)
  case (1 sep)
  show ?case by simp
next
  case (2 sep c cs)
  show ?case
  proof (cases "sep \<noteq> [] \<and> prefix sep (c # cs)")
    case True
    then have "c # cs = sep @ drop (length sep) (c # cs)"
      by (metis append_eq_conv_conj prefixE)
    with True 2 show ?thesis by (simp add: join_Cons)
  next
    case False
    with 2 show ?thesis by (auto simp: join_map_hd)
  qed
qed

lemma strip_all_join:
  "\<forall>c \<in> set sep. P c \<Longrightarrow> strip_all P (join sep xs) = strip_all P (concat xs)"
  by (induction sep xs rule: join.induct) (simp_all add: strip_all_ignorable)

lemma strip_all_split_on:
  "\<forall>c \<in> set sep. P c \<Longrightarrow> strip_all P (concat (split_on sep s)) = strip_all P s"
  using strip_all_join [of sep P "split_on sep s"] by (simp add: join_split_on)

lemma length_join_le: "length (concat xs) \<le> length (join sep xs)"
  by (induction sep xs rule: join.induct) simp_all

lemma split_on_piece_le: "p \<in> set (split_on sep s) \<Longrightarrow> length p \<le> length s"
proof -
  assume "p \<in> set (split_on sep s)"
  then have "length p \<le> length (concat (split_on sep s))"
    by (induction "split_on sep s" arbitrary: p) (auto simp: length_concat sum_list_map_remove1)
  also have "\<dots> \<le> length (join sep (split_on sep s))" by (rule length_join_le)
  finally show ?thesis by (simp add: join_split_on)
qed

lemma split_on_piece_set: "p \<in> set (split_on sep s) \<Longrightarrow> set p \<subseteq> set s"
proof (induction sep s arbitrary: p rule: split_on.induct)
  case (1 sep)
  then show ?case by simp
next
  case (2 sep c cs)
  show ?case
  proof (cases "sep \<noteq> [] \<and> prefix sep (c # cs)")
    case True
    with "2.prems" have "p = [] \<or> p \<in> set (split_on sep (drop (length sep) (c # cs)))"
      by auto
    with True "2.IH"(1) have "set p \<subseteq> set (drop (length sep) (c # cs))"
      by auto
    then show ?thesis using set_drop_subset [of "length sep" "c # cs"] by blast
  next
    case False
    obtain q qs where q: "split_on sep cs = q # qs"
      by (cases "split_on sep cs") auto
    with False "2.prems" have p: "p = c # q \<or> p \<in> set qs" by auto
    have "set r \<subseteq> set cs" if "r \<in> set (split_on sep cs)" for r
      using "2.IH"(2) [OF False that] .
    with q have "set q \<subseteq> set cs" "\<forall>r \<in> set qs. set r \<subseteq> set cs" by simp_all
    with p show ?thesis by auto
  qed
qed

lemma split_on_skip:
  "sep \<noteq> [] \<Longrightarrow> hd sep \<notin> set p \<Longrightarrow>
   split_on sep (p @ rest) = map_hd ((@) p) (split_on sep rest)"
proof (induction p)
  case Nil
  show ?case by (cases "split_on sep rest") simp_all
next
  case (Cons c p)
  then have "\<not> prefix sep (c # p @ rest)"
    by (cases sep) auto
  with Cons show ?case
    by (cases "split_on sep rest") simp_all
qed

lemma split_on_sep: "sep \<noteq> [] \<Longrightarrow> split_on sep (sep @ rest) = [] # split_on sep rest"
  by (cases sep) simp_all

lemma split_on_join:
  "sep \<noteq> [] \<Longrightarrow> ps \<noteq> [] \<Longrightarrow> \<forall>p \<in> set ps. hd sep \<notin> set p \<Longrightarrow>
   split_on sep (join sep ps) = ps"
proof (induction sep ps rule: join.induct)
  case (1 sep)
  then show ?case by simp
next
  case (2 sep x)
  then show ?case using split_on_skip [of sep x "[]"] by simp
next
  case (3 sep x y ys)
  then show ?case using split_on_skip [of sep x "sep @ join sep (y # ys)"]
    by (simp add: split_on_sep)
qed

lemma set_join: "set (join sep ps) \<subseteq> set sep \<union> \<Union> (set ` set ps)"
  by (induction sep ps rule: join.induct) auto

section \<open>The substring test \<^verbatim>\<open>sub in s\<close>\<close>

fun py_in :: "'a list \<Rightarrow> 'a list \<Rightarrow> bool" where
  "py_in sub [] \<longleftrightarrow> sub = []"
| "py_in sub (c # cs) \<longleftrightarrow> prefix sub (c # cs) \<or> py_in sub cs"

lemma py_in_iff_sublist: "py_in sub s \<longleftrightarrow> sublist sub s"
  by (induction s) (auto simp: sublist_Cons_right)

lemma py_in_append: "py_in sub s \<Longrightarrow> py_in sub (l @ s @ r)"
  unfolding py_in_iff_sublist by (metis append.assoc sublist_def)

section \<open>\<^verbatim>\<open>str.lower()\<close>\<close>

definition lower_cp :: "codepoint \<Rightarrow> ustring" where
  "lower_cp c =
     (if 0x41 \<le> c \<and> c \<le> 0x5A then [c + 0x20]
      else if c = 0x130 then [0x69, 0x307]
      else if c = 0x212A then [0x6B]
      else [c])"

definition lower :: "ustring \<Rightarrow> ustring" where
  "lower s = concat (map lower_cp s)"

lemma lower_Nil [simp]: "lower [] = []"
  by (simp add: lower_def)

lemma lower_Cons: "lower (c # cs) = lower_cp c @ lower cs"
  by (simp add: lower_def)

lemma lower_append: "lower (xs @ ys) = lower xs @ lower ys"
  by (simp add: lower_def)

section \<open>\<^verbatim>\<open>str(n)\<close> for an integer\<close>

fun str_nat :: "nat \<Rightarrow> ustring" where
  "str_nat n = (if n < 10 then [0x30 + n] else str_nat (n div 10) @ [0x30 + n mod 10])"

declare str_nat.simps [simp del]

lemma str_nat_not_Nil [simp]: "str_nat n \<noteq> []"
  by (subst str_nat.simps) simp

lemma str_nat_digits: "c \<in> set (str_nat n) \<Longrightarrow> 0x30 \<le> c \<and> c \<le> 0x39"
proof (induction n rule: str_nat.induct)
  case (1 n)
  show ?case
  proof (cases "n < 10")
    case True
    with "1.prems" show ?thesis by (simp add: str_nat.simps [of n])
  next
    case False
    with "1.prems" have "c \<in> set (str_nat (n div 10)) \<or> c = 0x30 + n mod 10"
      by (auto simp: str_nat.simps [of n])
    moreover have "n mod 10 < 10" by simp
    ultimately show ?thesis using "1.IH" False by auto
  qed
qed

definition str_int :: "int \<Rightarrow> ustring" where
  "str_int i = (if i < 0 then 0x2D # str_nat (nat (- i)) else str_nat (nat i))"

lemma str_int_not_Nil [simp]: "str_int i \<noteq> []"
  by (simp add: str_int_def)

lemma str_int_nat [simp]: "str_int (int n) = str_nat n"
  by (simp add: str_int_def)

end
