(* ===== verification/Segmenter.thy ===== *)
theory Segmenter
  imports Py_String
begin

text \<open>
  The segmenter and the contextualizer: \<^verbatim>\<open>smart_chunk_text\<close> of
  \<^verbatim>\<open>src/auto_collect_upload.py\<close> (lines 111-193) and the size constants it reads
  (lines 59-61).

  The source function is one body with two loop nests, a merge loop and a labelling
  loop. Each loop is one recursive function over the list it iterates, with the
  variables it assigns as its state: \<open>pack_sections\<close> (the loop over numbered
  sections, lines 129-155) and \<open>sub_pack\<close> (its inner loop over the paragraphs of an
  oversized section, lines 143-149) and \<open>pack_paragraphs\<close> (the fallback loop, lines
  163-172) all run on a \<open>pack_state\<close>, the pair of \<^verbatim>\<open>chunks\<close> and the open
  accumulator; \<open>merge_short\<close> is the merge pass (lines 177-182) and \<open>contextualize\<close>
  the labelling (lines 185-191). \<open>split_sections\<close> is
  \<^verbatim>\<open>re.split(r'\n(?=\d{1,2}\.\s+[A-Z])', full_text)\<close>: the text is cut at every
  line feed that \<open>heading_ahead\<close> holds after, and the line feed is dropped.
  \<open>raw_chunks\<close> is the part of the body before the merge pass, \<open>segment_bodies\<close>
  the part before the labelling, and \<open>smart_chunk_text\<close> the whole function, early
  return included.

  What is proved: no non-whitespace text is lost or reordered; every packed chunk is at
  most two code points longer than the bound unless it is one indivisible paragraph;
  after the merge pass every segment but the first has the minimum length; the two
  strategies pack alike when no section is oversized; the result is empty exactly for
  an over-long text of whitespace; and the two scenarios of the spec, evaluated.
\<close>

section \<open>Configuration (lines 59-61)\<close>

definition CHUNK_MIN :: nat where "CHUNK_MIN = 300"
definition CHUNK_MAX :: nat where "CHUNK_MAX = 1500"
definition CHUNK_IDEAL :: nat where "CHUNK_IDEAL = 800"

section \<open>The structural split (line 124)\<close>

text \<open>
  \<open>heading_tail\<close> matches \<^verbatim>\<open>\.\s+[A-Z]\<close> at the start of a text and
  \<open>heading_ahead\<close> matches \<^verbatim>\<open>\d{1,2}\.\s+[A-Z]\<close>. The greedy \<^verbatim>\<open>\s+\<close> can give
  nothing back to \<^verbatim>\<open>[A-Z]\<close>, since no capital is whitespace, so the capital must
  follow the whole run of whitespace; and \<^verbatim>\<open>\d{1,2}\<close> matches one digit or two.
\<close>

definition heading_tail :: "ustring \<Rightarrow> bool" where
  "heading_tail s =
     (case s of
        [] \<Rightarrow> False
      | d # r \<Rightarrow> d = 0x2E \<and>
          (case r of
             [] \<Rightarrow> False
           | w # r' \<Rightarrow> is_space w \<and>
               (case dropWhile is_space r' of [] \<Rightarrow> False | u # _ \<Rightarrow> is_upper_ascii u)))"

definition heading_ahead :: "ustring \<Rightarrow> bool" where
  "heading_ahead s =
     (case s of
        [] \<Rightarrow> False
      | d1 # r \<Rightarrow> is_decimal d1 \<and>
          (heading_tail r \<or>
           (case r of [] \<Rightarrow> False | d2 # r' \<Rightarrow> is_decimal d2 \<and> heading_tail r')))"

fun split_sections :: "ustring \<Rightarrow> ustring list" where
  "split_sections [] = [[]]"
| "split_sections (c # cs) =
     (if c = NL \<and> heading_ahead cs then [] # split_sections cs
      else map_hd ((#) c) (split_sections cs))"

section \<open>Greedy packing (lines 128-174)\<close>

text \<open>
  \<open>glue cur piece\<close> is \<^verbatim>\<open>cur += ("\n\n" if cur else "") + piece\<close> and
  \<open>flush chunks cur\<close> is \<^verbatim>\<open>if cur: chunks.append(cur)\<close>.
\<close>

type_synonym pack_state = "ustring list \<times> ustring"

definition glue :: "ustring \<Rightarrow> ustring \<Rightarrow> ustring" where
  "glue cur piece = cur @ (if cur \<noteq> [] then NLNL else []) @ piece"

definition flush :: "ustring list \<Rightarrow> ustring \<Rightarrow> ustring list" where
  "flush chunks cur = (if cur \<noteq> [] then chunks @ [cur] else chunks)"

fun sub_pack :: "nat \<Rightarrow> ustring list \<Rightarrow> pack_state \<Rightarrow> pack_state" where
  "sub_pack max_size [] st = st"
| "sub_pack max_size (para # paras) (chunks, sub_chunk) =
     (if length sub_chunk + length para \<le> max_size
      then sub_pack max_size paras (chunks, glue sub_chunk para)
      else sub_pack max_size paras (flush chunks sub_chunk, para))"

fun pack_sections :: "nat \<Rightarrow> ustring list \<Rightarrow> pack_state \<Rightarrow> pack_state" where
  "pack_sections max_size [] st = st"
| "pack_sections max_size (section # sections) (chunks, current_chunk) =
     (if strip section = [] then pack_sections max_size sections (chunks, current_chunk)
      else if length current_chunk + length (strip section) \<le> max_size
      then pack_sections max_size sections (chunks, glue current_chunk (strip section))
      else if length (strip section) > max_size
      then pack_sections max_size sections
             (sub_pack max_size (split_on NLNL (strip section))
                (flush chunks current_chunk, []))
      else pack_sections max_size sections (flush chunks current_chunk, strip section))"

fun pack_paragraphs :: "nat \<Rightarrow> ustring list \<Rightarrow> pack_state \<Rightarrow> pack_state" where
  "pack_paragraphs max_size [] st = st"
| "pack_paragraphs max_size (para # paragraphs) (chunks, current_chunk) =
     (if strip para = [] then pack_paragraphs max_size paragraphs (chunks, current_chunk)
      else if length current_chunk + length (strip para) \<le> max_size
      then pack_paragraphs max_size paragraphs (chunks, glue current_chunk (strip para))
      else pack_paragraphs max_size paragraphs (flush chunks current_chunk, strip para))"

definition finish :: "pack_state \<Rightarrow> ustring list" where
  "finish st = flush (fst st) (snd st)"

definition raw_chunks :: "nat \<Rightarrow> ustring \<Rightarrow> ustring list" where
  "raw_chunks max_size full_text =
     (let sections = split_sections full_text in
      if length sections \<ge> 3
      then finish (pack_sections max_size sections ([], []))
      else finish (pack_paragraphs max_size (split_on NLNL full_text) ([], [])))"

section \<open>The merge pass (lines 176-182)\<close>

definition merge_into :: "ustring \<Rightarrow> ustring \<Rightarrow> ustring" where
  "merge_into chunk l = l @ NLNL @ chunk"

fun merge_short :: "ustring list \<Rightarrow> ustring list \<Rightarrow> ustring list" where
  "merge_short final_chunks [] = final_chunks"
| "merge_short final_chunks (chunk # chunks) =
     (if length chunk < CHUNK_MIN \<and> final_chunks \<noteq> []
      then merge_short (snoc_last (merge_into chunk) final_chunks) chunks
      else merge_short (final_chunks @ [chunk]) chunks)"

definition segment_bodies :: "nat \<Rightarrow> ustring \<Rightarrow> ustring list" where
  "segment_bodies max_size full_text = merge_short [] (raw_chunks max_size full_text)"

section \<open>The contextualizer (lines 184-193)\<close>


definition part_header :: "ustring \<Rightarrow> nat \<Rightarrow> nat \<Rightarrow> ustring" where
  "part_header doc_title i n =
     (if n > 1
      then U ''['' @ doc_title @ [0x20, EM_DASH, 0x20] @ U ''Part '' @ str_nat (i + 1) @ U ''/'' @
           str_nat n @ U '']''
      else U ''['' @ doc_title @ U '']'')"

definition contextualize :: "ustring \<Rightarrow> ustring list \<Rightarrow> ustring list" where
  "contextualize doc_title final_chunks =
     map (\<lambda>(i, chunk). part_header doc_title i (length final_chunks) @ NLNL @ chunk)
       (enumerate 0 final_chunks)"

section \<open>The whole function (lines 111-193)\<close>

definition smart_chunk_text :: "ustring \<Rightarrow> ustring \<Rightarrow> nat \<Rightarrow> ustring list" where
  "smart_chunk_text full_text doc_title max_size =
     (if length full_text \<le> max_size then [full_text]
      else contextualize doc_title (segment_bodies max_size full_text))"

section \<open>Specification vocabulary\<close>

text \<open>
  \<open>content st\<close> is the non-whitespace text a packing state holds. \<open>atoms t\<close> are
  the pieces the packer cannot cut: the paragraphs of the stripped sections in the
  structural strategy, the stripped paragraphs in the fallback. \<open>pack_inv\<close> is the
  loop invariant of all three packing loops, and \<open>tail_min\<close> the invariant of the
  merge pass. The last three definitions are the inputs of the spec's scenarios.
\<close>

definition content :: "pack_state \<Rightarrow> ustring" where
  "content st = strip_all is_space (concat (fst st) @ snd st)"

definition atoms :: "ustring \<Rightarrow> ustring list" where
  "atoms full_text =
     (let sections = split_sections full_text in
      if length sections \<ge> 3 then concat (map (\<lambda>s. split_on NLNL (strip s)) sections)
      else map strip (split_on NLNL full_text))"

definition chunk_ok :: "nat \<Rightarrow> ustring set \<Rightarrow> ustring \<Rightarrow> bool" where
  "chunk_ok m A c \<longleftrightarrow> length c \<le> m + 2 \<or> c \<in> A"

definition pack_inv :: "nat \<Rightarrow> ustring set \<Rightarrow> pack_state \<Rightarrow> bool" where
  "pack_inv m A st \<longleftrightarrow>
     (\<forall>c \<in> set (fst st). c \<noteq> [] \<and> chunk_ok m A c) \<and> chunk_ok m A (snd st)"

definition tail_min :: "ustring list \<Rightarrow> bool" where
  "tail_min xs \<longleftrightarrow> (\<forall>c \<in> set (tl xs). CHUNK_MIN \<le> length c)"

definition fifty_paragraphs :: ustring where
  "fifty_paragraphs = join NLNL (replicate 50 (replicate 20 0x61))"

definition numbered :: "codepoint \<Rightarrow> ustring" where
  "numbered d = [d] @ U ''. A'' @ replicate 396 0x61"

definition three_sections :: ustring where
  "three_sections = numbered 0x31 @ [NL] @ numbered 0x32 @ [NL] @ numbered 0x33"

definition short_then_long :: ustring where
  "short_then_long = join NLNL [replicate 20 0x61, replicate 300 0x61]"

section \<open>Gluing and flushing\<close>

lemma glue_Nil [simp]: "glue [] piece = piece"
  by (simp add: glue_def)

lemma glue_Cons: "cur \<noteq> [] \<Longrightarrow> glue cur piece = cur @ NLNL @ piece"
  by (simp add: glue_def)

lemma length_glue:
  "length (glue cur piece) = length cur + (if cur = [] then 0 else 2) + length piece"
  by (simp add: glue_def)

lemma glue_eq_Nil_iff [simp]: "glue cur piece = [] \<longleftrightarrow> cur = [] \<and> piece = []"
  by (simp add: glue_def)

lemma strip_all_glue [simp]:
  "strip_all is_space (glue cur piece) = strip_all is_space cur @ strip_all is_space piece"
  by (simp add: glue_def is_space_NL)

lemma flush_Nil [simp]: "flush chunks [] = chunks"
  by (simp add: flush_def)

lemma flush_Cons: "cur \<noteq> [] \<Longrightarrow> flush chunks cur = chunks @ [cur]"
  by (simp add: flush_def)

lemma concat_flush [simp]: "concat (flush chunks cur) = concat chunks @ cur"
  by (simp add: flush_def)

lemma set_flush: "set (flush chunks cur) = set chunks \<union> (if cur = [] then {} else {cur})"
  by (simp add: flush_def)

lemma finish_simp [simp]: "finish (chunks, cur) = flush chunks cur"
  by (simp add: finish_def)

lemma length_merge_into [simp]: "length (merge_into c l) = length l + 2 + length c"
  by (simp add: merge_into_def)

lemma merge_into_not_Nil [simp]: "merge_into c l \<noteq> []" "[] \<noteq> merge_into c l"
  by (simp_all add: merge_into_def)

lemma concat_snoc_last_merge:
  "xs \<noteq> [] \<Longrightarrow> concat (snoc_last (merge_into c) xs) = concat xs @ NLNL @ c"
  by (cases xs rule: rev_cases) (auto simp: merge_into_def)

section \<open>The structural split\<close>

lemma split_sections_not_Nil [simp]: "split_sections s \<noteq> []"
  by (induction s) auto

text \<open>
  Joining the sections with the line feeds the split dropped gives the text back: the
  split loses nothing but those line feeds.
\<close>

lemma join_split_sections: "join [NL] (split_sections s) = s"
  by (induction s) (auto simp: join_Cons join_map_hd)

lemma strip_all_split_sections:
  "strip_all is_space (concat (split_sections s)) = strip_all is_space s"
  using strip_all_join [of "[NL]" is_space "split_sections s"]
  by (simp add: join_split_sections is_space_NL)

lemma split_sections_skip:
  "NL \<notin> set p \<Longrightarrow> split_sections (p @ rest) = map_hd ((@) p) (split_sections rest)"
  by (induction p) simp_all

lemma heading_ahead_decimal: "heading_ahead s \<Longrightarrow> s \<noteq> [] \<and> is_decimal (hd s)"
  by (cases s) (auto simp: heading_ahead_def)

lemma split_sections_no_decimal:
  "\<forall>c \<in> set s. \<not> is_decimal c \<Longrightarrow> split_sections s = [s]"
proof (induction s)
  case Nil
  show ?case by simp
next
  case (Cons c cs)
  then have "\<not> heading_ahead cs"
    by (cases cs) (auto dest: heading_ahead_decimal)
  with Cons show ?case by simp
qed

section \<open>No text is lost\<close>

lemma content_simp [simp]:
  "content (chunks, cur) = strip_all is_space (concat chunks) @ strip_all is_space cur"
  by (simp add: content_def)

lemma content_finish: "strip_all is_space (concat (finish st)) = content st"
  by (cases st) simp

lemma strip_Nil_content: "strip s = [] \<Longrightarrow> strip_all is_space s = []"
  by (metis strip_all_strip strip_all_Nil)

lemma content_sub_pack:
  "content (sub_pack m paras st) = content st @ strip_all is_space (concat paras)"
  by (induction m paras st rule: sub_pack.induct) simp_all

lemma content_pack_paragraphs:
  "content (pack_paragraphs m paras st) = content st @ strip_all is_space (concat paras)"
  by (induction m paras st rule: pack_paragraphs.induct) (simp_all add: strip_Nil_content)

lemma content_pack_sections:
  "content (pack_sections m secs st) = content st @ strip_all is_space (concat secs)"
proof (induction m secs st rule: pack_sections.induct)
  case (1 m st)
  show ?case by simp
next
  case (2 m sec secs chunks cur)
  have split: "strip_all is_space (concat (split_on NLNL (strip sec))) = strip_all is_space sec"
    by (simp add: strip_all_split_on is_space_NL)
  from 2 show ?case
    by (simp add: content_sub_pack split strip_Nil_content)
qed

lemma raw_chunks_content:
  "strip_all is_space (concat (raw_chunks m t)) = strip_all is_space t"
  by (simp add: raw_chunks_def Let_def content_finish content_pack_sections
      content_pack_paragraphs strip_all_split_sections strip_all_split_on is_space_NL)

lemma merge_short_content:
  "strip_all is_space (concat (merge_short final chunks)) =
     strip_all is_space (concat final) @ strip_all is_space (concat chunks)"
  by (induction final chunks rule: merge_short.induct)
     (simp_all add: concat_snoc_last_merge is_space_NL)

text \<open>
  C1 (segment_bodies_content). Coverage law of the segmenter: the segments, before
  they are labelled, carry the non-whitespace code points of the input text, all of
  them, once each and in the input's order, whatever the text and the size bound.
\<close>

theorem segment_bodies_content:
  "strip_all is_space (concat (segment_bodies max_size full_text)) = strip_all is_space full_text"
  by (simp add: segment_bodies_def merge_short_content raw_chunks_content)

section \<open>Sizes of the packed chunks\<close>

lemma chunk_ok_Nil [simp]: "chunk_ok m A []"
  by (simp add: chunk_ok_def)

lemma chunk_ok_glue: "length cur + length p \<le> m \<Longrightarrow> chunk_ok m A (glue cur p)"
  by (simp add: chunk_ok_def length_glue)

lemma chunk_ok_short: "length c \<le> m \<Longrightarrow> chunk_ok m A c"
  by (simp add: chunk_ok_def)

lemma chunk_ok_atom: "c \<in> A \<Longrightarrow> chunk_ok m A c"
  by (simp add: chunk_ok_def)

lemma pack_inv_init [simp]: "pack_inv m A ([], [])"
  by (simp add: pack_inv_def)

lemma pack_inv_glue:
  "pack_inv m A (chunks, cur) \<Longrightarrow> length cur + length p \<le> m \<Longrightarrow> pack_inv m A (chunks, glue cur p)"
  by (simp add: pack_inv_def chunk_ok_glue)

lemma pack_inv_flush:
  "pack_inv m A (chunks, cur) \<Longrightarrow> chunk_ok m A p \<Longrightarrow> pack_inv m A (flush chunks cur, p)"
  by (auto simp: pack_inv_def set_flush)

lemma pack_inv_finish:
  "pack_inv m A st \<Longrightarrow> c \<in> set (finish st) \<Longrightarrow> c \<noteq> [] \<and> chunk_ok m A c"
  by (cases st) (auto simp: pack_inv_def set_flush split: if_splits)

lemmas pack_inv_steps = pack_inv_glue pack_inv_flush chunk_ok_atom chunk_ok_short

lemma pack_inv_sub_pack:
  "pack_inv m A st \<Longrightarrow> set paras \<subseteq> A \<Longrightarrow> pack_inv m A (sub_pack m paras st)"
  by (induction m paras st rule: sub_pack.induct) (auto intro: pack_inv_steps)

lemma pack_inv_pack_paragraphs:
  "pack_inv m A st \<Longrightarrow> strip ` set paras \<subseteq> A \<Longrightarrow> pack_inv m A (pack_paragraphs m paras st)"
  by (induction m paras st rule: pack_paragraphs.induct) (auto intro: pack_inv_steps)

lemma pack_inv_pack_sections:
  "pack_inv m A st \<Longrightarrow> (\<forall>s \<in> set secs. set (split_on NLNL (strip s)) \<subseteq> A) \<Longrightarrow>
   pack_inv m A (pack_sections m secs st)"
proof (induction m secs st rule: pack_sections.induct)
  case (1 m st)
  then show ?case by simp
next
  case (2 m sec secs chunks cur)
  from "2.prems" have sub: "set (split_on NLNL (strip sec)) \<subseteq> A"
    and rest: "\<forall>s \<in> set secs. set (split_on NLNL (strip s)) \<subseteq> A"
    by simp_all
  note inv = "2.prems"(1)
  consider (blank) "strip sec = []"
    | (fits) "strip sec \<noteq> []" "length cur + length (strip sec) \<le> m"
    | (over) "strip sec \<noteq> []" "\<not> length cur + length (strip sec) \<le> m" "m < length (strip sec)"
    | (fresh) "strip sec \<noteq> []" "\<not> length cur + length (strip sec) \<le> m"
        "\<not> m < length (strip sec)"
    by blast
  then show ?case
  proof cases
    case blank
    with "2.IH"(1) inv rest show ?thesis by simp
  next
    case fits
    with "2.IH"(2) rest pack_inv_glue [OF inv fits(2)] show ?thesis by simp
  next
    case over
    have "pack_inv m A (sub_pack m (split_on NLNL (strip sec)) (flush chunks cur, []))"
      using inv sub by (intro pack_inv_sub_pack pack_inv_flush) simp_all
    with "2.IH"(3) over rest show ?thesis by simp
  next
    case fresh
    have "pack_inv m A (flush chunks cur, strip sec)"
      using inv fresh(3) by (intro pack_inv_flush chunk_ok_short) simp_all
    with "2.IH"(4) fresh rest show ?thesis by simp
  qed
qed

lemma raw_chunks_ok:
  "c \<in> set (raw_chunks m t) \<Longrightarrow> c \<noteq> [] \<and> chunk_ok m (set (atoms t)) c"
proof -
  assume c: "c \<in> set (raw_chunks m t)"
  let ?A = "set (atoms t)"
  show ?thesis
  proof (cases "length (split_sections t) \<ge> 3")
    case True
    then have "\<forall>s \<in> set (split_sections t). set (split_on NLNL (strip s)) \<subseteq> ?A"
      by (auto simp: atoms_def)
    then have "pack_inv m ?A (pack_sections m (split_sections t) ([], []))"
      by (intro pack_inv_pack_sections) simp_all
    with c True show ?thesis by (auto simp: raw_chunks_def dest: pack_inv_finish)
  next
    case False
    then have "strip ` set (split_on NLNL t) \<subseteq> ?A"
      by (auto simp: atoms_def)
    then have "pack_inv m ?A (pack_paragraphs m (split_on NLNL t) ([], []))"
      by (intro pack_inv_pack_paragraphs) simp_all
    with c False show ?thesis by (auto simp: raw_chunks_def dest: pack_inv_finish)
  qed
qed

text \<open>The facts that evaluate the segmenter on a concrete text.\<close>

lemmas seg_eval = U_def is_space_def is_upper_ascii_def is_decimal_ascii heading_ahead_def
  heading_tail_def strip_def raw_chunks_def glue_def flush_def

text \<open>
  C2 (raw_chunks_bound). Size bound of the packer: a chunk it emits is at most
  \<open>max_size + 2\<close> code points long, or it is a single indivisible piece of the text
  (a paragraph longer than the bound). The two extra code points are the blank line the
  packer inserts after it has compared the lengths without it (lines 134-135, 144-145,
  167-168).
\<close>

theorem raw_chunks_bound:
  "c \<in> set (raw_chunks max_size full_text) \<Longrightarrow>
   length c \<le> max_size + 2 \<or> c \<in> set (atoms full_text)"
  using raw_chunks_ok [of c max_size full_text] by (simp add: chunk_ok_def)

theorem raw_chunks_bound_witness:
  "U ''aaaa'' @ NLNL @ U ''bbbbbb'' \<in>
     set (raw_chunks 10 (U ''aaaa'' @ NLNL @ U ''bbbbbb'' @ NLNL @ U ''cccccccccc'')) \<and>
   (length (U ''aaaa'' @ NLNL @ U ''bbbbbb'') \<le> 10 + 2 \<or>
    U ''aaaa'' @ NLNL @ U ''bbbbbb'' \<in>
      set (atoms (U ''aaaa'' @ NLNL @ U ''bbbbbb'' @ NLNL @ U ''cccccccccc'')))"
proof -
  have m: "U ''aaaa'' @ NLNL @ U ''bbbbbb'' \<in>
     set (raw_chunks 10 (U ''aaaa'' @ NLNL @ U ''bbbbbb'' @ NLNL @ U ''cccccccccc''))"
    by (simp add: seg_eval)
  from raw_chunks_bound [OF m] m show ?thesis by blast
qed

lemma raw_chunks_nonempty: "[] \<notin> set (raw_chunks max_size full_text)"
  using raw_chunks_ok [of "[]" max_size full_text] by blast

text \<open>
  The bound \<open>max_size + 2\<close> is reached: two paragraphs of four and six code points
  fit a bound of ten by the packer's test and leave as one chunk of twelve.
\<close>

lemma raw_chunks_overshoot:
  "raw_chunks 10 (U ''aaaa'' @ NLNL @ U ''bbbbbb'' @ NLNL @ U ''cccccccccc'') =
     [U ''aaaa'' @ NLNL @ U ''bbbbbb'', U ''cccccccccc'']"
  by (simp add: seg_eval)

text \<open>
  In an oversized section the paragraphs are neither stripped nor filtered (line 141),
  so a paragraph of one blank is a candidate like any other and can leave as a chunk of
  its own.
\<close>

lemma raw_chunks_blank_chunk:
  "raw_chunks 12 (U ''x'' @ [NL] @ U ''1. Aaaa'' @ [NL] @ U ''2. Bbbbbbbbbbb'' @ NLNL @ U '' '' @
      NLNL @ U ''cccccccccccc'') =
     [U ''x'' @ NLNL @ U ''1. Aaaa'', U ''2. Bbbbbbbbbbb'', U '' '', U ''cccccccccccc'']"
  by (simp add: seg_eval)

section \<open>The merge pass\<close>

lemma tail_min_Nil [simp]: "tail_min []"
  by (simp add: tail_min_def)

lemma tail_min_single [simp]: "tail_min [c]"
  by (simp add: tail_min_def)

lemma tail_min_snoc:
  "tail_min xs \<Longrightarrow> xs = [] \<or> CHUNK_MIN \<le> length c \<Longrightarrow> tail_min (xs @ [c])"
  by (cases xs) (auto simp: tail_min_def)

lemma tail_min_snoc_last:
  "tail_min xs \<Longrightarrow> tail_min (snoc_last (merge_into c) xs)"
proof (cases xs)
  case Nil
  then show ?thesis by simp
next
  case (Cons x ys)
  assume "tail_min xs"
  with Cons have ys: "\<forall>c \<in> set ys. CHUNK_MIN \<le> length c" by (simp add: tail_min_def)
  show ?thesis
  proof (cases ys rule: rev_cases)
    case Nil
    with Cons show ?thesis by simp
  next
    case (snoc zs z)
    with Cons have "snoc_last (merge_into c) xs = x # zs @ [merge_into c z]"
      by (simp add: snoc_last_def butlast_append)
    with ys snoc show ?thesis by (auto simp: tail_min_def)
  qed
qed

lemma merge_short_tail_min:
  "tail_min final \<Longrightarrow> tail_min (merge_short final chunks)"
proof (induction final chunks rule: merge_short.induct)
  case (1 final)
  then show ?case by simp
next
  case (2 final chunk chunks)
  show ?case
  proof (cases "length chunk < CHUNK_MIN \<and> final \<noteq> []")
    case True
    with 2 tail_min_snoc_last [of final chunk] show ?thesis by simp
  next
    case False
    then have "final = [] \<or> CHUNK_MIN \<le> length chunk" by auto
    with "2.prems" have "tail_min (final @ [chunk])" by (rule tail_min_snoc)
    with False "2.IH"(2) show ?thesis by auto
  qed
qed

lemma merge_short_eq_Nil_iff [simp]:
  "merge_short final chunks = [] \<longleftrightarrow> final = [] \<and> chunks = []"
  by (induction final chunks rule: merge_short.induct) auto

lemma length_merge_short_le:
  "length (merge_short final chunks) \<le> length final + length chunks"
  by (induction final chunks rule: merge_short.induct) auto

lemma merge_short_nonempty:
  "[] \<notin> set final \<Longrightarrow> [] \<notin> set chunks \<Longrightarrow> [] \<notin> set (merge_short final chunks)"
proof (induction final chunks rule: merge_short.induct)
  case (1 final)
  then show ?case by simp
next
  case (2 final chunk chunks)
  have "[] \<notin> set (snoc_last (merge_into chunk) final)" if "final \<noteq> []"
    using that "2.prems"(1) by (auto simp: set_snoc_last dest: in_set_butlastD)
  with 2 show ?case by auto
qed

lemma merge_short_long:
  "\<forall>c \<in> set chunks. CHUNK_MIN \<le> length c \<Longrightarrow> merge_short final chunks = final @ chunks"
  by (induction final chunks rule: merge_short.induct) auto

lemma segment_bodies_nonempty: "[] \<notin> set (segment_bodies max_size full_text)"
  by (simp add: segment_bodies_def merge_short_nonempty raw_chunks_nonempty)

lemma length_segment_bodies_le:
  "length (segment_bodies max_size full_text) \<le> length (raw_chunks max_size full_text)"
  using length_merge_short_le [of "[]"] by (simp add: segment_bodies_def)

section \<open>The spec's scenario of fifty short paragraphs\<close>

lemma not_space_a: "\<not> is_space 0x61"
  by (simp add: is_space_def)

lemma strip_para20: "strip (replicate 20 0x61) = replicate 20 0x61"
  by (rule strip_id) (simp_all add: not_space_a)

lemma fifty_pack:
  assumes P: "strip P = P" "length P = 20"
  shows "map length (finish (pack_paragraphs 500 (replicate 50 P) ([], []))) = [482, 482, 130]"
    and "map length (merge_short [] (finish (pack_paragraphs 500 (replicate 50 P) ([], [])))) =
      [482, 614]"
proof -
  from P have ne: "P \<noteq> []" by auto
  show "map length (finish (pack_paragraphs 500 (replicate 50 P) ([], []))) = [482, 482, 130]"
    by (simp add: P ne length_glue flush_def eval_nat_numeral)
  show "map length (merge_short [] (finish (pack_paragraphs 500 (replicate 50 P) ([], [])))) =
      [482, 614]"
    by (simp add: P ne length_glue flush_def CHUNK_MIN_def eval_nat_numeral)
qed

lemma fifty_fallback:
  "split_sections fifty_paragraphs = [fifty_paragraphs]"
  "split_on NLNL fifty_paragraphs = replicate 50 (replicate 20 0x61)"
proof -
  let ?P = "replicate 20 (0x61 :: nat)"
  have "set fifty_paragraphs \<subseteq> {NL, 0x61}"
    unfolding fifty_paragraphs_def using set_join [of NLNL "replicate 50 ?P"] by auto
  then have "\<forall>c \<in> set fifty_paragraphs. \<not> is_decimal c"
    by (auto simp: is_decimal_ascii)
  then show "split_sections fifty_paragraphs = [fifty_paragraphs]"
    by (rule split_sections_no_decimal)
  show "split_on NLNL fifty_paragraphs = replicate 50 ?P"
    unfolding fifty_paragraphs_def by (rule split_on_join) simp_all
qed

lemma fifty_bodies: "map length (segment_bodies 500 fifty_paragraphs) = [482, 614]"
  using fifty_pack(2) [OF strip_para20]
  by (simp add: segment_bodies_def raw_chunks_def fifty_fallback)

text \<open>
  C3 (segment_bodies_tail_min). Invariant of the merge pass: in the result of the
  segmenter (before labelling) every segment except the first is at least
  \<open>CHUNK_MIN\<close> code points long; an undersized chunk is only ever kept in first
  position, where it has no predecessor to be merged into.
\<close>

theorem segment_bodies_tail_min:
  "\<forall>c \<in> set (tl (segment_bodies max_size full_text)). CHUNK_MIN \<le> length c"
  using merge_short_tail_min [of "[]" "raw_chunks max_size full_text"]
  by (simp add: segment_bodies_def tail_min_def)

theorem segment_bodies_tail_min_witness:
  "length (segment_bodies 500 fifty_paragraphs) = 2 \<and>
   CHUNK_MIN \<le> length (segment_bodies 500 fifty_paragraphs ! 1)"
proof -
  have "length (map length (segment_bodies 500 fifty_paragraphs)) = 2"
    by (simp only: fifty_bodies) simp
  then have len: "length (segment_bodies 500 fifty_paragraphs) = 2" by simp
  then have "segment_bodies 500 fifty_paragraphs ! 1 \<in> set (tl (segment_bodies 500 fifty_paragraphs))"
    by (cases "segment_bodies 500 fifty_paragraphs") auto
  with segment_bodies_tail_min [of 500 fifty_paragraphs] len show ?thesis by blast
qed


section \<open>The contextualizer\<close>

lemma length_contextualize [simp]: "length (contextualize t cs) = length cs"
  by (simp add: contextualize_def)

lemma contextualize_nth:
  "i < length cs \<Longrightarrow> contextualize t cs ! i = part_header t i (length cs) @ NLNL @ cs ! i"
  by (simp add: contextualize_def nth_enumerate_eq)

lemma contextualize_Nil [simp]: "contextualize t [] = []"
  by (simp add: contextualize_def)

lemma contextualize_eq_Nil_iff [simp]: "contextualize t cs = [] \<longleftrightarrow> cs = []"
  using length_contextualize [of t cs] by (metis length_0_conv)

lemma contextualize_single:
  "contextualize t [c] = [U ''['' @ t @ U '']'' @ NLNL @ c]"
  by (simp add: contextualize_def part_header_def)

lemma contextualize_pair:
  "contextualize t [c, d] = [part_header t 0 2 @ NLNL @ c, part_header t 1 2 @ NLNL @ d]"
  by (simp add: contextualize_def numeral_2_eq_2)

text \<open>
  The labelling does not look at the body: a segment that already starts with the label
  gets it a second time.
\<close>

lemma contextualize_twice:
  "contextualize t (contextualize t [c]) =
     [U ''['' @ t @ U '']'' @ NLNL @ U ''['' @ t @ U '']'' @ NLNL @ c]"
  by (simp add: contextualize_single)

section \<open>The two strategies agree on sections that fit\<close>

text \<open>
  C30 (pack_sections_eq_paragraphs). Equivalence of the two packing loops: on a list of
  pieces none of which, stripped, is longer than the bound, the loop of the structural
  strategy computes what the loop of the fallback strategy computes, from any state.
  The strategies differ only in where they cut and in how they treat an oversized
  piece.
\<close>

theorem pack_sections_eq_paragraphs:
  "\<forall>s \<in> set secs. length (strip s) \<le> max_size \<Longrightarrow>
   pack_sections max_size secs st = pack_paragraphs max_size secs st"
  by (induction max_size secs st rule: pack_sections.induct) auto

theorem pack_sections_eq_paragraphs_witness:
  "pack_sections 3 [U ''ab'', U '' cd '', U ''e''] ([], []) = ([U ''ab''], U ''cd'' @ NLNL @ U ''e'')"
proof -
  have h: "\<forall>s \<in> set [U ''ab'', U '' cd '', U ''e'']. length (strip s) \<le> 3"
    by (simp add: seg_eval)
  have "pack_paragraphs 3 [U ''ab'', U '' cd '', U ''e''] ([], []) =
      ([U ''ab''], U ''cd'' @ NLNL @ U ''e'')"
    by (simp add: seg_eval)
  with pack_sections_eq_paragraphs [OF h, of "([], [])"] show ?thesis by simp
qed

section \<open>The whole segmenter\<close>

text \<open>
  A text that fits the bound is returned as the only
  segment, unchanged and without a label (the early return of lines 117-118).
\<close>

theorem smart_chunk_text_short:
  "length full_text \<le> max_size \<Longrightarrow> smart_chunk_text full_text doc_title max_size = [full_text]"
  by (simp add: smart_chunk_text_def)

theorem smart_chunk_text_short_witness:
  "length (U ''abc'') \<le> 3 \<and> smart_chunk_text (U ''abc'') (U ''T'') 3 = [U ''abc'']"
  using smart_chunk_text_short [of "U ''abc''" 3 "U ''T''"] by simp

lemma smart_chunk_text_long:
  "max_size < length full_text \<Longrightarrow>
   smart_chunk_text full_text doc_title max_size =
     contextualize doc_title (segment_bodies max_size full_text)"
  by (simp add: smart_chunk_text_def)

lemma length_smart_chunk_text:
  "length (smart_chunk_text t title m) =
     (if length t \<le> m then 1 else length (segment_bodies m t))"
  by (simp add: smart_chunk_text_def)

lemma pack_paragraphs_blank:
  "\<forall>p \<in> set paras. strip p = [] \<Longrightarrow> pack_paragraphs m paras st = st"
  by (induction m paras st rule: pack_paragraphs.induct) auto

lemma raw_chunks_blank:
  assumes "\<forall>c \<in> set t. is_space c"
  shows "raw_chunks m t = []"
proof -
  from assms have "split_sections t = [t]"
    by (intro split_sections_no_decimal) (auto dest: space_not_decimal)
  moreover have "\<forall>p \<in> set (split_on NLNL t). strip p = []"
    using assms by (auto simp: strip_eq_Nil_iff dest: split_on_piece_set)
  ultimately show ?thesis
    by (simp add: raw_chunks_def pack_paragraphs_blank)
qed

lemma raw_chunks_eq_Nil_iff: "raw_chunks m t = [] \<longleftrightarrow> (\<forall>c \<in> set t. is_space c)"
proof
  assume "raw_chunks m t = []"
  with raw_chunks_content [of m t] have "strip_all is_space t = []" by simp
  then show "\<forall>c \<in> set t. is_space c"
    by (simp add: strip_all_def filter_empty_conv)
qed (rule raw_chunks_blank)

lemma smart_chunk_text_not_Nil:
  "\<exists>c \<in> set t. \<not> is_space c \<Longrightarrow> smart_chunk_text t title m \<noteq> []"
  by (auto simp: smart_chunk_text_def segment_bodies_def raw_chunks_eq_Nil_iff)

text \<open>
  A text without a line feed has no heading and no paragraph break: it is one chunk
  whatever its length, and the bound does not apply to it.
\<close>

lemma split_on_one_line: "NL \<notin> set t \<Longrightarrow> split_on NLNL t = [t]"
  using split_on_skip [of NLNL t "[]"] by simp

lemma raw_chunks_one_line:
  assumes "NL \<notin> set t" "strip t \<noteq> []"
  shows "raw_chunks m t = [strip t]"
proof -
  have "split_sections t = [t]"
    using split_sections_skip [of t "[]"] assms(1) by simp
  then show ?thesis
    using assms by (simp add: raw_chunks_def split_on_one_line finish_def flush_def glue_def)
qed

lemma smart_chunk_text_one_line:
  assumes "NL \<notin> set t" "strip t \<noteq> []" "m < length t"
  shows "smart_chunk_text t title m = [U ''['' @ title @ U '']'' @ NLNL @ strip t]"
  using assms
  by (simp add: smart_chunk_text_def segment_bodies_def raw_chunks_one_line contextualize_single
      part_header_def)

text \<open>
  C32 (smart_chunk_text_eq_Nil_iff). The segmenter returns no segment at all exactly
  when the text is longer than the bound and consists of whitespace only; in every
  other case it returns at least one segment.
\<close>

theorem smart_chunk_text_eq_Nil_iff:
  "smart_chunk_text full_text doc_title max_size = [] \<longleftrightarrow>
     max_size < length full_text \<and> (\<forall>c \<in> set full_text. is_space c)"
proof (cases "length full_text \<le> max_size")
  case True
  then show ?thesis by (simp add: smart_chunk_text_def)
next
  case False
  with raw_chunks_eq_Nil_iff [of max_size full_text] show ?thesis
    by (simp add: smart_chunk_text_def segment_bodies_def)
qed

theorem smart_chunk_text_eq_Nil_iff_witness:
  "smart_chunk_text (replicate 5 0x20) (U ''T'') 3 = [] \<and>
   smart_chunk_text (replicate 5 0x61) (U ''T'') 3 \<noteq> []"
  using smart_chunk_text_eq_Nil_iff [of "replicate 5 0x20" "U ''T''" 3]
    smart_chunk_text_eq_Nil_iff [of "replicate 5 0x61" "U ''T''" 3]
  by (simp add: is_space_def)

section \<open>The spec's scenario of three numbered sections\<close>

lemma heading_numbered: "is_decimal d \<Longrightarrow> heading_ahead (numbered d @ rest)"
  by (simp add: heading_ahead_def heading_tail_def numbered_def U_def is_space_def
      is_upper_ascii_def)

lemma numbered_facts:
  "d \<noteq> NL \<Longrightarrow> NL \<notin> set (numbered d)"
  "length (numbered d) = 400"
  "\<not> is_space d \<Longrightarrow> strip (numbered d) = numbered d"
  "numbered d \<noteq> []"
proof -
  show "d \<noteq> NL \<Longrightarrow> NL \<notin> set (numbered d)" by (auto simp: numbered_def U_def)
  show "length (numbered d) = 400" by (simp add: numbered_def)
  show "\<not> is_space d \<Longrightarrow> strip (numbered d) = numbered d"
    by (rule strip_id) (simp_all add: numbered_def not_space_a)
  show "numbered d \<noteq> []" by (simp add: numbered_def)
qed

lemma three_split:
  "split_sections three_sections = [numbered 0x31, numbered 0x32, numbered 0x33]"
proof -
  have d: "is_decimal 0x32" "is_decimal 0x33" by (simp_all add: is_decimal_ascii)
  have 3: "split_sections (numbered 0x33) = [numbered 0x33]"
    using split_sections_skip [of "numbered 0x33" "[]"] by (simp add: numbered_facts)
  have 2: "split_sections (numbered 0x32 @ [NL] @ numbered 0x33) = [numbered 0x32, numbered 0x33]"
    using split_sections_skip [of "numbered 0x32" "[NL] @ numbered 0x33"]
      heading_numbered [OF d(2), of "[]"]
    by (simp add: numbered_facts 3)
  show ?thesis
    unfolding three_sections_def
    using split_sections_skip [of "numbered 0x31" "[NL] @ numbered 0x32 @ [NL] @ numbered 0x33"]
      heading_numbered [OF d(1), of "[NL] @ numbered 0x33"] 2
    by (simp add: numbered_facts)
qed

text \<open>
  The spec's scenario of three numbered sections of 400
  code points with a bound of 1000: the structural strategy runs, the first two
  sections leave as one segment (802 code points with the blank line between them),
  the third as a second segment, and they are labelled Part 1/2 and Part 2/2.
\<close>

theorem scenario_three_sections:
  "smart_chunk_text three_sections title 1000 =
     [part_header title 0 2 @ NLNL @ numbered 0x31 @ NLNL @ numbered 0x32,
      part_header title 1 2 @ NLNL @ numbered 0x33]"
proof -
  have sp: "\<not> is_space 0x31" "\<not> is_space 0x32" "\<not> is_space 0x33"
    by (simp_all add: is_space_def)
  have len: "length three_sections = 1202"
    by (simp add: three_sections_def numbered_facts)
  have "segment_bodies 1000 three_sections =
      [numbered 0x31 @ NLNL @ numbered 0x32, numbered 0x33]"
    by (simp add: segment_bodies_def raw_chunks_def three_split numbered_facts sp length_glue
        glue_def flush_def CHUNK_MIN_def)
  then show ?thesis
    by (simp add: smart_chunk_text_def len contextualize_pair)
qed

section \<open>An undersized first segment\<close>

text \<open>
  A short paragraph followed by a paragraph that does not fit beside it leaves as a first
  segment below the minimum, although it is not the only segment: the merge pass has
  nothing before it to merge it into.
\<close>

lemma leading_short_segment:
  "map length (segment_bodies 310 short_then_long) = [20, 300]"
proof -
  have "set short_then_long \<subseteq> {NL, 0x61}"
    by (auto simp: short_then_long_def)
  then have "\<forall>c \<in> set short_then_long. \<not> is_decimal c"
    by (auto simp: is_decimal_ascii)
  then have sec: "split_sections short_then_long = [short_then_long]"
    by (rule split_sections_no_decimal)
  have par: "split_on NLNL short_then_long = [replicate 20 0x61, replicate 300 0x61]"
    unfolding short_then_long_def by (rule split_on_join) simp_all
  have st: "strip (replicate 20 0x61) = replicate 20 0x61"
    "strip (replicate 300 0x61) = replicate 300 0x61"
    by (rule strip_id; simp add: not_space_a)+
  show ?thesis
    by (simp add: segment_bodies_def raw_chunks_def sec par st flush_def CHUNK_MIN_def)
qed

end
