(* ===== verification/Py_Regex.thy ===== *)
theory Py_Regex
  imports Py_String
begin

text \<open>
  The regular expressions of Python's \<^verbatim>\<open>re\<close> module that the collector uses, and the
  operations \<^verbatim>\<open>re.sub\<close> and \<^verbatim>\<open>re.split\<close>.

  \<^verbatim>\<open>re\<close> is a backtracking matcher: an alternative tries its left branch first, a greedy
  repetition tries one more iteration before it tries to stop, a lazy one the other way
  round, and the first way that succeeds is the match. \<open>ends n r s\<close> lists, in that order,
  what is left of \<open>s\<close> after each way in which \<open>r\<close> matches a prefix of it; the match
  \<^verbatim>\<open>re\<close> finds is the first element. \<open>n\<close> is the length of the whole text, which
  \<^verbatim>\<open>^\<close> needs. An iteration of a repetition that consumes nothing is not continued.

  \<open>scan\<close> is the loop that \<^verbatim>\<open>re.sub\<close> and \<^verbatim>\<open>re.split\<close> share: it walks the text from
  the left, takes the first match at the earliest position, and goes on behind it; after
  an empty match the next match at the same position has to be non-empty (\<open>adv\<close>). It
  returns the matches, each with the text between it and the one before, and the rest.

  The operations are modelled for patterns without capturing groups in the result: the
  replacement is a function of the matched text.
\<close>

section \<open>Patterns\<close>

datatype re =
    REps
  | RCls "codepoint \<Rightarrow> bool"
  | RSeq re re
  | RAlt re re
  | RStar re
  | RLazy re
  | RLook re
  | RBol
  | REol

definition RChr :: "codepoint \<Rightarrow> re" where
  "RChr c = RCls (\<lambda>x. x = c)"

definition RLit :: "ustring \<Rightarrow> re" where
  "RLit w = foldr (\<lambda>c r. RSeq (RChr c) r) w REps"

definition RPlus :: "re \<Rightarrow> re" where
  "RPlus a = RSeq a (RStar a)"

definition ROpt :: "re \<Rightarrow> re" where
  "ROpt a = RAlt a REps"

definition RAny :: re where
  "RAny = RCls (\<lambda>x. True)"

definition RDot :: re where
  "RDot = RCls (\<lambda>x. x \<noteq> NL)"

section \<open>Matching\<close>

function ends :: "nat \<Rightarrow> re \<Rightarrow> ustring \<Rightarrow> ustring list" where
  "ends n REps s = [s]"
| "ends n (RCls P) s = (case s of [] \<Rightarrow> [] | c # cs \<Rightarrow> if P c then [cs] else [])"
| "ends n (RSeq a b) s =
     concat (map (\<lambda>s'. if length s' \<le> length s then ends n b s' else []) (ends n a s))"
| "ends n (RAlt a b) s = ends n a s @ ends n b s"
| "ends n (RStar a) s =
     concat (map (\<lambda>s'. if length s' < length s then ends n (RStar a) s' else []) (ends n a s))
     @ [s]"
| "ends n (RLazy a) s =
     s # concat (map (\<lambda>s'. if length s' < length s then ends n (RLazy a) s' else [])
                  (ends n a s))"
| "ends n (RLook a) s = (if ends n a s = [] then [] else [s])"
| "ends n RBol s = (if length s = n then [s] else [])"
| "ends n REol s = (if s = [] \<or> s = [NL] then [s] else [])"
  by pat_completeness auto
termination
  by (relation "measures [\<lambda>(n, r, s). length s, \<lambda>(n, r, s). size r]") auto

declare ends.simps [simp del]

section \<open>\<^verbatim>\<open>re.sub\<close> and \<^verbatim>\<open>re.split\<close>\<close>

definition first_end :: "bool \<Rightarrow> ustring list \<Rightarrow> ustring \<Rightarrow> ustring option" where
  "first_end adv es s =
     find (\<lambda>s'. length s' < length s \<or> (\<not> adv \<and> length s' = length s)) es"

function scan ::
  "nat \<Rightarrow> re \<Rightarrow> ustring \<Rightarrow> bool \<Rightarrow> ustring \<Rightarrow> (ustring \<times> ustring) list \<times> ustring" where
  "scan n r gap adv s =
     (case first_end adv (ends n r s) s of
        Some s' \<Rightarrow>
          (case scan n r [] (length s' = length s) s' of
             (ms, tail) \<Rightarrow> ((gap, take (length s - length s') s) # ms, tail))
      | None \<Rightarrow>
          (case s of
             [] \<Rightarrow> ([], gap)
           | c # cs \<Rightarrow> scan n r (gap @ [c]) False cs))"
  by pat_completeness auto
termination
  by (relation "measures [\<lambda>(n, r, gap, adv, s). length s,
                          \<lambda>(n, r, gap, adv, s). if adv then 0 else 1]")
     (auto simp: first_end_def find_Some_iff)

declare scan.simps [simp del]

definition re_sub :: "re \<Rightarrow> (ustring \<Rightarrow> ustring) \<Rightarrow> ustring \<Rightarrow> ustring" where
  "re_sub r repl s =
     (case scan (length s) r [] False s of
        (ms, tail) \<Rightarrow> concat (map (\<lambda>(gap, m). gap @ repl m) ms) @ tail)"

text \<open>
  The reference for a pattern that never matches the empty text and whose first match
  at a position is given by a function \<open>fm\<close>: replace the first match, go on behind it.
\<close>

function sub_by :: "(ustring \<Rightarrow> ustring option) \<Rightarrow> (ustring \<Rightarrow> ustring) \<Rightarrow> ustring \<Rightarrow> ustring" where
  "sub_by fm repl [] = []"
| "sub_by fm repl (c # cs) =
     (case fm (c # cs) of
        None \<Rightarrow> c # sub_by fm repl cs
      | Some s' \<Rightarrow>
          if length s' \<le> length cs
          then repl (take (Suc (length cs) - length s') (c # cs)) @ sub_by fm repl s'
          else c # sub_by fm repl cs)"
  by pat_completeness auto
termination
  by (relation "measure (\<lambda>(fm, repl, s). length s)") auto

function split_by :: "(ustring \<Rightarrow> ustring option) \<Rightarrow> ustring \<Rightarrow> ustring list" where
  "split_by fm [] = [[]]"
| "split_by fm (c # cs) =
     (case fm (c # cs) of
        None \<Rightarrow> map_hd ((#) c) (split_by fm cs)
      | Some s' \<Rightarrow>
          if length s' \<le> length cs then [] # split_by fm s'
          else map_hd ((#) c) (split_by fm cs))"
  by pat_completeness auto
termination
  by (relation "measure (\<lambda>(fm, s). length s)") auto

definition re_split :: "re \<Rightarrow> ustring \<Rightarrow> ustring list" where
  "re_split r s =
     (case scan (length s) r [] False s of (ms, tail) \<Rightarrow> map fst ms @ [tail])"

text \<open>\<open>first_in P r\<close>: every match of \<open>r\<close> starts with a code point of the class \<open>P\<close>.\<close>

definition first_in :: "(codepoint \<Rightarrow> bool) \<Rightarrow> re \<Rightarrow> bool" where
  "first_in P r \<longleftrightarrow> (\<forall>n s. ends n r s \<noteq> [] \<longrightarrow> s \<noteq> [] \<and> P (hd s))"

section \<open>What a match leaves\<close>


lemmas ends_base [simp] = ends.simps(1,2,4,7,8,9)

lemma ends_suffix: "s' \<in> set (ends n r s) \<Longrightarrow> suffix s' s"
proof (induction n r s arbitrary: s' rule: ends.induct)
  case (2 n P s)
  then show ?case by (cases s) (auto split: if_splits simp: suffix_Cons)
next
  case (3 n a b s)
  from "3.prems" obtain s1 where s1: "s1 \<in> set (ends n a s)" "length s1 \<le> length s"
    "s' \<in> set (ends n b s1)"
    by (subst (asm) ends.simps) (auto split: if_splits)
  from "3.IH"(1) [OF s1(1)] "3.IH"(2) [OF s1(1,2,3)] show ?case
    by (rule suffix_order.trans [rotated])
next
  case (5 n a s)
  show ?case
  proof (cases "s' = s")
    case False
    with "5.prems" obtain s1 where s1: "s1 \<in> set (ends n a s)" "length s1 < length s"
      "s' \<in> set (ends n (RStar a) s1)"
      by (subst (asm) ends.simps) (auto split: if_splits)
    from "5.IH"(1) [OF s1(1)] "5.IH"(2) [OF s1(1,2,3)] show ?thesis
      by (rule suffix_order.trans [rotated])
  qed simp
next
  case (6 n a s)
  show ?case
  proof (cases "s' = s")
    case False
    with "6.prems" obtain s1 where s1: "s1 \<in> set (ends n a s)" "length s1 < length s"
      "s' \<in> set (ends n (RLazy a) s1)"
      by (subst (asm) ends.simps) (auto split: if_splits)
    from "6.IH"(1) [OF s1(1)] "6.IH"(2) [OF s1(1,2,3)] show ?thesis
      by (rule suffix_order.trans [rotated])
  qed simp
qed (auto split: if_splits)

lemma ends_length: "s' \<in> set (ends n r s) \<Longrightarrow> length s' \<le> length s"
  by (drule ends_suffix) (rule suffix_length_le)

lemma suffix_same_length: "suffix s' s \<Longrightarrow> length s' = length s \<longleftrightarrow> s' = s"
  by (auto simp: suffix_def)

lemma ends_shorter: "s' \<in> set (ends n r s) \<Longrightarrow> length s' < length s \<longleftrightarrow> s' \<noteq> s"
  using ends_suffix [of s' n r s] suffix_same_length [of s' s] suffix_length_le [of s' s]
  by auto

lemma ends_RSeq [simp]: "ends n (RSeq a b) s = concat (map (ends n b) (ends n a s))"
proof -
  have "map (\<lambda>s'. if length s' \<le> length s then ends n b s' else []) (ends n a s) =
        map (ends n b) (ends n a s)"
    by (rule map_cong) (simp_all add: ends_length)
  then show ?thesis unfolding ends.simps(3) by (rule arg_cong)
qed

lemma guard_filter:
  "concat (map (\<lambda>s'. if length s' < length s then f s' else []) (ends n a s)) =
     concat (map f (filter (\<lambda>s'. s' \<noteq> s) (ends n a s)))"
proof -
  have "concat (map (\<lambda>s'. if length s' < length s then f s' else []) es) =
        concat (map f (filter (\<lambda>s'. s' \<noteq> s) es))"
    if "set es \<subseteq> set (ends n a s)" for es
    using that by (induction es) (auto simp: ends_shorter)
  then show ?thesis by simp
qed

lemma ends_RStar:
  "ends n (RStar a) s =
     concat (map (ends n (RStar a)) (filter (\<lambda>s'. s' \<noteq> s) (ends n a s))) @ [s]"
  by (subst ends.simps(5)) (simp add: guard_filter)

lemma ends_RLazy:
  "ends n (RLazy a) s =
     s # concat (map (ends n (RLazy a)) (filter (\<lambda>s'. s' \<noteq> s) (ends n a s)))"
  by (subst ends.simps(6)) (simp add: guard_filter)

lemma ends_RChr [simp]:
  "ends n (RChr c) s = (case s of [] \<Rightarrow> [] | x # xs \<Rightarrow> if x = c then [xs] else [])"
  by (simp add: RChr_def)

lemma ends_RLit [simp]: "ends n (RLit w) s = (if prefix w s then [drop (length w) s] else [])"
proof (induction w arbitrary: s)
  case (Cons c w)
  have "RLit (c # w) = RSeq (RChr c) (RLit w)" by (simp add: RLit_def)
  with Cons show ?case by (cases s) auto
qed (simp add: RLit_def)

lemma ends_RStar_RCls:
  "ends n (RStar (RCls P)) s =
     (case s of [] \<Rightarrow> [[]] | c # cs \<Rightarrow> if P c then ends n (RStar (RCls P)) cs @ [s] else [s])"
  by (subst ends_RStar) (auto split: list.splits)

lemma ends_RLazy_RCls:
  "ends n (RLazy (RCls P)) s =
     (case s of [] \<Rightarrow> [[]] | c # cs \<Rightarrow> if P c then s # ends n (RLazy (RCls P)) cs else [s])"
  by (subst ends_RLazy) (auto split: list.splits)

lemma ends_RStar_not_Nil [simp]: "ends n (RStar a) s \<noteq> []"
  by (subst ends_RStar) simp

lemma hd_ends_RStar_RCls: "hd (ends n (RStar (RCls P)) s) = dropWhile P s"
proof (induction s)
  case (Cons c cs)
  then show ?case
    by (subst ends_RStar_RCls) simp
qed (simp add: ends_RStar_RCls)

section \<open>The scanning loop\<close>

lemma find_SomeD: "find P xs = Some x \<Longrightarrow> P x \<and> x \<in> set xs"
  by (induction xs) (auto split: if_splits)

lemma first_end_Some:
  assumes "first_end adv (ends n r s) s = Some s'"
  shows "suffix s' s \<and> s' \<in> set (ends n r s) \<and> (adv \<longrightarrow> s' \<noteq> s)"
  using find_SomeD [OF assms [unfolded first_end_def]] by (auto simp: ends_suffix)

lemma scan_match:
  "first_end adv (ends n r s) s = Some s' \<Longrightarrow>
   scan n r gap adv s =
     ((gap, take (length s - length s') s) # fst (scan n r [] (s' = s) s'),
      snd (scan n r [] (s' = s) s'))"
  using first_end_Some [of adv n r s s'] suffix_same_length [of s' s]
  by (subst scan.simps) (simp add: case_prod_unfold)

lemma scan_skip:
  "first_end adv (ends n r (c # cs)) (c # cs) = None \<Longrightarrow>
   scan n r gap adv (c # cs) = scan n r (gap @ [c]) False cs"
  by (subst scan.simps) simp

lemma scan_end:
  "first_end adv (ends n r []) [] = None \<Longrightarrow> scan n r gap adv [] = ([], gap)"
  by (subst scan.simps) simp

lemma suffix_take_append: "suffix s' s \<Longrightarrow> take (length s - length s') s @ s' = s"
  by (auto simp: suffix_def)

lemma scan_glue:
  "concat (map (\<lambda>(g, m). g @ m) (fst (scan n r gap adv s))) @ snd (scan n r gap adv s) = gap @ s"
proof (induction n r gap adv s rule: scan.induct)
  case (1 n r gap adv s)
  show ?case
  proof (cases "first_end adv (ends n r s) s")
    case None
    show ?thesis
    proof (cases s)
      case Nil
      with None show ?thesis by (simp add: scan_end)
    next
      case (Cons c cs)
      with None "1.IH"(1) [OF None Cons] show ?thesis by (simp add: scan_skip)
    qed
  next
    case (Some s')
    then have "suffix s' s" by (simp add: first_end_Some)
    with "1.IH"(2) [OF Some] Some show ?thesis
      by (simp add: scan_match suffix_take_append suffix_same_length)
  qed
qed

lemma re_sub_id: "re_sub r (\<lambda>m. m) s = s"
  using scan_glue [of "length s" r "[]" False s]
  by (simp add: re_sub_def case_prod_unfold)

section \<open>Patterns that never match the empty text\<close>


lemma first_end_hd:
  "(\<And>e. e \<in> set es \<Longrightarrow> length e < length s) \<Longrightarrow>
   first_end adv es s = (case es of [] \<Rightarrow> None | e # _ \<Rightarrow> Some e)"
  by (cases es) (simp_all add: first_end_def)

lemma scan_sub_by:
  assumes fm: "\<And>adv s. first_end adv (ends n r s) s = fm s"
    and short: "\<And>s s'. fm s = Some s' \<Longrightarrow> length s' < length s"
  shows "concat (map (\<lambda>(g, m). g @ repl m) (fst (scan n r gap adv s))) @ snd (scan n r gap adv s) =
         gap @ sub_by fm repl s"
  using assms
proof (induction n r gap adv s rule: scan.induct)
  case (1 n r gap adv s)
  note fm = "1.prems"(1) and short = "1.prems"(2)
  show ?case
  proof (cases "fm s")
    case None
    then have none: "first_end adv (ends n r s) s = None" by (simp add: fm)
    show ?thesis
    proof (cases s)
      case Nil
      with none show ?thesis by (simp add: scan_end)
    next
      case (Cons c cs)
      with none None "1.IH"(1) [OF none Cons "1.prems"] show ?thesis by (simp add: scan_skip)
    qed
  next
    case (Some s')
    then have some: "first_end adv (ends n r s) s = Some s'" by (simp add: fm)
    from short [OF Some] have len: "length s' < length s" .
    then obtain c cs where s: "s = c # cs" by (cases s) auto
    from len have ne: "s' \<noteq> s" by auto
    have "scan n r gap adv s =
        ((gap, take (length s - length s') s) # fst (scan n r [] False s'),
         snd (scan n r [] False s'))"
      using scan_match [OF some] ne by simp
    moreover have "sub_by fm repl s =
        repl (take (length s - length s') s) @ sub_by fm repl s'"
      using Some len by (simp add: s)
    moreover have "concat (map (\<lambda>(g, m). g @ repl m) (fst (scan n r [] False s'))) @
        snd (scan n r [] False s') = sub_by fm repl s'"
      using "1.IH"(2) [OF some "1.prems"] len by simp
    ultimately show ?thesis by simp
  qed
qed

lemma re_sub_sub_by:
  assumes "\<And>adv t. first_end adv (ends (length s) r t) t = fm t"
    and "\<And>t t'. fm t = Some t' \<Longrightarrow> length t' < length t"
  shows "re_sub r repl s = sub_by fm repl s"
  using scan_sub_by [of "length s" r fm repl "[]" False s, OF assms]
  by (simp add: re_sub_def case_prod_unfold)


lemma split_by_not_Nil [simp]: "split_by fm s \<noteq> []"
  by (induction fm s rule: split_by.induct) (auto split: option.splits)

lemma scan_split_by:
  assumes "\<And>adv s. first_end adv (ends n r s) s = fm s"
    and "\<And>s s'. fm s = Some s' \<Longrightarrow> length s' < length s"
  shows "map fst (fst (scan n r gap adv s)) @ [snd (scan n r gap adv s)] =
         map_hd ((@) gap) (split_by fm s)"
  using assms
proof (induction n r gap adv s rule: scan.induct)
  case (1 n r gap adv s)
  note fm = "1.prems"(1) and short = "1.prems"(2)
  show ?case
  proof (cases "fm s")
    case None
    then have none: "first_end adv (ends n r s) s = None" by (simp add: fm)
    show ?thesis
    proof (cases s)
      case Nil
      with none show ?thesis by (simp add: scan_end)
    next
      case (Cons c cs)
      with none None "1.IH"(1) [OF none Cons "1.prems"] show ?thesis
        by (simp add: scan_skip map_hd_map_hd)
    qed
  next
    case (Some s')
    then have some: "first_end adv (ends n r s) s = Some s'" by (simp add: fm)
    from short [OF Some] have len: "length s' < length s" .
    then obtain c cs where s: "s = c # cs" by (cases s) auto
    from len have ne: "s' \<noteq> s" by auto
    have "scan n r gap adv s =
        ((gap, take (length s - length s') s) # fst (scan n r [] False s'),
         snd (scan n r [] False s'))"
      using scan_match [OF some] ne by simp
    moreover have "split_by fm s = [] # split_by fm s'"
      using Some len by (simp add: s)
    moreover have "map fst (fst (scan n r [] False s')) @ [snd (scan n r [] False s')] =
        split_by fm s'"
      using "1.IH"(2) [OF some "1.prems"] len by simp
    ultimately show ?thesis by simp
  qed
qed

lemma re_split_split_by:
  assumes "\<And>adv t. first_end adv (ends (length s) r t) t = fm t"
    and "\<And>t t'. fm t = Some t' \<Longrightarrow> length t' < length t"
  shows "re_split r s = split_by fm s"
  using scan_split_by [of "length s" r fm "[]" False s, OF assms]
  by (simp add: re_split_def case_prod_unfold)

lemma ends_star_cls_then:
  assumes "\<And>t. t \<noteq> [] \<Longrightarrow> P (hd t) \<Longrightarrow> ends n r t = []"
  shows "ends n (RSeq (RStar (RCls P)) r) s = ends n r (dropWhile P s)"
proof (induction s)
  case Nil
  show ?case by (simp add: ends_RStar_RCls)
next
  case (Cons c cs)
  then show ?case
    using assms [of "c # cs"] by (simp add: ends_RStar_RCls [of n P "c # cs"])
qed

lemma ends_RPlus [simp]: "ends n (RPlus a) s = concat (map (ends n (RStar a)) (ends n a s))"
  by (simp add: RPlus_def)

lemma ends_ROpt [simp]: "ends n (ROpt a) s = ends n a s @ [s]"
  by (simp add: ROpt_def)

lemma ends_plus_cls_then:
  assumes "\<And>t. t \<noteq> [] \<Longrightarrow> P (hd t) \<Longrightarrow> ends n r t = []"
  shows "ends n (RSeq (RPlus (RCls P)) r) s =
     (case s of [] \<Rightarrow> [] | c # cs \<Rightarrow> if P c then ends n r (dropWhile P cs) else [])"
  using ends_star_cls_then [of P n r, OF assms]
  by (cases s) (simp_all add: RPlus_def)

lemma ends_RChr_then:
  "ends n (RSeq (RChr c) r) s = (case s of [] \<Rightarrow> [] | x # xs \<Rightarrow> if x = c then ends n r xs else [])"
  by (simp split: list.splits)

lemma ends_RCls_then:
  "ends n (RSeq (RCls P) r) s = (case s of [] \<Rightarrow> [] | x # xs \<Rightarrow> if P x then ends n r xs else [])"
  by (simp split: list.splits)

lemma ends_ROpt_then: "ends n (RSeq (ROpt a) r) s = ends n (RSeq a r) s @ ends n r s"
  by simp

lemmas ends_then = ends_RChr_then ends_RCls_then ends_ROpt_then

section \<open>Texts without a match\<close>

text \<open>
  Where a pattern matches at no position of a text, \<^verbatim>\<open>re.sub\<close> returns the text and
  \<^verbatim>\<open>re.split\<close> the text alone. A pattern that starts with a class matches at no
  position of a text without a code point of the class (\<open>first_in\<close>).
\<close>

lemma scan_no_match:
  "(\<And>t. suffix t s \<Longrightarrow> ends n r t = []) \<Longrightarrow> scan n r gap adv s = ([], gap @ s)"
proof (induction s arbitrary: gap adv)
  case Nil
  then show ?case by (simp add: scan_end first_end_def)
next
  case (Cons c cs)
  have "scan n r (gap @ [c]) False cs = ([], (gap @ [c]) @ cs)"
    by (rule Cons.IH) (simp add: Cons.prems suffix_ConsI)
  moreover have "ends n r (c # cs) = []" by (simp add: Cons.prems)
  ultimately show ?case by (simp add: scan_skip first_end_def)
qed

lemma re_sub_no_match:
  "(\<And>t. suffix t s \<Longrightarrow> ends (length s) r t = []) \<Longrightarrow> re_sub r repl s = s"
  by (simp add: re_sub_def scan_no_match)

lemma re_split_no_match:
  "(\<And>t. suffix t s \<Longrightarrow> ends (length s) r t = []) \<Longrightarrow> re_split r s = [s]"
  by (simp add: re_split_def scan_no_match)

lemma first_in_RSeq: "first_in P a \<Longrightarrow> first_in P (RSeq a b)"
  unfolding first_in_def by (metis ends_RSeq concat.simps(1) list.simps(8))

lemma first_in_RPlus: "first_in P a \<Longrightarrow> first_in P (RPlus a)"
  unfolding RPlus_def by (rule first_in_RSeq)

lemma first_in_RCls: "(\<And>c. Q c \<Longrightarrow> P c) \<Longrightarrow> first_in P (RCls Q)"
  by (auto simp: first_in_def split: list.splits if_splits)

lemma first_in_RChr: "P c \<Longrightarrow> first_in P (RChr c)"
  by (auto simp: first_in_def split: list.splits if_splits)

lemma first_in_RLit: "P c \<Longrightarrow> first_in P (RLit (c # w))"
  by (auto simp: first_in_def prefix_def)

lemmas first_in_intros = first_in_RSeq first_in_RPlus first_in_RCls first_in_RChr first_in_RLit

lemma suffix_hd_in_set: "suffix t s \<Longrightarrow> t \<noteq> [] \<Longrightarrow> hd t \<in> set s"
  by (auto simp: suffix_def)

lemma re_sub_absent:
  assumes "first_in P r" and "\<And>c. c \<in> set s \<Longrightarrow> \<not> P c"
  shows "re_sub r repl s = s"
proof (rule re_sub_no_match)
  fix t
  assume "suffix t s"
  with assms show "ends (length s) r t = []"
    using suffix_hd_in_set [of t s] by (auto simp: first_in_def)
qed

end
