(* ===== verification/Metadata.thy ===== *)
theory Metadata
  imports Py_String
begin

text \<open>
  The Metadata Builder: what \<^verbatim>\<open>create_bilingual_chunks\<close> derives once from a document
  before it expands the segments (lines 375-398 of \<^verbatim>\<open>src/auto_collect_upload.py\<close>), and
  \<^verbatim>\<open>build_official_url\<close> (lines 359-367).

  The two dictionaries of the source are association lists in the order the source
  writes their entries, which is the order a Python \<^verbatim>\<open>dict\<close> iterates in; their keys
  are distinct (\<open>distinct_type_labels\<close>, \<open>distinct_kw_map\<close>), so that \<open>map_of\<close>
  is \<^verbatim>\<open>dict.get\<close>. The keyword loop is \<open>detect\<close>, a recursion over the entries with
  the list of tags found so far.

  The lemmas show that the keyword list is the first \<open>6\<close> of the default tag followed
  by the first occurrences of the tags whose phrase occurs in the lowered text
  (\<open>detect_keywords_first_seen\<close>), that it is distinct, starts with the default tag and
  names only tags of the vocabulary, and which tag each phrase yields.
\<close>

section \<open>Literals\<close>

definition ZH_CIRCULAR :: ustring where [lit_defs]: "ZH_CIRCULAR = [0x901A, 0x51FD]"
definition ZH_ENFORCEMENT :: ustring where [lit_defs]: "ZH_ENFORCEMENT = [0x57F7, 0x6CD5, 0x884C, 0x52D5]"
definition ZH_CONSULTATION :: ustring where [lit_defs]: "ZH_CONSULTATION = [0x8AEE, 0x8A62, 0x6587, 0x4EF6]"
definition ZH_VATP :: ustring where [lit_defs]: "ZH_VATP = [0x865B, 0x64EC, 0x8CC7, 0x7522]"
definition ZH_PRESS :: ustring where [lit_defs]: "ZH_PRESS = [0x65B0, 0x805E, 0x7A3F]"
definition ZH_SUMMARY :: ustring where [lit_defs]: "ZH_SUMMARY = [0x57F7, 0x6CD5, 0x6458, 0x8981]"
definition ZH_UPDATE :: ustring where [lit_defs]: "ZH_UPDATE = [0x52D5, 0x614B]"

section \<open>\<^verbatim>\<open>build_official_url\<close> (lines 359-367)\<close>

definition build_official_url :: "ustring \<Rightarrow> ustring \<Rightarrow> ustring" where
  "build_official_url ref doc_type =
     (if doc_type \<in> set [U ''circular'']
      then U ''https://apps.sfc.hk/edistributionWeb/gateway/EN/circular/doc?refNo='' @ ref
      else if doc_type \<in> set [U ''enforcement'', U ''vatp'', U ''press_release'']
      then U ''https://apps.sfc.hk/edistributionWeb/gateway/EN/news-and-announcements/news/doc?refNo='' @ ref
      else if doc_type \<in> set [U ''consultation'', U ''consultation_conclusion'']
      then U ''https://apps.sfc.hk/edistributionWeb/gateway/EN/consultation/doc?refNo='' @ ref
      else U ''https://www.sfc.hk/en/'')"

section \<open>Source-type labels (lines 377-385)\<close>

definition type_labels :: "(ustring \<times> ustring \<times> ustring) list" where
  "type_labels =
     [(U ''circular'', U ''Circular'', ZH_CIRCULAR),
      (U ''enforcement'', U ''Enforcement'', ZH_ENFORCEMENT),
      (U ''consultation'', U ''Consultation'', ZH_CONSULTATION),
      (U ''vatp'', U ''Virtual Asset'', ZH_VATP),
      (U ''press_release'', U ''Press Release'', ZH_PRESS),
      (U ''enforcement_summary'', U ''Enforcement Summary'', ZH_SUMMARY)]"

definition labels_of :: "ustring \<Rightarrow> ustring \<times> ustring" where
  "labels_of doc_type =
     (case map_of type_labels doc_type of
        Some l \<Rightarrow> l
      | None \<Rightarrow> (U ''Update'', ZH_UPDATE))"

section \<open>Keywords (lines 388-398)\<close>

definition kw_map :: "(ustring \<times> ustring) list" where
  "kw_map =
     [(U ''virtual asset'', U ''VATP''), (U ''vatp'', U ''VATP''), (U ''aml'', U ''AML''),
      (U ''aspire'', U ''ASPIRe''), (U ''sponsor'', U ''Sponsor''), (U ''ipo'', U ''IPO''),
      (U ''type 1'', U ''Type1''), (U ''type 9'', U ''Type9''),
      (U ''stablecoin'', U ''Stablecoin''), (U ''staking'', U ''Staking''),
      (U ''enforcement'', U ''Enforcement''), (U ''consultation'', U ''Consultation''),
      (U ''circular'', U ''Circular'')]"

definition combined_text :: "ustring list \<Rightarrow> ustring" where
  "combined_text text_chunks = lower (join (U '' '') text_chunks)"

fun detect :: "(ustring \<times> ustring) list \<Rightarrow> ustring \<Rightarrow> ustring list \<Rightarrow> ustring list" where
  "detect [] combined keywords = keywords"
| "detect ((kw, tag) # rest) combined keywords =
     detect rest combined
       (if py_in kw combined \<and> tag \<notin> set keywords then keywords @ [tag] else keywords)"

definition detect_keywords :: "ustring list \<Rightarrow> ustring list" where
  "detect_keywords text_chunks =
     take 6 (detect kw_map (combined_text text_chunks) [U ''SFC''])"

section \<open>The metadata record (lines 402-412, 421)\<close>

text \<open>
  The dictionary \<^verbatim>\<open>base_meta\<close> and its extension by the language,
  \<^verbatim>\<open>{**base_meta, "language": ...}\<close>: the fields are the keys of the source.
\<close>

record base_metadata =
  m_source :: ustring
  m_source_url :: ustring
  m_doc_type :: ustring
  m_category :: ustring
  m_ref_no :: ustring
  m_source_table :: ustring
  m_keywords :: "ustring list"
  m_collected_date :: ustring
  m_content_type :: ustring

record metadata = base_metadata +
  m_language :: ustring

section \<open>Specification vocabulary\<close>

text \<open>The tags whose phrase occurs in a text, one per entry of the vocabulary, in its order.\<close>

definition found_tags :: "(ustring \<times> ustring) list \<Rightarrow> ustring \<Rightarrow> ustring list" where
  "found_tags m combined = map snd (filter (\<lambda>(kw, tag). py_in kw combined) m)"

section \<open>Labels and links\<close>

lemma distinct_type_labels: "distinct (map fst type_labels)"
  by (simp add: type_labels_def)

lemma labels_of_known:
  "labels_of (U ''circular'') = (U ''Circular'', ZH_CIRCULAR)"
  "labels_of (U ''enforcement'') = (U ''Enforcement'', ZH_ENFORCEMENT)"
  "labels_of (U ''consultation'') = (U ''Consultation'', ZH_CONSULTATION)"
  "labels_of (U ''vatp'') = (U ''Virtual Asset'', ZH_VATP)"
  "labels_of (U ''press_release'') = (U ''Press Release'', ZH_PRESS)"
  "labels_of (U ''enforcement_summary'') = (U ''Enforcement Summary'', ZH_SUMMARY)"
  by (simp_all add: labels_of_def type_labels_def)

lemma labels_of_unknown:
  "doc_type \<notin> fst ` set type_labels \<Longrightarrow> labels_of doc_type = (U ''Update'', ZH_UPDATE)"
  by (simp add: labels_of_def map_of_eq_None_iff [THEN iffD2])

lemma labels_of_cases:
  "labels_of doc_type \<in> snd ` set type_labels \<union> {(U ''Update'', ZH_UPDATE)}"
  by (auto simp: labels_of_def split: option.splits dest!: map_of_SomeD intro: rev_image_eqI)

lemma build_official_url_default:
  "doc_type \<notin> set [U ''circular'', U ''enforcement'', U ''vatp'', U ''press_release'',
       U ''consultation'', U ''consultation_conclusion'']
   \<Longrightarrow> build_official_url ref doc_type = U ''https://www.sfc.hk/en/''"
  by (simp add: build_official_url_def)

lemma build_official_url_inject:
  "doc_type \<in> set [U ''circular'', U ''enforcement'', U ''vatp'', U ''press_release'',
       U ''consultation'', U ''consultation_conclusion'']
   \<Longrightarrow> build_official_url ref doc_type = build_official_url ref' doc_type \<longleftrightarrow> ref = ref'"
  by (auto simp: build_official_url_def)

section \<open>The keyword loop\<close>

lemma distinct_kw_map: "distinct (map fst kw_map)"
  by (simp add: kw_map_def)

lemma found_tags_Nil [simp]: "found_tags [] c = []"
  by (simp add: found_tags_def)

lemma found_tags_Cons [simp]:
  "found_tags ((kw, tag) # m) c = (if py_in kw c then tag # found_tags m c else found_tags m c)"
  by (simp add: found_tags_def)

lemma set_found_tags: "set (found_tags m c) = {tag. \<exists>kw. (kw, tag) \<in> set m \<and> py_in kw c}"
  by (auto simp: found_tags_def image_iff)

lemma found_tags_subset: "set (found_tags m c) \<subseteq> snd ` set m"
  by (auto simp: found_tags_def)

lemma detect_first_seen:
  "detect m c kws = kws @ first_seen (filter (\<lambda>t. t \<notin> set kws) (found_tags m c))"
proof (induction m arbitrary: kws)
  case (Cons e m)
  obtain kw tag where e: "e = (kw, tag)" by (cases e)
  have "filter (\<lambda>y. y \<noteq> tag) (filter (\<lambda>t. t \<notin> set kws) (found_tags m c)) =
        filter (\<lambda>t. t \<notin> set (kws @ [tag])) (found_tags m c)"
    by (auto intro: filter_cong)
  with Cons show ?case by (simp add: e)
qed simp

lemma detect_prefix: "prefix kws (detect m c kws)"
  by (simp add: detect_first_seen)

lemma distinct_detect: "distinct kws \<Longrightarrow> distinct (detect m c kws)"
  by (auto simp: detect_first_seen)

lemma set_detect:
  "set (detect m c kws) = set kws \<union> {tag. \<exists>kw. (kw, tag) \<in> set m \<and> py_in kw c}"
  by (auto simp: detect_first_seen set_found_tags)

lemma SFC_not_tag: "U ''SFC'' \<notin> snd ` set kw_map"
  by (simp add: kw_map_def)

lemma detect_SFC:
  "detect kw_map c [U ''SFC''] = U ''SFC'' # first_seen (found_tags kw_map c)"
proof -
  have "filter (\<lambda>t. t \<notin> set [U ''SFC'']) (found_tags kw_map c) = found_tags kw_map c"
    using SFC_not_tag found_tags_subset [of kw_map c] by (auto simp: filter_id_conv)
  then show ?thesis
    by (simp add: detect_first_seen)
qed

text \<open>C29 (detect_keywords_first_seen). The keyword list of a document is the first six of: the
  default tag, followed by the tags of the vocabulary entries whose phrase occurs in the
  lowered text of the segments joined by spaces, each tag once, in the order of its first
  entry.\<close>

theorem detect_keywords_first_seen:
  "detect_keywords text_chunks =
     take 6 (U ''SFC'' # first_seen (found_tags kw_map (combined_text text_chunks)))"
  by (simp add: detect_keywords_def detect_SFC)

text \<open>C7 (detect_keywords_wf). The keyword list never repeats a tag, starts with the default
  tag, has between one and six entries, and names tags of the vocabulary only.\<close>

theorem detect_keywords_wf:
  "distinct (detect_keywords text_chunks)
   \<and> hd (detect_keywords text_chunks) = U ''SFC''
   \<and> 1 \<le> length (detect_keywords text_chunks)
   \<and> length (detect_keywords text_chunks) \<le> 6
   \<and> set (detect_keywords text_chunks) \<subseteq> insert (U ''SFC'') (snd ` set kw_map)"
proof -
  let ?c = "combined_text text_chunks"
  let ?all = "U ''SFC'' # first_seen (found_tags kw_map ?c)"
  have eq: "detect_keywords text_chunks = take 6 ?all"
    by (simp add: detect_keywords_def detect_SFC)
  have "U ''SFC'' \<notin> set (found_tags kw_map ?c)"
    using SFC_not_tag found_tags_subset [of kw_map ?c] by auto
  then have "distinct ?all" by simp
  then have "distinct (detect_keywords text_chunks)"
    unfolding eq by (rule distinct_take)
  moreover have "set (detect_keywords text_chunks) \<subseteq> set ?all"
    unfolding eq by (rule set_take_subset)
  then have "set (detect_keywords text_chunks) \<subseteq> insert (U ''SFC'') (snd ` set kw_map)"
    using found_tags_subset [of kw_map ?c] by auto
  ultimately show ?thesis by (simp add: eq)
qed

lemma kw_map_head: "kw_map = (U ''virtual asset'', U ''VATP'') # tl kw_map"
  by (simp add: kw_map_def)

lemma enforcement_entry: "(U ''enforcement'', U ''Enforcement'') \<in> set kw_map"
  by (simp add: kw_map_def)

text \<open>When the combined text contains both
  \<^verbatim>\<open>virtual asset\<close> and \<^verbatim>\<open>enforcement\<close> and at most five tags are found in all,
  the keyword list is the default tag, then \<open>VATP\<close>, and holds \<open>Enforcement\<close>.\<close>

theorem keywords_virtual_asset_enforcement:
  assumes "py_in (U ''virtual asset'') (combined_text text_chunks)"
    and "py_in (U ''enforcement'') (combined_text text_chunks)"
    and "length (first_seen (found_tags kw_map (combined_text text_chunks))) \<le> 5"
  shows "take 2 (detect_keywords text_chunks) = [U ''SFC'', U ''VATP'']
       \<and> U ''Enforcement'' \<in> set (detect_keywords text_chunks)"
proof -
  let ?c = "combined_text text_chunks"
  have eq: "detect_keywords text_chunks = U ''SFC'' # first_seen (found_tags kw_map ?c)"
    using assms(3) by (simp add: detect_keywords_def detect_SFC)
  have "found_tags kw_map ?c = U ''VATP'' # found_tags (tl kw_map) ?c"
    using assms(1) by (subst kw_map_head) simp
  then have "take 2 (detect_keywords text_chunks) = [U ''SFC'', U ''VATP'']"
    by (simp add: eq numeral_2_eq_2)
  moreover have "U ''Enforcement'' \<in> set (found_tags kw_map ?c)"
    using assms(2) enforcement_entry by (auto simp: set_found_tags)
  ultimately show ?thesis by (simp add: eq)
qed

lemmas kw_eval = detect_keywords_def combined_text_def kw_map_def lower_def lower_cp_def U_def

theorem keywords_virtual_asset_enforcement_witness:
  "take 2 (detect_keywords [U ''Virtual asset platforms'', U ''Enforcement news'']) =
     [U ''SFC'', U ''VATP'']
   \<and> U ''Enforcement'' \<in> set (detect_keywords [U ''Virtual asset platforms'', U ''Enforcement news''])"
proof (rule keywords_virtual_asset_enforcement)
  show "py_in (U ''virtual asset'')
      (combined_text [U ''Virtual asset platforms'', U ''Enforcement news''])"
    by (simp add: kw_eval)
  show "py_in (U ''enforcement'')
      (combined_text [U ''Virtual asset platforms'', U ''Enforcement news''])"
    by (simp add: kw_eval)
  show "length (first_seen (found_tags kw_map
      (combined_text [U ''Virtual asset platforms'', U ''Enforcement news'']))) \<le> 5"
    by (simp add: kw_eval)
qed

text \<open>The cap cuts by position: a text that names five
  earlier phrases of the vocabulary and \<^verbatim>\<open>enforcement\<close> gets six keywords, and
  \<open>Enforcement\<close> is not among them.\<close>

theorem keywords_cap_drops_enforcement:
  "detect_keywords [U ''virtual asset aml aspire sponsor ipo enforcement''] =
     [U ''SFC'', U ''VATP'', U ''AML'', U ''ASPIRe'', U ''Sponsor'', U ''IPO'']"
  by (simp add: kw_eval)

lemma charltons_provenance:
  "build_official_url (U ''charltons_latest'') (U ''enforcement_summary'') =
     U ''https://www.sfc.hk/en/''"
  by (simp add: build_official_url_def)

lemma consultation_conclusion_label:
  "labels_of (U ''consultation_conclusion'') = (U ''Update'', ZH_UPDATE)"
  by (simp add: labels_of_def type_labels_def)

end
