(* ===== verification/Collaborators.thy ===== *)
theory Collaborators
  imports Metadata
begin

text \<open>
  The world outside the collector: the services it calls over HTTP, the clock and
  \<^verbatim>\<open>time.sleep\<close>.

  The collector is sequential and deterministic, so what the outside does during a run
  is fixed by the replies it gives, in the order the requests are made. A \<open>world\<close>
  holds, for each service, the script of its future replies, and the \<open>trace\<close> of
  what the collector has done so far: requests, sleeps and file writes, in order. A
  request takes the next reply of the script; an exhausted script answers like a
  connection that fails. A theorem that holds for every world holds for every behaviour
  of the services.

  A reply is the status code with the parsed body, where there is one that parses
  (\<open>Response\<close>), or the exception \<^verbatim>\<open>requests\<close> raises (\<open>Failure\<close>). Durations are
  in milliseconds and the sampling temperature in tenths, so that both are natural
  numbers.
\<close>

section \<open>Requests, replies and the world\<close>

datatype 'b http_reply = Response nat "'b option" | Failure

record chat_request =
  prompt :: ustring
  max_tokens :: nat
  temperature10 :: nat

type_synonym embedding = "int list"

text \<open>
  A JSON value as \<^verbatim>\<open>json.loads\<close> returns it; of a number only whether it is zero
  matters to the collector. A row of the questions table, as the source writes it.
\<close>

datatype json =
    JNull
  | JBool bool
  | JNum int
  | JStr ustring
  | JArr "json list"
  | JObj "(ustring \<times> json) list"

record question_row =
  question_text :: json
  q_category :: ustring
  q_keywords :: "ustring list"
  source_knowledge_id :: "nat option"
  q_source_table :: ustring
  generation_method :: ustring
  is_active :: bool

text \<open>
  What \<^verbatim>\<open>requests.get\<close> returns for a document, as far as the collector reads it: the
  status code, the \<^verbatim>\<open>content-type\<close> header where there is one, the body as bytes
  and as decoded text, and what the two parsers the collector applies to the body find
  in it. \<open>r_pages\<close> is what \<^verbatim>\<open>pdfplumber\<close> reads in the bytes: for every page the
  result of \<^verbatim>\<open>extract_text()\<close>, or nothing where the library is missing or raises.
  \<open>r_article\<close> is what \<^verbatim>\<open>BeautifulSoup\<close> reads in the text: the stripped text of
  every \<^verbatim>\<open>p\<close>, \<^verbatim>\<open>h2\<close>, \<^verbatim>\<open>h3\<close> and \<^verbatim>\<open>li\<close> element of the article, or nothing
  where there is no article or the library is missing or raises.
\<close>

type_synonym bytes = "nat list"

record response =
  r_status :: nat
  r_content_type :: "ustring option"
  r_content :: bytes
  r_text :: ustring
  r_pages :: "ustring option list option"
  r_article :: "ustring list option"

datatype event =
    EvChat chat_request
  | EvEmbed ustring
  | EvFetch ustring
  | EvWrite ustring ustring
  | EvInsert ustring metadata embedding
  | EvQuestion question_row
  | EvSleep nat

record world =
  chat_script :: "ustring http_reply list"
  embed_script :: "embedding http_reply list"
  fetch_script :: "response option list"
  store_script :: "nat option list http_reply list"
  today :: ustring
  trace :: "event list"

definition log :: "event \<Rightarrow> world \<Rightarrow> world" where
  "log e w = w\<lparr>trace := trace w @ [e]\<rparr>"

definition sleep :: "nat \<Rightarrow> world \<Rightarrow> world" where
  "sleep ms w = log (EvSleep ms) w"

definition next_chat :: "world \<Rightarrow> ustring http_reply \<times> world" where
  "next_chat w =
     (case chat_script w of
        [] \<Rightarrow> (Failure, w)
      | r # rs \<Rightarrow> (r, w\<lparr>chat_script := rs\<rparr>))"

section \<open>\<^verbatim>\<open>deepseek_chat\<close> (lines 271-286)\<close>

definition chat_result :: "ustring http_reply \<Rightarrow> ustring option" where
  "chat_result r =
     (case r of
        Response code body \<Rightarrow>
          (if code = 200 then (case body of Some s \<Rightarrow> Some (strip s) | None \<Rightarrow> None) else None)
      | Failure \<Rightarrow> None)"

definition deepseek_chat :: "ustring \<Rightarrow> nat \<Rightarrow> nat \<Rightarrow> world \<Rightarrow> ustring option \<times> world" where
  "deepseek_chat p mt temp w =
     (case next_chat (log (EvChat \<lparr>prompt = p, max_tokens = mt, temperature10 = temp\<rparr>) w) of
        (r, w') \<Rightarrow> (chat_result r, w'))"

section \<open>Specification vocabulary\<close>

text \<open>
  The reply the next request gets, and the replies the next \<open>n\<close> requests get: the
  script, continued by failures where it ends.
\<close>

definition reply_of :: "'b http_reply list \<Rightarrow> 'b http_reply" where
  "reply_of script = (case script of [] \<Rightarrow> Failure | r # _ \<Rightarrow> r)"

definition replies :: "nat \<Rightarrow> 'b http_reply list \<Rightarrow> 'b http_reply list" where
  "replies n script = take n (script @ replicate n Failure)"

definition chat_event :: "ustring \<Rightarrow> nat \<Rightarrow> nat \<Rightarrow> event" where
  "chat_event p mt temp = EvChat \<lparr>prompt = p, max_tokens = mt, temperature10 = temp\<rparr>"

text \<open>The time a trace spends asleep, in milliseconds, and the documents it asks for.\<close>

definition slept :: "event list \<Rightarrow> nat" where
  "slept es = sum_list (map (\<lambda>e. case e of EvSleep ms \<Rightarrow> ms | _ \<Rightarrow> 0) es)"

definition fetch_requests :: "event list \<Rightarrow> ustring list" where
  "fetch_requests es = concat (map (\<lambda>e. case e of EvFetch url \<Rightarrow> [url] | _ \<Rightarrow> []) es)"

text \<open>
  The kind of an event, and the effect discipline of an operation: \<open>effects ks w w'\<close>
  says that \<open>w'\<close> continues the trace of \<open>w\<close> by events of the kinds \<open>ks\<close> only.
\<close>

datatype kind = KChat | KEmbed | KFetch | KWrite | KInsert | KQuestion | KSleep

fun kind_of :: "event \<Rightarrow> kind" where
  "kind_of (EvChat c) = KChat"
| "kind_of (EvEmbed t) = KEmbed"
| "kind_of (EvFetch url) = KFetch"
| "kind_of (EvWrite fname body) = KWrite"
| "kind_of (EvInsert ct md v) = KInsert"
| "kind_of (EvQuestion q) = KQuestion"
| "kind_of (EvSleep ms) = KSleep"

definition added :: "world \<Rightarrow> world \<Rightarrow> event list" where
  "added w w' = drop (length (trace w)) (trace w')"

definition effects :: "kind list \<Rightarrow> world \<Rightarrow> world \<Rightarrow> bool" where
  "effects ks w w' \<longleftrightarrow>
     prefix (trace w) (trace w') \<and> list_all (\<lambda>e. kind_of e \<in> set ks) (added w w')"

section \<open>Scripts\<close>

lemma reply_of_simps [simp]: "reply_of [] = Failure" "reply_of (r # rs) = r"
  by (simp_all add: reply_of_def)

lemma replies_0 [simp]: "replies 0 script = []"
  by (simp add: replies_def)

lemma take_append_replicate:
  "n \<le> m \<Longrightarrow> take n (xs @ replicate m x) = take n (xs @ replicate n x)"
  by (auto simp: min_def)

lemma replies_Suc: "replies (Suc n) script = reply_of script # replies n (tl script)"
proof (cases script)
  case (Cons r rs)
  then show ?thesis
    using take_append_replicate [of n "Suc n" rs Failure] by (simp add: replies_def)
qed (simp add: replies_def)

lemma length_replies [simp]: "length (replies n script) = n"
  by (simp add: replies_def)

lemma replies_enough: "n \<le> length script \<Longrightarrow> replies n script = take n script"
  by (simp add: replies_def)

lemma replies_Nil: "replies n [] = replicate n Failure"
  by (simp add: replies_def)

section \<open>Traces\<close>

lemma slept_simps [simp]:
  "slept [] = 0"
  "slept (es @ fs) = slept es + slept fs"
  "slept (EvSleep ms # es) = ms + slept es"
  "slept (EvEmbed t # es) = slept es"
  "slept (EvChat c # es) = slept es"
  "slept (EvFetch url # es) = slept es"
  "slept (EvWrite fname body # es) = slept es"
  "slept (EvInsert ct md v # es) = slept es"
  "slept (EvQuestion q # es) = slept es"
  by (simp_all add: slept_def)

lemma fetch_requests_simps [simp]:
  "fetch_requests [] = []"
  "fetch_requests (es @ fs) = fetch_requests es @ fetch_requests fs"
  "fetch_requests (EvFetch url # es) = url # fetch_requests es"
  "fetch_requests (EvWrite fname body # es) = fetch_requests es"
  "fetch_requests (EvSleep ms # es) = fetch_requests es"
  "fetch_requests (EvChat c # es) = fetch_requests es"
  "fetch_requests (EvEmbed t # es) = fetch_requests es"
  "fetch_requests (EvInsert ct md v # es) = fetch_requests es"
  "fetch_requests (EvQuestion q # es) = fetch_requests es"
  by (simp_all add: fetch_requests_def)

section \<open>The world after an operation\<close>

lemma sleep_eq: "sleep ms w = w\<lparr>trace := trace w @ [EvSleep ms]\<rparr>"
  by (simp add: sleep_def log_def)

lemma deepseek_chat_eq:
  "deepseek_chat p mt temp w =
     (chat_result (reply_of (chat_script w)),
      w\<lparr>chat_script := tl (chat_script w), trace := trace w @ [chat_event p mt temp]\<rparr>)"
  by (cases "chat_script w")
     (simp_all add: deepseek_chat_def next_chat_def log_def chat_event_def)

lemma chat_result_simps [simp]:
  "chat_result Failure = None"
  "chat_result (Response 200 (Some s)) = Some (strip s)"
  "chat_result (Response 200 None) = None"
  "code \<noteq> 200 \<Longrightarrow> chat_result (Response code body) = None"
  by (simp_all add: chat_result_def)

lemma chat_result_Some_iff:
  "chat_result r = Some t \<longleftrightarrow> (\<exists>s. r = Response 200 (Some s) \<and> t = strip s)"
  by (auto simp: chat_result_def split: http_reply.splits option.splits)

section \<open>Effects\<close>

lemma effects_iff:
  "effects ks w w' \<longleftrightarrow> (\<exists>es. trace w' = trace w @ es \<and> (\<forall>e \<in> set es. kind_of e \<in> set ks))"
  by (auto simp: effects_def added_def prefix_def list_all_iff)

lemma effectsI:
  "trace w' = trace w @ es \<Longrightarrow> (\<And>e. e \<in> set es \<Longrightarrow> kind_of e \<in> set ks) \<Longrightarrow> effects ks w w'"
  by (auto simp: effects_iff)

lemma effects_refl [simp]: "effects ks w w"
  by (simp add: effects_iff)

lemma effects_trans: "effects ks w v \<Longrightarrow> effects ks v u \<Longrightarrow> effects ks w u"
  by (fastforce simp: effects_iff)

lemma effects_mono: "effects ks w w' \<Longrightarrow> set ks \<subseteq> set ks' \<Longrightarrow> effects ks' w w'"
  by (fastforce simp: effects_iff)

lemma effects_trace: "trace v = trace w \<Longrightarrow> effects ks u w \<Longrightarrow> effects ks u v"
  by (simp add: effects_iff)

lemma effects_log: "kind_of e \<in> set ks \<Longrightarrow> effects ks w v \<Longrightarrow> effects ks w (log e v)"
  by (fastforce simp: effects_iff log_def)

lemma effects_sleep: "KSleep \<in> set ks \<Longrightarrow> effects ks w v \<Longrightarrow> effects ks w (sleep ms v)"
  by (simp add: sleep_def effects_log)

lemma effects_added:
  "effects ks w w' \<Longrightarrow> trace w' = trace w @ added w w' \<and> (\<forall>e \<in> set (added w w'). kind_of e \<in> set ks)"
  by (auto simp: effects_def added_def prefix_def list_all_iff)

lemma effects_deepseek_chat:
  "KChat \<in> set ks \<Longrightarrow> effects ks w (snd (deepseek_chat p mt temp w))"
  by (rule effectsI [where es = "[chat_event p mt temp]"])
     (simp_all add: deepseek_chat_eq chat_event_def)

end
