(* ===== verification/Fetcher.thy ===== *)
theory Fetcher
  imports Py_Regex Collaborators
begin

text \<open>
  The PDF Extractor and the Fetcher: \<^verbatim>\<open>extract_text_from_pdf\<close> (lines 67-105 of
  \<^verbatim>\<open>src/auto_collect_upload.py\<close>) and \<^verbatim>\<open>fetch_sfc_content\<close> (lines 199-243).

  The nine regular expressions of the two functions are transcribed as patterns of
  \<open>Py_Regex\<close> and applied with \<open>re_sub\<close>, in the order of the source. \<^verbatim>\<open>\d\<close> and
  \<^verbatim>\<open>\s\<close> are the Unicode classes \<open>is_decimal\<close> and \<open>is_space\<close>; under
  \<^verbatim>\<open>re.DOTALL\<close> the dot is \<open>RAny\<close>, otherwise \<open>RDot\<close>. The replacement \<^verbatim>\<open>\1\n\<close>
  of the first expression is the leading digits of the match and a line feed: the group
  \<^verbatim>\<open>(\d+)\<close> always holds the whole run of digits the match starts with, since what
  follows the group cannot start with a digit.

  What \<^verbatim>\<open>pdfplumber\<close> reads in the bytes is a field of the response (\<open>r_pages\<close>), so
  \<open>extract_text_from_pdf\<close> takes the pages; the loop over the pages is \<open>pages_text\<close>.
  \<open>page_content\<close> is the body of \<^verbatim>\<open>fetch_sfc_content\<close> after the request and
  \<open>http_get\<close> the request: it takes the next reply of the script and logs the address.
  Every \<^verbatim>\<open>return None, None\<close> and the exception handler give \<open>None\<close>.
\<close>

section \<open>Addresses (lines 51, 206)\<close>

definition SFC_API_BASE :: ustring where
  "SFC_API_BASE = U ''https://apps.sfc.hk/edistributionWeb/api''"

definition sfc_url :: "ustring \<Rightarrow> ustring \<Rightarrow> ustring" where
  "sfc_url api_path ref =
     SFC_API_BASE @ U ''/'' @ api_path @ U ''?refNo='' @ ref @ U ''&lang=EN''"

section \<open>\<^verbatim>\<open>extract_text_from_pdf\<close> (lines 67-105)\<close>

definition PAGE_NUMBER_RE :: re where
  "PAGE_NUMBER_RE =
     RSeq (RPlus (RCls is_decimal)) (RSeq (RStar (RCls is_space))
       (RSeq (RChr NL) (RSeq (RStar (RCls is_space)) (RChr NL))))"

definition BLANK_LINES_RE :: re where
  "BLANK_LINES_RE = RSeq (RChr NL) (RSeq (RChr NL) (RPlus (RChr NL)))"

definition FOOTER_EN_RE :: re where
  "FOOTER_EN_RE =
     RSeq (RLit (U ''54/F,'')) (RSeq (RStar (RCls is_space))
       (RSeq (RLit (U ''One Island East'')) (RSeq (RLazy RAny)
         (RSeq (RLit (U ''www.sfc.hk'')) (RSeq (RStar (RCls is_space))
           (ROpt (RSeq (RLit (U ''Page '')) (RSeq (RPlus (RCls is_decimal))
              (RSeq (RLit (U '' of '')) (RPlus (RCls is_decimal)))))))))))"

definition FOOTER_ZH_RE :: re where
  "FOOTER_ZH_RE =
     RSeq (RLit [0x9999, 0x6E2F, 0x9C02, 0x9B5A, 0x6D8C, 0x83EF, 0x862D, 0x8DEF])
       (RSeq (RLazy RDot)
         (RSeq (RLit [0x6E2F, 0x5CF6, 0x6771, 0x4E2D, 0x5FC3])
           (RSeq (RLazy RDot) (RChr 0x6A13))))"

fun pages_text :: "ustring option list \<Rightarrow> ustring list" where
  "pages_text [] = []"
| "pages_text (page # rest) =
     (let text = (case page of None \<Rightarrow> [] | Some t \<Rightarrow> t)
      in if strip text \<noteq> [] then text # pages_text rest else pages_text rest)"

definition clean_pdf :: "ustring \<Rightarrow> ustring" where
  "clean_pdf full_text =
     strip (re_sub FOOTER_ZH_RE (\<lambda>m. [])
       (re_sub FOOTER_EN_RE (\<lambda>m. [])
         (re_sub BLANK_LINES_RE (\<lambda>m. NLNL)
           (re_sub PAGE_NUMBER_RE (\<lambda>m. takeWhile is_decimal m @ [NL]) full_text))))"

definition extract_text_from_pdf :: "ustring option list option \<Rightarrow> ustring option" where
  "extract_text_from_pdf pdf =
     (case pdf of
        None \<Rightarrow> None
      | Some pages \<Rightarrow>
          if pages_text pages = [] then None
          else Some (clean_pdf (join NLNL (pages_text pages))))"

section \<open>\<^verbatim>\<open>fetch_sfc_content\<close> (lines 199-243)\<close>

definition is_alpha_ascii :: "codepoint \<Rightarrow> bool" where
  "is_alpha_ascii c \<longleftrightarrow> (0x61 \<le> c \<and> c \<le> 0x7A) \<or> (0x41 \<le> c \<and> c \<le> 0x5A)"

definition SCRIPT_RE :: re where
  "SCRIPT_RE =
     RSeq (RLit (U ''<script'')) (RSeq (RStar (RCls (\<lambda>c. c \<noteq> 0x3E)))
       (RSeq (RChr 0x3E) (RSeq (RLazy RAny) (RLit (U ''</script>'')))))"

definition STYLE_RE :: re where
  "STYLE_RE =
     RSeq (RLit (U ''<style'')) (RSeq (RStar (RCls (\<lambda>c. c \<noteq> 0x3E)))
       (RSeq (RChr 0x3E) (RSeq (RLazy RAny) (RLit (U ''</style>'')))))"

definition TAG_RE :: re where
  "TAG_RE = RSeq (RChr 0x3C) (RSeq (RPlus (RCls (\<lambda>c. c \<noteq> 0x3E))) (RChr 0x3E))"

definition ENTITY_RE :: re where
  "ENTITY_RE = RSeq (RChr 0x26) (RSeq (RPlus (RCls is_alpha_ascii)) (RChr 0x3B))"

definition SPACES_RE :: re where
  "SPACES_RE = RPlus (RCls is_space)"

definition clean_html :: "ustring \<Rightarrow> ustring" where
  "clean_html text =
     strip (re_sub SPACES_RE (\<lambda>m. [0x20])
       (re_sub ENTITY_RE (\<lambda>m. [0x20])
         (re_sub TAG_RE (\<lambda>m. [0x20])
           (re_sub STYLE_RE (\<lambda>m. [])
             (re_sub SCRIPT_RE (\<lambda>m. []) text)))))"

definition is_pdf :: "response \<Rightarrow> bool" where
  "is_pdf resp \<longleftrightarrow>
     prefix (U ''%PDF'') (take 10 (r_content resp))
     \<or> py_in (U ''application/pdf'')
          (lower (case r_content_type resp of None \<Rightarrow> [] | Some t \<Rightarrow> t))"

definition page_content :: "response \<Rightarrow> (ustring \<times> ustring) option" where
  "page_content resp =
     (if r_status resp \<noteq> 200 then None
      else if is_pdf resp
      then (case extract_text_from_pdf (r_pages resp) of
              None \<Rightarrow> None
            | Some text \<Rightarrow>
                if text \<noteq> [] \<and> length text > 200 then Some (text, U ''pdf'') else None)
      else if py_in (U ''You need to enable JavaScript'') (r_text resp) then None
      else (let text = clean_html (r_text resp)
            in if length text > 200 then Some (text, U ''html'') else None))"

definition http_get :: "ustring \<Rightarrow> world \<Rightarrow> response option \<times> world" where
  "http_get url w =
     (case fetch_script (log (EvFetch url) w) of
        [] \<Rightarrow> (None, log (EvFetch url) w)
      | r # rs \<Rightarrow> (r, (log (EvFetch url) w)\<lparr>fetch_script := rs\<rparr>))"

definition fetch_sfc_content ::
  "ustring \<Rightarrow> ustring \<Rightarrow> world \<Rightarrow> (ustring \<times> ustring) option \<times> world" where
  "fetch_sfc_content ref api_path w =
     (case http_get (sfc_url api_path ref) w of
        (reply, w1) \<Rightarrow>
          ((case reply of None \<Rightarrow> None | Some resp \<Rightarrow> page_content resp), w1))"

section \<open>Specification vocabulary\<close>

text \<open>
  \<open>squeeze\<close> is the reference for \<^verbatim>\<open>re.sub(r'\s+', ' ', text)\<close>: every maximal run of
  whitespace becomes one space; \<open>space_match\<close> is the match of \<^verbatim>\<open>\s+\<close> at the start of
  a text. \<open>spaces_normal\<close> is the form of a cleaned page: the only whitespace is the
  space, never two in a row, none at either end. \<open>next_page\<close> is the reply the next
  request gets and \<open>fetched\<close> what \<^verbatim>\<open>fetch_sfc_content\<close> makes of it. \<open>plain\<close> is a text
  of 201 letters, \<open>html_page\<close> and \<open>pdf_page\<close> are replies that carry it.
\<close>

function squeeze :: "ustring \<Rightarrow> ustring" where
  "squeeze [] = []"
| "squeeze (c # cs) =
     (if is_space c then 0x20 # squeeze (dropWhile is_space cs) else c # squeeze cs)"
  by pat_completeness auto
termination
  by (relation "measure length") (auto simp: less_Suc_eq_le length_dropWhile_le)

definition space_match :: "ustring \<Rightarrow> ustring option" where
  "space_match s =
     (case s of [] \<Rightarrow> None | c # cs \<Rightarrow> if is_space c then Some (dropWhile is_space cs) else None)"

definition spaces_normal :: "ustring \<Rightarrow> bool" where
  "spaces_normal s \<longleftrightarrow>
     (\<forall>c \<in> set s. is_space c \<longrightarrow> c = 0x20) \<and> \<not> sublist [0x20, 0x20] s
     \<and> (s \<noteq> [] \<longrightarrow> hd s \<noteq> 0x20 \<and> last s \<noteq> 0x20)"

definition next_page :: "world \<Rightarrow> response option" where
  "next_page w = (case fetch_script w of [] \<Rightarrow> None | r # _ \<Rightarrow> r)"

definition fetched :: "world \<Rightarrow> (ustring \<times> ustring) option" where
  "fetched w = (case next_page w of None \<Rightarrow> None | Some resp \<Rightarrow> page_content resp)"

definition plain :: ustring where
  "plain = replicate 201 0x61"

definition html_page :: response where
  "html_page = \<lparr>r_status = 200, r_content_type = None,
     r_content = U ''<!DOCTYPE html>'', r_text = plain, r_pages = None, r_article = None\<rparr>"

definition pdf_page :: response where
  "pdf_page = \<lparr>r_status = 200, r_content_type = Some (U ''Application/PDF''),
     r_content = U ''%PDF-1.7'', r_text = [], r_pages = Some [None, Some plain],
     r_article = None\<rparr>"

section \<open>Collapsing whitespace\<close>

lemma space_match_shorter: "space_match t = Some t' \<Longrightarrow> length t' < length t"
  by (auto simp: space_match_def less_Suc_eq_le length_dropWhile_le split: list.splits if_splits)

lemma ends_SPACES_Cons:
  "is_space c \<Longrightarrow> ends n SPACES_RE (c # cs) = ends n (RStar (RCls is_space)) cs"
  by (simp add: SPACES_RE_def)

lemma ends_SPACES: "first_end adv (ends n SPACES_RE t) t = space_match t"
proof (cases t)
  case Nil
  then show ?thesis by (simp add: SPACES_RE_def space_match_def first_end_def)
next
  case (Cons c cs)
  show ?thesis
  proof (cases "is_space c")
    case True
    have "first_end adv (ends n (RStar (RCls is_space)) cs) (c # cs) =
        Some (hd (ends n (RStar (RCls is_space)) cs))"
      by (subst first_end_hd) (auto dest: ends_length split: list.splits)
    with True show ?thesis
      unfolding Cons by (simp add: ends_SPACES_Cons hd_ends_RStar_RCls space_match_def)
  next
    case False
    with Cons show ?thesis by (simp add: SPACES_RE_def space_match_def first_end_def)
  qed
qed

lemma sub_by_squeeze: "sub_by space_match (\<lambda>m. [0x20]) s = squeeze s"
  by (induction s rule: squeeze.induct)
     (simp_all add: space_match_def length_dropWhile_le)

lemma re_sub_SPACES: "re_sub SPACES_RE (\<lambda>m. [0x20]) s = squeeze s"
  using re_sub_sub_by [of s SPACES_RE space_match "\<lambda>m. [0x20]"]
  by (simp add: ends_SPACES space_match_shorter sub_by_squeeze)

lemma set_squeeze: "c \<in> set (squeeze s) \<Longrightarrow> is_space c \<Longrightarrow> c = 0x20"
  by (induction s rule: squeeze.induct) (auto split: if_splits)

lemma hd_squeeze: "s \<noteq> [] \<Longrightarrow> \<not> is_space (hd s) \<Longrightarrow> hd (squeeze s) = hd s \<and> squeeze s \<noteq> []"
  by (cases s) simp_all

lemma squeeze_dropWhile_no_space:
  "squeeze (dropWhile is_space cs) = x # xs \<Longrightarrow> \<not> is_space x"
  using hd_squeeze [of "dropWhile is_space cs"] hd_dropWhile [of is_space cs]
  by (cases "dropWhile is_space cs = []") auto

lemma squeeze_dropWhile_no_prefix: "\<not> prefix [0x20] (squeeze (dropWhile is_space cs))"
proof
  assume "prefix [0x20] (squeeze (dropWhile is_space cs))"
  then obtain xs where "squeeze (dropWhile is_space cs) = 0x20 # xs"
    by (auto simp: prefix_def)
  then show False
    using squeeze_dropWhile_no_space by (fastforce simp: cls_simps)
qed

lemma squeeze_no_double: "\<not> sublist [0x20, 0x20] (squeeze s)"
proof (induction s rule: squeeze.induct)
  case (2 c cs)
  then show ?case
    by (auto simp: sublist_Cons_right cls_simps squeeze_dropWhile_no_prefix)
qed simp

lemma sublist_strip: "sublist (strip s) s"
  using strip_decomp [of s] by (metis sublist_appendI)

lemma set_strip_subset: "set (strip s) \<subseteq> set s"
  using sublist_strip [of s] by (rule set_mono_sublist)

lemma spaces_normal_strip_squeeze: "spaces_normal (strip (squeeze s))"
proof -
  have "\<not> sublist [0x20, 0x20] (strip (squeeze s))"
    using squeeze_no_double [of s] sublist_strip [of "squeeze s"]
    by (blast intro: sublist_order.order_trans)
  moreover have "hd (strip (squeeze s)) \<noteq> 0x20 \<and> last (strip (squeeze s)) \<noteq> 0x20"
    if "strip (squeeze s) \<noteq> []"
    using hd_strip [OF that] last_strip [OF that] by (auto simp: cls_simps)
  ultimately show ?thesis
    using set_strip_subset [of "squeeze s"] by (auto simp: spaces_normal_def dest: set_squeeze)
qed

lemma clean_html_normal: "spaces_normal (clean_html text)"
  by (simp add: clean_html_def re_sub_SPACES spaces_normal_strip_squeeze)

lemma spaces_normal_no_NL: "spaces_normal s \<Longrightarrow> NL \<notin> set s"
  by (auto simp: spaces_normal_def cls_simps)

lemma spaces_normal_strip: "spaces_normal s \<Longrightarrow> strip s = s"
  by (cases "s = []") (auto simp: spaces_normal_def intro!: strip_id)

section \<open>The text of a PDF\<close>

lemma pages_text_filter:
  "pages_text pages =
     filter (\<lambda>t. strip t \<noteq> []) (map (\<lambda>p. case p of None \<Rightarrow> [] | Some t \<Rightarrow> t) pages)"
  by (induction pages) (simp_all add: Let_def)

lemma pages_text_eq_Nil_iff:
  "pages_text pages = [] \<longleftrightarrow> (\<forall>p \<in> set pages. case p of None \<Rightarrow> True | Some t \<Rightarrow> strip t = [])"
  by (auto simp: pages_text_filter filter_empty_conv split: option.splits)

lemma extract_text_from_pdf_None:
  "extract_text_from_pdf pdf = None \<longleftrightarrow>
     (case pdf of None \<Rightarrow> True | Some pages \<Rightarrow> pages_text pages = [])"
  by (simp add: extract_text_from_pdf_def split: option.splits)

lemma extract_text_from_pdf_stripped: "extract_text_from_pdf pdf = Some t \<Longrightarrow> strip t = t"
  by (auto simp: extract_text_from_pdf_def clean_pdf_def split: option.splits if_splits)

section \<open>Texts the expressions leave alone\<close>

lemma first_in_patterns:
  "first_in is_decimal PAGE_NUMBER_RE"
  "first_in (\<lambda>c. c = NL) BLANK_LINES_RE"
  "first_in is_decimal FOOTER_EN_RE"
  "first_in (\<lambda>c. c = 0x9999) FOOTER_ZH_RE"
  "first_in (\<lambda>c. c = 0x3C) SCRIPT_RE"
  "first_in (\<lambda>c. c = 0x3C) STYLE_RE"
  "first_in (\<lambda>c. c = 0x3C) TAG_RE"
  "first_in (\<lambda>c. c = 0x26) ENTITY_RE"
  "first_in is_space SPACES_RE"
  unfolding PAGE_NUMBER_RE_def BLANK_LINES_RE_def FOOTER_EN_RE_def FOOTER_ZH_RE_def
    SCRIPT_RE_def STYLE_RE_def TAG_RE_def ENTITY_RE_def SPACES_RE_def U_def
  by (simp_all add: first_in_intros is_decimal_ascii)

lemma clean_pdf_plain:
  assumes "\<And>c. c \<in> set s \<Longrightarrow> \<not> is_decimal c \<and> c \<noteq> NL \<and> c \<noteq> 0x9999"
  shows "clean_pdf s = strip s"
  using assms by (simp add: clean_pdf_def re_sub_absent [OF first_in_patterns(1)]
      re_sub_absent [OF first_in_patterns(2)] re_sub_absent [OF first_in_patterns(3)]
      re_sub_absent [OF first_in_patterns(4)])

lemma clean_html_plain:
  assumes "\<And>c. c \<in> set s \<Longrightarrow> \<not> is_space c \<and> c \<noteq> 0x3C \<and> c \<noteq> 0x26"
  shows "clean_html s = strip s"
  using assms by (simp add: clean_html_def re_sub_absent [OF first_in_patterns(5)]
      re_sub_absent [OF first_in_patterns(6)] re_sub_absent [OF first_in_patterns(7)]
      re_sub_absent [OF first_in_patterns(8)] re_sub_absent [OF first_in_patterns(9)])

section \<open>What a fetch returns\<close>

lemma page_content_Some:
  assumes "page_content resp = Some (text, ctype)"
  shows "r_status resp = 200 \<and> 200 < length text \<and> strip text = text
    \<and> (if is_pdf resp
        then ctype = U ''pdf'' \<and> extract_text_from_pdf (r_pages resp) = Some text
        else ctype = U ''html'' \<and> text = clean_html (r_text resp)
          \<and> \<not> py_in (U ''You need to enable JavaScript'') (r_text resp))"
  using assms clean_html_normal [of "r_text resp"]
  by (auto simp: page_content_def Let_def spaces_normal_strip
      dest: extract_text_from_pdf_stripped split: if_splits option.splits)

lemma page_content_html:
  "r_status resp = 200 \<Longrightarrow> \<not> is_pdf resp \<Longrightarrow>
   \<not> py_in (U ''You need to enable JavaScript'') (r_text resp) \<Longrightarrow>
   200 < length (clean_html (r_text resp)) \<Longrightarrow>
   page_content resp = Some (clean_html (r_text resp), U ''html'')"
  by (simp add: page_content_def)

lemma page_content_pdf:
  "r_status resp = 200 \<Longrightarrow> is_pdf resp \<Longrightarrow> extract_text_from_pdf (r_pages resp) = Some text \<Longrightarrow>
   200 < length text \<Longrightarrow> page_content resp = Some (text, U ''pdf'')"
  by (auto simp: page_content_def)

lemma http_get_eq:
  "http_get url w =
     (next_page w, w\<lparr>fetch_script := tl (fetch_script w), trace := trace w @ [EvFetch url]\<rparr>)"
  by (cases "fetch_script w") (simp_all add: http_get_def next_page_def log_def)

lemma fetch_sfc_content_eq:
  "fetch_sfc_content ref api_path w =
     (fetched w,
      w\<lparr>fetch_script := tl (fetch_script w),
        trace := trace w @ [EvFetch (sfc_url api_path ref)]\<rparr>)"
  by (simp add: fetch_sfc_content_def http_get_eq fetched_def)

lemma fetched_Some:
  assumes "fetched w = Some (text, ctype)"
  shows "200 < length text \<and> strip text = text
    \<and> (ctype = U ''pdf'' \<or> ctype = U ''html'' \<and> spaces_normal text)"
proof -
  from assms obtain resp where "page_content resp = Some (text, ctype)"
    by (auto simp: fetched_def split: option.splits)
  from page_content_Some [OF this] clean_html_normal [of "r_text resp"] show ?thesis
    by (auto split: if_splits)
qed

lemma stripped_not_blank: "strip t = t \<Longrightarrow> t \<noteq> [] \<Longrightarrow> \<exists>c \<in> set t. \<not> is_space c"
  using strip_eq_Nil_iff [of t] by auto

section \<open>The sample replies\<close>

lemma plain_facts:
  "length plain = 201" "set plain = {0x61}" "strip plain = plain" "plain \<noteq> []"
proof -
  show "length plain = 201" "set plain = {0x61}" "plain \<noteq> []"
    by (simp_all add: plain_def)
  have "hd plain = 0x61" "last plain = 0x61" by (simp_all add: plain_def)
  then show "strip plain = plain"
    using strip_id [of plain] by (simp add: plain_def is_space_ascii)
qed

lemma clean_plain: "clean_html plain = plain" "clean_pdf plain = plain"
proof -
  have "clean_html plain = strip plain"
    by (rule clean_html_plain) (simp add: plain_facts is_space_ascii)
  then show "clean_html plain = plain" by (simp add: plain_facts)
  have "clean_pdf plain = strip plain"
    by (rule clean_pdf_plain) (simp add: plain_facts is_decimal_ascii)
  then show "clean_pdf plain = plain" by (simp add: plain_facts)
qed

lemma page_content_html_page: "page_content html_page = Some (plain, U ''html'')"
proof -
  have "\<not> sublist (U ''You need to enable JavaScript'') plain"
    using set_mono_sublist [of "U ''You need to enable JavaScript''" plain]
    by (auto simp: plain_facts U_def)
  then show ?thesis
    using page_content_html [of html_page]
    by (simp add: html_page_def is_pdf_def py_in_iff_sublist clean_plain plain_facts U_def)
qed

lemma page_content_pdf_page: "page_content pdf_page = Some (plain, U ''pdf'')"
proof -
  have "extract_text_from_pdf (r_pages pdf_page) = Some plain"
    by (simp add: pdf_page_def extract_text_from_pdf_def plain_facts clean_plain)
  then show ?thesis
    using page_content_pdf [of pdf_page plain]
    by (simp add: pdf_page_def is_pdf_def plain_facts U_def)
qed

section \<open>Effects\<close>

lemma effects_http_get: "KFetch \<in> set ks \<Longrightarrow> effects ks w (snd (http_get url w))"
  by (rule effectsI [where es = "[EvFetch url]"]) (simp_all add: http_get_eq)

lemma effects_fetch_sfc_content:
  "KFetch \<in> set ks \<Longrightarrow> effects ks w (snd (fetch_sfc_content ref api_path w))"
  by (rule effectsI [where es = "[EvFetch (sfc_url api_path ref)]"])
     (simp_all add: fetch_sfc_content_eq)

section \<open>Properties of the Fetcher\<close>

text \<open>C19 (clean_html_spaces_normal). Whatever the page, the text the HTML branch makes of it is in normal form: its only whitespace is the single space, never two in a row and none at either end. In particular it holds no line feed.\<close>

theorem clean_html_spaces_normal: "spaces_normal (clean_html text) \<and> NL \<notin> set (clean_html text)"
  by (simp add: clean_html_normal spaces_normal_no_NL)

theorem clean_html_spaces_normal_witness:
  "spaces_normal (clean_html plain) \<and> NL \<notin> set (clean_html plain)"
  by (rule clean_html_spaces_normal)

text \<open>C26 (fetch_sfc_content_world). A fetch makes exactly one request, to the address built from the API path and the reference, consumes one reply of the site, and returns what \<open>page_content\<close> makes of that reply; when the request raises it returns nothing.\<close>

theorem fetch_sfc_content_world:
  "fetch_sfc_content ref api_path w =
     ((case next_page w of None \<Rightarrow> None | Some resp \<Rightarrow> page_content resp),
      w\<lparr>fetch_script := tl (fetch_script w),
        trace := trace w @
          [EvFetch (U ''https://apps.sfc.hk/edistributionWeb/api/'' @ api_path @
                    U ''?refNo='' @ ref @ U ''&lang=EN'')]\<rparr>)"
  by (simp add: fetch_sfc_content_eq fetched_def sfc_url_def SFC_API_BASE_def U_def)

text \<open>C21 (fetch_sfc_content_floor). A text a fetch returns has more than 200 code points, has no whitespace at either end, and is tagged \<^verbatim>\<open>pdf\<close> or \<^verbatim>\<open>html\<close>; a text tagged \<^verbatim>\<open>html\<close> is in the normal form of cleaned pages.\<close>

theorem fetch_sfc_content_floor:
  "case fst (fetch_sfc_content ref api_path w) of
     None \<Rightarrow> True
   | Some (text, ctype) \<Rightarrow>
       200 < length text \<and> strip text = text
       \<and> (ctype = U ''pdf'' \<or> ctype = U ''html'' \<and> spaces_normal text)"
  using fetched_Some [of w]
  by (auto simp: fetch_sfc_content_eq split: option.splits)

theorem fetch_sfc_content_floor_witness:
  "case fst (fetch_sfc_content (U ''26PR1'') (U ''news/list-content'')
       \<lparr>chat_script = [], embed_script = [], fetch_script = [Some html_page],
        store_script = [], today = U ''2026-01-15'', trace = []\<rparr>) of
     None \<Rightarrow> True
   | Some (text, ctype) \<Rightarrow>
       200 < length text \<and> strip text = text
       \<and> (ctype = U ''pdf'' \<or> ctype = U ''html'' \<and> spaces_normal text)"
  by (rule fetch_sfc_content_floor)

text \<open>C27 (page_content_rejects). A reply gives no document when its status is not 200, when it is a PDF in which no text is found, and when it is a page that asks for JavaScript.\<close>

theorem page_content_rejects:
  assumes "r_status resp \<noteq> 200
    \<or> is_pdf resp \<and> extract_text_from_pdf (r_pages resp) = None
    \<or> \<not> is_pdf resp \<and> py_in (U ''You need to enable JavaScript'') (r_text resp)"
  shows "page_content resp = None"
  using assms by (auto simp: page_content_def)

theorem page_content_rejects_witness:
  "page_content (html_page\<lparr>r_status := 404\<rparr>) = None"
  by (rule page_content_rejects) simp

text \<open>C28 (extract_text_from_pdf_blank). The extractor returns nothing exactly when the PDF cannot be read or none of its pages has text other than whitespace; otherwise it returns a text without whitespace at either end.\<close>

theorem extract_text_from_pdf_blank:
  "(extract_text_from_pdf pdf = None \<longleftrightarrow>
      (case pdf of
         None \<Rightarrow> True
       | Some pages \<Rightarrow> \<forall>p \<in> set pages. case p of None \<Rightarrow> True | Some t \<Rightarrow> strip t = []))
   \<and> (case extract_text_from_pdf pdf of None \<Rightarrow> True | Some t \<Rightarrow> strip t = t)"
  using extract_text_from_pdf_stripped [of pdf]
  by (auto simp: extract_text_from_pdf_None pages_text_eq_Nil_iff split: option.splits)

theorem extract_text_from_pdf_blank_witness:
  "extract_text_from_pdf (Some [None, Some [0x20, NL]]) = None"
  using extract_text_from_pdf_blank [of "Some [None, Some [0x20, NL]]"]
  by (simp add: strip_eq_Nil_iff cls_simps)

end
