(* ===== verification/Scanner.thy ===== *)
theory Scanner
  imports Segmenter Fetcher
begin

text \<open>
  The Source Scanner: \<^verbatim>\<open>scan_source\<close> (lines 446-483 of
  \<^verbatim>\<open>src/auto_collect_upload.py\<close>) and the deduplication loop of \<^verbatim>\<open>main\<close>
  (lines 668-675).

  \<^verbatim>\<open>scan_source\<close> walks the reference numbers of each prefix, fetches each document,
  skips what is missing or filtered out, segments the rest, and stops fetching when it
  has \<^verbatim>\<open>max_items\<close> documents. The two nested loops are \<open>scan_prefixes\<close> and
  \<open>scan_range\<close>, recursive in the list they walk, over the state \<open>(results, found)\<close>;
  \<open>scan_one\<close> is the body after the test of the cap. \<^verbatim>\<open>break\<close> leaves the inner loop
  only: the outer loop goes on and the inner one stops again at its first element.

  The documents come from \<open>Fetcher.fetch_sfc_content\<close>. The console output is not
  modelled, so the parameter \<open>name\<close> is not read.
\<close>

section \<open>Documents and prefixes\<close>

record ref_prefix =
  p_year :: int
  p_code :: ustring
  p_range :: "nat list"
  p_doc_type :: "ustring option"

record scan_item =
  item_ref :: ustring
  item_chunks :: "ustring list"
  item_content_type :: ustring
  item_doc_type :: ustring
  item_source_url :: ustring

type_synonym scan_state = "scan_item list \<times> nat"

section \<open>\<^verbatim>\<open>scan_source\<close> (lines 446-483)\<close>

definition ref_of :: "ref_prefix \<Rightarrow> nat \<Rightarrow> ustring" where
  "ref_of pfx ref_id = str_int (p_year pfx) @ p_code pfx @ str_nat ref_id"

definition new_item :: "ustring \<Rightarrow> ref_prefix \<Rightarrow> ustring \<Rightarrow> ustring \<Rightarrow> ustring \<Rightarrow> scan_item" where
  "new_item api_path pfx ref text ctype =
     \<lparr>item_ref = ref,
      item_chunks = smart_chunk_text text (U ''SFC '' @ ref) CHUNK_MAX,
      item_content_type = ctype,
      item_doc_type = (case p_doc_type pfx of Some d \<Rightarrow> d | None \<Rightarrow> U ''unknown''),
      item_source_url = SFC_API_BASE @ U ''/'' @ api_path @ U ''?refNo='' @ ref @ U ''&lang=EN''\<rparr>"

definition kept :: "(ustring \<Rightarrow> bool) option \<Rightarrow> (ustring \<times> ustring) option \<Rightarrow> bool" where
  "kept filter_fn reply \<longleftrightarrow>
     (case reply of
        None \<Rightarrow> False
      | Some (text, ctype) \<Rightarrow>
          text \<noteq> [] \<and> (case filter_fn of None \<Rightarrow> True | Some f \<Rightarrow> f text))"

definition scan_one ::
  "ustring \<Rightarrow> (ustring \<Rightarrow> bool) option \<Rightarrow> ref_prefix \<Rightarrow> nat \<Rightarrow> scan_state \<Rightarrow> world
   \<Rightarrow> scan_state \<times> world" where
  "scan_one api_path filter_fn pfx ref_id st w =
     (case fetch_sfc_content (ref_of pfx ref_id) api_path w of (reply, w1) \<Rightarrow>
        if kept filter_fn reply
        then ((fst st @ [new_item api_path pfx (ref_of pfx ref_id)
                           (fst (the reply)) (snd (the reply))],
               snd st + 1),
              sleep 300 w1)
        else (st, w1))"

fun scan_range ::
  "ustring \<Rightarrow> (ustring \<Rightarrow> bool) option \<Rightarrow> nat \<Rightarrow> ref_prefix \<Rightarrow> nat list \<Rightarrow> scan_state \<Rightarrow> world
   \<Rightarrow> scan_state \<times> world" where
  "scan_range api_path filter_fn max_items pfx [] st w = (st, w)"
| "scan_range api_path filter_fn max_items pfx (ref_id # rest) st w =
     (if snd st \<ge> max_items then (st, w)
      else (case scan_one api_path filter_fn pfx ref_id st w of (st1, w1) \<Rightarrow>
              scan_range api_path filter_fn max_items pfx rest st1 w1))"

fun scan_prefixes ::
  "ustring \<Rightarrow> (ustring \<Rightarrow> bool) option \<Rightarrow> nat \<Rightarrow> ref_prefix list \<Rightarrow> scan_state \<Rightarrow> world
   \<Rightarrow> scan_state \<times> world" where
  "scan_prefixes api_path filter_fn max_items [] st w = (st, w)"
| "scan_prefixes api_path filter_fn max_items (pfx # rest) st w =
     (case scan_range api_path filter_fn max_items pfx (p_range pfx) st w of (st1, w1) \<Rightarrow>
        scan_prefixes api_path filter_fn max_items rest st1 w1)"

definition scan_source ::
  "ustring \<Rightarrow> ref_prefix list \<Rightarrow> ustring \<Rightarrow> (ustring \<Rightarrow> bool) option \<Rightarrow> nat \<Rightarrow> world
   \<Rightarrow> scan_item list \<times> world" where
  "scan_source name ref_prefix_list api_path filter_fn max_items w =
     (case scan_prefixes api_path filter_fn max_items ref_prefix_list ([], 0) w of
        ((results, found), w1) \<Rightarrow> (results, w1))"

section \<open>Deduplication (\<^verbatim>\<open>main\<close>, lines 668-675)\<close>

fun dedupe_loop :: "scan_item list \<Rightarrow> ustring set \<Rightarrow> scan_item list \<Rightarrow> scan_item list" where
  "dedupe_loop [] seen unique = unique"
| "dedupe_loop (r # rest) seen unique =
     (if item_ref r \<notin> seen
      then dedupe_loop rest (insert (item_ref r) seen) (unique @ [r])
      else dedupe_loop rest seen unique)"

definition dedupe :: "scan_item list \<Rightarrow> scan_item list" where
  "dedupe results = dedupe_loop results {} []"

section \<open>Specification vocabulary\<close>

text \<open>
  The invariant of the loop state; what every scanned document satisfies (\<open>wf_item\<close>:
  it has segments and a reference, and it is a PDF or a page of one segment); the references a list
  of prefixes names, in the order the loops walk them; what it means that an item comes
  from one of them; a prefix and a world for the examples.
\<close>

definition scan_inv :: "scan_state \<Rightarrow> bool" where
  "scan_inv st \<longleftrightarrow> snd st = length (fst st)"

definition candidates :: "ref_prefix list \<Rightarrow> ustring list" where
  "candidates ps = concat (map (\<lambda>p. map (ref_of p) (p_range p)) ps)"

definition item_from :: "ustring \<Rightarrow> (ustring \<Rightarrow> bool) option \<Rightarrow> ref_prefix list \<Rightarrow> scan_item \<Rightarrow> bool" where
  "item_from api_path filter_fn ps item \<longleftrightarrow>
     (\<exists>p \<in> set ps. \<exists>ref_id \<in> set (p_range p). \<exists>text ctype.
        kept filter_fn (Some (text, ctype)) \<and>
        item = new_item api_path p (ref_of p ref_id) text ctype)"

definition wf_item :: "scan_item \<Rightarrow> bool" where
  "wf_item item \<longleftrightarrow>
     item_chunks item \<noteq> [] \<and> item_ref item \<noteq> []
     \<and> (item_content_type item = U ''pdf''
        \<or> item_content_type item = U ''html'' \<and> length (item_chunks item) = 1)"

definition sample_prefix :: ref_prefix where
  "sample_prefix = \<lparr>p_year = 26, p_code = U ''EC'', p_range = [2, 1],
     p_doc_type = Some (U ''circular'')\<rparr>"

definition scan_world :: world where
  "scan_world = \<lparr>chat_script = [], embed_script = [],
     fetch_script = [None, Some pdf_page], store_script = [],
     today = U ''2026-01-15'', trace = []\<rparr>"

section \<open>The loops\<close>


lemma scan_one_eq:
  "scan_one api_path filter_fn p ref_id st w =
     (if kept filter_fn (fetched w)
      then ((fst st @ [new_item api_path p (ref_of p ref_id)
                         (fst (the (fetched w))) (snd (the (fetched w)))], Suc (snd st)),
            w\<lparr>fetch_script := tl (fetch_script w),
              trace := trace w @ [EvFetch (sfc_url api_path (ref_of p ref_id)), EvSleep 300]\<rparr>)
      else (st, w\<lparr>fetch_script := tl (fetch_script w),
                   trace := trace w @ [EvFetch (sfc_url api_path (ref_of p ref_id))]\<rparr>))"
  by (simp add: scan_one_def fetch_sfc_content_eq sleep_eq)

lemma scan_range_full:
  "max_items \<le> snd st \<Longrightarrow> scan_range api_path filter_fn max_items p ids st w = (st, w)"
  by (cases ids) simp_all

lemma scan_prefixes_full:
  "max_items \<le> snd st \<Longrightarrow> scan_prefixes api_path filter_fn max_items ps st w = (st, w)"
  by (induction ps) (simp_all add: scan_range_full)

text \<open>What a loop maintains: a property of the state and the world that the body
  preserves holds after the loop.\<close>

lemma scan_range_induct:
  assumes "P st w"
    and "\<And>ref_id st w. ref_id \<in> set ids \<Longrightarrow> snd st < max_items \<Longrightarrow> P st w \<Longrightarrow>
           P (fst (scan_one api_path filter_fn p ref_id st w))
             (snd (scan_one api_path filter_fn p ref_id st w))"
  shows "P (fst (scan_range api_path filter_fn max_items p ids st w))
           (snd (scan_range api_path filter_fn max_items p ids st w))"
  using assms
proof (induction ids arbitrary: st w)
  case (Cons ref_id ids)
  show ?case
  proof (cases "max_items \<le> snd st")
    case True
    with Cons.prems(1) show ?thesis by simp
  next
    case False
    let ?r = "scan_one api_path filter_fn p ref_id st w"
    have "P (fst ?r) (snd ?r)" using Cons.prems False by simp
    then have "P (fst (scan_range api_path filter_fn max_items p ids (fst ?r) (snd ?r)))
                 (snd (scan_range api_path filter_fn max_items p ids (fst ?r) (snd ?r)))"
      by (rule Cons.IH) (simp add: Cons.prems(2))
    with False show ?thesis by (simp add: case_prod_unfold)
  qed
qed simp

lemma scan_prefixes_induct:
  assumes "P st w"
    and "\<And>p ref_id st w. p \<in> set ps \<Longrightarrow> ref_id \<in> set (p_range p) \<Longrightarrow> snd st < max_items \<Longrightarrow>
           P st w \<Longrightarrow>
           P (fst (scan_one api_path filter_fn p ref_id st w))
             (snd (scan_one api_path filter_fn p ref_id st w))"
  shows "P (fst (scan_prefixes api_path filter_fn max_items ps st w))
           (snd (scan_prefixes api_path filter_fn max_items ps st w))"
  using assms
proof (induction ps arbitrary: st w)
  case (Cons p ps)
  let ?r = "scan_range api_path filter_fn max_items p (p_range p) st w"
  have "P (fst ?r) (snd ?r)"
    by (rule scan_range_induct [where P = P]) (simp_all add: Cons.prems)
  then have "P (fst (scan_prefixes api_path filter_fn max_items ps (fst ?r) (snd ?r)))
               (snd (scan_prefixes api_path filter_fn max_items ps (fst ?r) (snd ?r)))"
    by (rule Cons.IH) (simp add: Cons.prems(2))
  then show ?case by (simp add: case_prod_unfold)
qed simp

lemma scan_source_eq:
  "scan_source name ps api_path filter_fn max_items w =
     (fst (fst (scan_prefixes api_path filter_fn max_items ps ([], 0) w)),
      snd (scan_prefixes api_path filter_fn max_items ps ([], 0) w))"
  by (simp add: scan_source_def case_prod_unfold)

lemma scan_source_induct:
  assumes "P [] w"
    and "\<And>p ref_id rs v. p \<in> set ps \<Longrightarrow> ref_id \<in> set (p_range p) \<Longrightarrow> length rs < max_items \<Longrightarrow>
           P rs v \<Longrightarrow>
           P (fst (fst (scan_one api_path filter_fn p ref_id (rs, length rs) v)))
             (snd (scan_one api_path filter_fn p ref_id (rs, length rs) v))"
  shows "P (fst (scan_source name ps api_path filter_fn max_items w))
           (snd (scan_source name ps api_path filter_fn max_items w))"
proof -
  let ?Q = "\<lambda>st v. scan_inv st \<and> P (fst st) v"
  let ?r = "scan_prefixes api_path filter_fn max_items ps ([], 0) w"
  have "?Q (fst ?r) (snd ?r)"
  proof (rule scan_prefixes_induct [where P = ?Q])
    fix p ref_id st v
    assume "p \<in> set ps" "ref_id \<in> set (p_range p)" "snd st < max_items" "?Q st v"
    then show "?Q (fst (scan_one api_path filter_fn p ref_id st v))
        (snd (scan_one api_path filter_fn p ref_id st v))"
      using assms(2) [of p ref_id "fst st" v]
      by (cases st) (auto simp: scan_inv_def scan_one_eq split: if_splits)
  qed (simp add: scan_inv_def assms(1))
  then show ?thesis by (simp add: scan_source_eq)
qed

lemma length_scan_source_le:
  "length (fst (scan_source name ps api_path filter_fn max_items w)) \<le> max_items"
  by (rule scan_source_induct [where P = "\<lambda>rs v. length rs \<le> max_items"])
     (auto simp: scan_one_eq)

text \<open>C8 (scan_source_cap). A scan returns at most \<^verbatim>\<open>max_items\<close> documents.\<close>

theorem scan_source_cap:
  "length (fst (scan_source name ps api_path filter_fn max_items w)) \<le> max_items"
  by (rule length_scan_source_le)

section \<open>Scanned documents are well formed\<close>

lemma ref_of_not_Nil [simp]: "ref_of p ref_id \<noteq> []"
  by (simp add: ref_of_def)

lemma new_item_pdf:
  assumes "strip text = text" "text \<noteq> []"
  shows "wf_item (new_item api_path p (ref_of p ref_id) text (U ''pdf''))"
  using smart_chunk_text_not_Nil [OF stripped_not_blank [OF assms]]
  by (simp add: wf_item_def new_item_def)

lemma new_item_html:
  assumes "spaces_normal text" "text \<noteq> []"
  shows "wf_item (new_item api_path p (ref_of p ref_id) text (U ''html''))"
proof -
  from assms have "NL \<notin> set text" "strip text = text"
    by (simp_all add: spaces_normal_no_NL spaces_normal_strip)
  with assms(2) have "length (smart_chunk_text text (U ''SFC '' @ ref_of p ref_id) CHUNK_MAX) = 1"
    using smart_chunk_text_one_line [of "text" CHUNK_MAX "U ''SFC '' @ ref_of p ref_id"]
    by (cases "length text \<le> CHUNK_MAX") (simp_all add: smart_chunk_text_def)
  then show ?thesis
    by (auto simp: wf_item_def new_item_def)
qed

lemma kept_fetched_wf:
  assumes "kept filter_fn (fetched v)"
  shows "wf_item (new_item api_path p (ref_of p ref_id)
           (fst (the (fetched v))) (snd (the (fetched v))))"
proof -
  from assms obtain body ctype where f: "fetched v = Some (body, ctype)" and "body \<noteq> []"
    by (auto simp: kept_def split: option.splits)
  with fetched_Some [OF f] show ?thesis
    by (auto simp: f intro: new_item_pdf new_item_html)
qed

lemma scan_source_all_wf:
  "\<forall>i \<in> set (fst (scan_source name ps api_path filter_fn max_items w)). wf_item i"
  by (rule scan_source_induct [where P = "\<lambda>rs v. \<forall>i \<in> set rs. wf_item i"])
     (auto simp: scan_one_eq kept_fetched_wf)

text \<open>C22 (scan_source_wf). Every document a scan returns is well formed: it has at least one segment and a reference, and it is either a PDF or an HTML page; an HTML page has exactly one segment, whatever its length, since cleaning leaves no line feed in it for the segmenter to split at.\<close>

theorem scan_source_wf:
  "list_all wf_item (fst (scan_source name ps api_path filter_fn max_items w))"
  using scan_source_all_wf [of name ps api_path filter_fn max_items w]
  by (simp add: list_all_iff)

lemma item_fromI:
  "p \<in> set ps \<Longrightarrow> ref_id \<in> set (p_range p) \<Longrightarrow> kept filter_fn (Some (text, ctype)) \<Longrightarrow>
   item_from api_path filter_fn ps (new_item api_path p (ref_of p ref_id) text ctype)"
  unfolding item_from_def by blast

lemma kept_SomeD: "kept filter_fn r \<Longrightarrow> r = Some (fst (the r), snd (the r))"
  by (cases r) (simp_all add: kept_def)


lemma slept_scan_source:
  "slept (trace (snd (scan_source name ps api_path filter_fn max_items w))) =
     slept (trace w) + 300 * length (fst (scan_source name ps api_path filter_fn max_items w))"
  by (rule scan_source_induct [where P = "\<lambda>rs v. slept (trace v) = slept (trace w) + 300 * length rs"])
     (auto simp: scan_one_eq)

text \<open>A scan sleeps 300 milliseconds for every document it returns, and not otherwise.\<close>

theorem scan_source_paced:
  "slept (trace (snd (scan_source name ps api_path filter_fn max_items w))) =
     slept (trace w) + 300 * length (fst (scan_source name ps api_path filter_fn max_items w))"
  by (rule slept_scan_source)

lemma candidates_Cons:
  "candidates (p # ps) = map (ref_of p) (p_range p) @ candidates ps"
  by (simp add: candidates_def)

text \<open>The requests of a loop are an initial segment of the references it walks.\<close>

lemma scan_range_requests:
  "\<exists>k \<le> length ids.
     fetch_requests (trace (snd (scan_range api_path filter_fn max_items p ids st w))) =
       fetch_requests (trace w) @ map (\<lambda>i. sfc_url api_path (ref_of p i)) (take k ids)
     \<and> (k < length ids \<longrightarrow>
          max_items \<le> snd (fst (scan_range api_path filter_fn max_items p ids st w)))"
proof (induction ids arbitrary: st w)
  case (Cons ref_id ids)
  show ?case
  proof (cases "max_items \<le> snd st")
    case True
    then have "fetch_requests (trace (snd (scan_range api_path filter_fn max_items p (ref_id # ids) st w))) =
        fetch_requests (trace w) @ map (\<lambda>i. sfc_url api_path (ref_of p i)) (take 0 (ref_id # ids))"
      "max_items \<le> snd (fst (scan_range api_path filter_fn max_items p (ref_id # ids) st w))"
      by simp_all
    then show ?thesis by (intro exI [of _ 0]) simp
  next
    case False
    let ?r = "scan_one api_path filter_fn p ref_id st w"
    from Cons.IH [of "fst ?r" "snd ?r"] obtain k where k: "k \<le> length ids"
      "fetch_requests (trace (snd (scan_range api_path filter_fn max_items p ids (fst ?r) (snd ?r)))) =
         fetch_requests (trace (snd ?r)) @ map (\<lambda>i. sfc_url api_path (ref_of p i)) (take k ids)"
      "k < length ids \<longrightarrow>
         max_items \<le> snd (fst (scan_range api_path filter_fn max_items p ids (fst ?r) (snd ?r)))"
      by blast
    have "fetch_requests (trace (snd ?r)) = fetch_requests (trace w) @ [sfc_url api_path (ref_of p ref_id)]"
      by (simp add: scan_one_eq)
    with k False show ?thesis
      by (intro exI [of _ "Suc k"]) (simp add: case_prod_unfold)
  qed
qed simp

lemma scan_prefixes_requests:
  "\<exists>k. fetch_requests (trace (snd (scan_prefixes api_path filter_fn max_items ps st w))) =
       fetch_requests (trace w) @ map (sfc_url api_path) (take k (candidates ps))"
proof (induction ps arbitrary: st w)
  case (Cons p ps)
  let ?r = "scan_range api_path filter_fn max_items p (p_range p) st w"
  let ?ids = "p_range p"
  from scan_range_requests [of ?ids api_path filter_fn max_items p st w]
  obtain k where k: "k \<le> length ?ids"
    "fetch_requests (trace (snd ?r)) =
       fetch_requests (trace w) @ map (\<lambda>i. sfc_url api_path (ref_of p i)) (take k ?ids)"
    "k < length ?ids \<longrightarrow> max_items \<le> snd (fst ?r)"
    by blast
  show ?case
  proof (cases "k < length ?ids")
    case True
    with k(3) have "scan_prefixes api_path filter_fn max_items ps (fst ?r) (snd ?r) = (fst ?r, snd ?r)"
      by (simp add: scan_prefixes_full)
    with k(1,2) True show ?thesis
      by (intro exI [of _ k])
         (simp add: case_prod_unfold candidates_Cons take_map)
  next
    case False
    with k(1) have full: "take k ?ids = ?ids" "k = length ?ids" by simp_all
    from Cons.IH [of "fst ?r" "snd ?r"] obtain j where
      "fetch_requests (trace (snd (scan_prefixes api_path filter_fn max_items ps (fst ?r) (snd ?r)))) =
         fetch_requests (trace (snd ?r)) @ map (sfc_url api_path) (take j (candidates ps))"
      by blast
    with k(2) full show ?thesis
      by (intro exI [of _ "length ?ids + j"])
         (simp add: case_prod_unfold candidates_Cons o_def)
  qed
qed simp


section \<open>Deduplication keeps first occurrences\<close>

lemma dedupe_loop_acc:
  "dedupe_loop rs seen unique = unique @ dedupe_loop rs seen []"
proof (induction rs arbitrary: seen unique)
  case (Cons r rs)
  show ?case
    using Cons [of "insert (item_ref r) seen" "unique @ [r]"]
      Cons [of "insert (item_ref r) seen" "[r]"] Cons [of seen unique]
    by simp
qed simp

lemma dedupe_loop_refs:
  "map item_ref (dedupe_loop rs seen []) =
     first_seen (filter (\<lambda>x. x \<notin> seen) (map item_ref rs))"
proof (induction rs arbitrary: seen)
  case (Cons r rs)
  have "filter (\<lambda>y. y \<noteq> item_ref r) (filter (\<lambda>x. x \<notin> seen) (map item_ref rs)) =
        filter (\<lambda>x. x \<notin> insert (item_ref r) seen) (map item_ref rs)"
    by (auto intro: filter_cong)
  with Cons show ?case
    by (simp add: dedupe_loop_acc [of rs _ "[r]"])
qed simp

lemma subseq_dedupe_loop: "subseq (dedupe_loop rs seen []) rs"
proof (induction rs arbitrary: seen)
  case (Cons r rs)
  then show ?case
    by (auto simp: dedupe_loop_acc [of rs _ "[r]"] intro: subseq_Cons')
qed simp

text \<open>C10 (dedupe_first_seen). Deduplication keeps, in order, the first document of every reference: the references of the result are the first occurrences of the references of the input, they are distinct, and the result is a subsequence of the input.\<close>

theorem dedupe_first_seen:
  "map item_ref (dedupe results) = first_seen (map item_ref results)
   \<and> distinct (map item_ref (dedupe results))
   \<and> subseq (dedupe results) results"
  by (simp add: dedupe_def dedupe_loop_refs subseq_dedupe_loop)

lemma str_nat_digit: "n < 10 \<Longrightarrow> str_nat n = [0x30 + n]"
  by (simp add: str_nat.simps)

lemma str_nat_26: "str_nat 26 = U ''26''"
  by (simp add: str_nat.simps [of 26] str_nat_digit U_def)

lemma scan_source_sample:
  "scan_source (U ''Test'') [sample_prefix] (U ''circular/openFile'') None 5 scan_world =
     ([\<lparr>item_ref = U ''26EC1'', item_chunks = [plain],
        item_content_type = U ''pdf'', item_doc_type = U ''circular'',
        item_source_url =
          U ''https://apps.sfc.hk/edistributionWeb/api/circular/openFile?refNo=26EC1&lang=EN''\<rparr>],
      scan_world\<lparr>fetch_script := [],
        trace := [EvFetch (sfc_url (U ''circular/openFile'') (U ''26EC2'')),
                  EvFetch (sfc_url (U ''circular/openFile'') (U ''26EC1'')), EvSleep 300]\<rparr>)"
proof -
  have refs: "ref_of sample_prefix 2 = U ''26EC2''" "ref_of sample_prefix (Suc 0) = U ''26EC1''"
    using str_nat_26 by (simp_all add: ref_of_def sample_prefix_def str_int_def str_nat_digit U_def)
  have p: "p_range sample_prefix = [2, 1]" "p_doc_type sample_prefix = Some (U ''circular'')"
    by (simp_all add: sample_prefix_def)
  show ?thesis
    by (simp add: scan_source_def scan_one_eq fetched_def next_page_def page_content_pdf_page
        kept_def new_item_def refs p smart_chunk_text_def CHUNK_MAX_def SFC_API_BASE_def
        scan_world_def plain_facts U_def)
qed


section \<open>Effects\<close>

lemma effects_scan_one:
  assumes "KFetch \<in> set ks" "KSleep \<in> set ks"
  shows "effects ks w (snd (scan_one api_path filter_fn p ref_id st w))"
proof (cases "kept filter_fn (fetched w)")
  case True
  with assms show ?thesis
    by (intro effectsI [where es = "[EvFetch (sfc_url api_path (ref_of p ref_id)), EvSleep 300]"])
       (auto simp: scan_one_eq)
next
  case False
  with assms show ?thesis
    by (intro effectsI [where es = "[EvFetch (sfc_url api_path (ref_of p ref_id))]"])
       (auto simp: scan_one_eq)
qed

lemma effects_scan_source:
  assumes "KFetch \<in> set ks" "KSleep \<in> set ks"
  shows "effects ks w (snd (scan_source name ps api_path filter_fn max_items w))"
proof (rule scan_source_induct [where P = "\<lambda>rs v. effects ks w v"])
  fix p ref_id rs v
  assume "effects ks w v"
  then show "effects ks w (snd (scan_one api_path filter_fn p ref_id (rs, length rs) v))"
    by (rule effects_trans) (rule effects_scan_one [OF assms])
qed simp

end
