(* ===== verification/Sources.thy ===== *)
theory Sources
  imports Scanner
begin

text \<open>
  The source list: \<^verbatim>\<open>fetch_all_sources\<close> (lines 486-570 of
  \<^verbatim>\<open>src/auto_collect_upload.py\<close>).

  The function runs five scans, one after the other, and then fetches one page of
  Charltons Law; the results are appended in that order. Each scan is a definition here
  (\<open>scan_circulars\<close> to \<open>scan_press\<close>), with the prefixes, the ranges, the filter and the
  cap the source gives it; \<open>down_range a b\<close> is \<^verbatim>\<open>range(a, b, -1)\<close> and \<open>any_in kw t\<close>
  is \<^verbatim>\<open>any(k in t.lower() for k in kw)\<close>. \<open>fetch_charltons\<close> is the last block: what
  \<^verbatim>\<open>BeautifulSoup\<close> finds in the page is the field \<open>r_article\<close> of the reply, and an
  exception of the request or of the parser gives no document. The import of the parser
  is taken to succeed: \<^verbatim>\<open>main\<close> has tested it before it calls the function.
\<close>

section \<open>Ranges and filters\<close>

definition down_range :: "nat \<Rightarrow> nat \<Rightarrow> nat list" where
  "down_range a b = rev [Suc b ..< Suc a]"

definition any_in :: "ustring list \<Rightarrow> ustring \<Rightarrow> bool" where
  "any_in kw t = list_ex (\<lambda>k. py_in k (lower t)) kw"

definition enforce_kw :: "ustring list" where
  "enforce_kw = [U ''reprimand'', U ''fine'', U ''suspend'', U ''ban'', U ''prosecut'',
     U ''convict'', U ''disciplin'', U ''enforcement'', U ''sanction'', U ''misconduct'']"

definition va_kw :: "ustring list" where
  "va_kw = [U ''virtual asset'', U ''vatp'', U ''vasp'', U ''crypto'', U ''stablecoin'',
     U ''digital asset'', U ''web3'', U ''staking'', U ''aspire'']"

section \<open>The five scans (lines 487-541)\<close>

definition max_ec :: "ustring \<Rightarrow> nat" where
  "max_ec depth = (if depth = U ''quick'' then 8 else 20)"

definition max_pr :: "ustring \<Rightarrow> nat" where
  "max_pr depth = (if depth = U ''quick'' then 10 else 30)"

definition max_cp :: "ustring \<Rightarrow> nat" where
  "max_cp depth = (if depth = U ''quick'' then 6 else 12)"

definition scan_circulars :: "int \<Rightarrow> ustring \<Rightarrow> world \<Rightarrow> scan_item list \<times> world" where
  "scan_circulars year depth =
     scan_source (U ''[1/5] SFC Circulars ('' @ [0x901A, 0x51FD] @ U '')'')
       [\<lparr>p_year = year, p_code = U ''EC'', p_range = down_range (max_ec depth) 0,
         p_doc_type = Some (U ''circular'')\<rparr>,
        \<lparr>p_year = year - 1, p_code = U ''EC'', p_range = down_range 50 35,
         p_doc_type = Some (U ''circular'')\<rparr>]
       (U ''circular/openFile'') None 10"

definition scan_enforcement :: "int \<Rightarrow> ustring \<Rightarrow> world \<Rightarrow> scan_item list \<times> world" where
  "scan_enforcement year depth =
     scan_source (U ''[2/5] SFC Enforcement ('' @ [0x57F7, 0x6CD5, 0x65B0, 0x805E] @ U '')'')
       [\<lparr>p_year = year, p_code = U ''PR'', p_range = down_range (max_pr depth) 0,
         p_doc_type = Some (U ''enforcement'')\<rparr>,
        \<lparr>p_year = year - 1, p_code = U ''PR'',
         p_range = down_range 220 (220 - max_pr depth),
         p_doc_type = Some (U ''enforcement'')\<rparr>]
       (U ''news/list-content'') (Some (any_in enforce_kw)) 10"

definition scan_consultations :: "int \<Rightarrow> ustring \<Rightarrow> world \<Rightarrow> scan_item list \<times> world" where
  "scan_consultations year depth =
     scan_source (U ''[3/5] SFC Consultations ('' @ [0x8AEE, 0x8A62, 0x6587, 0x4EF6] @ U '')'')
       [\<lparr>p_year = year, p_code = U ''CP'', p_range = down_range (max_cp depth) 0,
         p_doc_type = Some (U ''consultation'')\<rparr>,
        \<lparr>p_year = year - 1, p_code = U ''CP'', p_range = down_range 15 0,
         p_doc_type = Some (U ''consultation'')\<rparr>]
       (U ''consultation/openFile'') None 8"

definition scan_vatp :: "int \<Rightarrow> ustring \<Rightarrow> world \<Rightarrow> scan_item list \<times> world" where
  "scan_vatp year depth =
     scan_source (U ''[4/5] SFC VATP ('' @ [0x865B, 0x64EC, 0x8CC7, 0x7522] @ U '')'')
       [\<lparr>p_year = year, p_code = U ''PR'', p_range = down_range (max_pr depth) 0,
         p_doc_type = Some (U ''vatp'')\<rparr>,
        \<lparr>p_year = year - 1, p_code = U ''PR'',
         p_range = down_range 220 (220 - max_pr depth),
         p_doc_type = Some (U ''vatp'')\<rparr>]
       (U ''news/list-content'') (Some (any_in va_kw)) 8"

definition scan_press :: "int \<Rightarrow> ustring \<Rightarrow> world \<Rightarrow> scan_item list \<times> world" where
  "scan_press year depth =
     scan_source (U ''[5/5] SFC Press Releases ('' @ [0x65B0, 0x805E, 0x7A3F] @ U '')'')
       [\<lparr>p_year = year, p_code = U ''PR'', p_range = down_range (max_pr depth) 0,
         p_doc_type = Some (U ''press_release'')\<rparr>]
       (U ''news/list-content'')
       (Some (\<lambda>t. \<not> any_in (enforce_kw @ va_kw) t \<and> length t > 300)) 8"

section \<open>The Charltons page (lines 543-568)\<close>

definition CHARLTONS_URL :: ustring where
  "CHARLTONS_URL =
     U ''https://www.charltonslaw.com/sfc-enforcement-actions-in-january-2026-and-december-2025/''"

definition charltons_items :: "response \<Rightarrow> scan_item list" where
  "charltons_items resp =
     (if r_status resp = 200
      then (case r_article resp of
              None \<Rightarrow> []
            | Some elements \<Rightarrow>
                (let text = join NLNL (filter (\<lambda>e. length e > 10) elements)
                 in if length text > 500
                    then [\<lparr>item_ref = U ''charltons_latest'',
                           item_chunks =
                             smart_chunk_text text (U ''Charltons SFC Enforcement'') CHUNK_MAX,
                           item_content_type = U ''html'',
                           item_doc_type = U ''enforcement_summary'',
                           item_source_url = CHARLTONS_URL\<rparr>]
                    else []))
      else [])"

definition fetch_charltons :: "world \<Rightarrow> scan_item list \<times> world" where
  "fetch_charltons w =
     (case http_get CHARLTONS_URL w of
        (reply, w1) \<Rightarrow> ((case reply of None \<Rightarrow> [] | Some resp \<Rightarrow> charltons_items resp), w1))"

section \<open>\<^verbatim>\<open>fetch_all_sources\<close> (lines 486-570)\<close>

definition fetch_all_sources :: "int \<Rightarrow> ustring \<Rightarrow> world \<Rightarrow> scan_item list \<times> world" where
  "fetch_all_sources year depth w =
     (case scan_circulars year depth w of (r1, w1) \<Rightarrow>
      case scan_enforcement year depth w1 of (r2, w2) \<Rightarrow>
      case scan_consultations year depth w2 of (r3, w3) \<Rightarrow>
      case scan_vatp year depth w3 of (r4, w4) \<Rightarrow>
      case scan_press year depth w4 of (r5, w5) \<Rightarrow>
      case fetch_charltons w5 of (r6, w6) \<Rightarrow>
        (r1 @ r2 @ r3 @ r4 @ r5 @ r6, w6))"

section \<open>Ranges and filters\<close>

lemma down_range_simps: "down_range 2 0 = [2, 1]" "down_range a a = []"
  by (simp_all add: down_range_def upt_rec)

lemma length_down_range [simp]: "length (down_range a b) = a - b"
  by (auto simp: down_range_def)

lemma set_down_range: "set (down_range a b) = {i. b < i \<and> i \<le> a}"
  by (auto simp: down_range_def)

lemma any_in_iff: "any_in kw t \<longleftrightarrow> (\<exists>k \<in> set kw. sublist k (lower t))"
  by (simp add: any_in_def list_ex_iff py_in_iff_sublist)

lemma lower_ascii_word [simp]: "lower (U ''Bank'') = U ''bank''"
  by (simp add: lower_def lower_cp_def U_def)

section \<open>The results and the world after \<^verbatim>\<open>fetch_all_sources\<close>\<close>

lemma fetch_charltons_eq:
  "fetch_charltons w =
     ((case next_page w of None \<Rightarrow> [] | Some resp \<Rightarrow> charltons_items resp),
      w\<lparr>fetch_script := tl (fetch_script w), trace := trace w @ [EvFetch CHARLTONS_URL]\<rparr>)"
  by (simp add: fetch_charltons_def http_get_eq)

lemma length_charltons_items: "length (charltons_items resp) \<le> Suc 0"
  by (simp add: charltons_items_def Let_def split: option.splits)

lemma length_fetch_charltons: "length (fst (fetch_charltons w)) \<le> 1"
  by (auto simp: fetch_charltons_eq length_charltons_items split: option.splits)

lemma length_scans:
  "length (fst (scan_circulars year depth w)) \<le> 10"
  "length (fst (scan_enforcement year depth w)) \<le> 10"
  "length (fst (scan_consultations year depth w)) \<le> 8"
  "length (fst (scan_vatp year depth w)) \<le> 8"
  "length (fst (scan_press year depth w)) \<le> 8"
  by (simp_all add: scan_circulars_def scan_enforcement_def scan_consultations_def
      scan_vatp_def scan_press_def length_scan_source_le)

text \<open>C35 (fetch_all_sources_cap). A run of the source list returns at most 45 documents, whatever the depth: ten circulars, ten enforcement notices, eight consultations, eight virtual asset notices, eight press releases and the Charltons page.\<close>

theorem fetch_all_sources_cap: "length (fst (fetch_all_sources year depth w)) \<le> 45"
proof -
  have le: "a + (b + (c + (d + (e + f)))) \<le> (45::nat)"
    if "a \<le> 10" "b \<le> 10" "c \<le> 8" "d \<le> 8" "e \<le> 8" "f \<le> 1" for a b c d e f
    using that by simp
  show ?thesis
    by (simp add: fetch_all_sources_def case_prod_unfold)
       (rule le; rule length_scans length_fetch_charltons)
qed

text \<open>C40 (enforcement_filter_substring). The enforcement filter tests substrings of the lowered text, not words: every text that mentions a bank passes it, since \<^verbatim>\<open>ban\<close> is one of its keywords.\<close>

theorem enforcement_filter_substring: "any_in enforce_kw (l @ U ''Bank'' @ r)"
proof -
  have "sublist (U ''ban'') (lower l @ (U ''ban'' @ U ''k'') @ lower r)"
    by (metis append.assoc sublist_appendI)
  moreover have "U ''ban'' @ U ''k'' = U ''bank''" by (simp add: U_def)
  ultimately show ?thesis
    by (auto simp: any_in_iff lower_append enforce_kw_def)
qed

section \<open>Effects\<close>

lemma effects_scans:
  assumes "KFetch \<in> set ks" "KSleep \<in> set ks"
  shows "effects ks w (snd (scan_circulars year depth w))"
    "effects ks w (snd (scan_enforcement year depth w))"
    "effects ks w (snd (scan_consultations year depth w))"
    "effects ks w (snd (scan_vatp year depth w))"
    "effects ks w (snd (scan_press year depth w))"
  by (simp_all add: scan_circulars_def scan_enforcement_def scan_consultations_def
      scan_vatp_def scan_press_def effects_scan_source [OF assms])

lemma effects_fetch_charltons: "KFetch \<in> set ks \<Longrightarrow> effects ks w (snd (fetch_charltons w))"
  by (rule effectsI [where es = "[EvFetch CHARLTONS_URL]"]) (simp_all add: fetch_charltons_eq)

lemma effects_fetch_all_sources:
  assumes "KFetch \<in> set ks" "KSleep \<in> set ks"
  shows "effects ks w (snd (fetch_all_sources year depth w))"
proof -
  let ?w1 = "snd (scan_circulars year depth w)"
  let ?w2 = "snd (scan_enforcement year depth ?w1)"
  let ?w3 = "snd (scan_consultations year depth ?w2)"
  let ?w4 = "snd (scan_vatp year depth ?w3)"
  let ?w5 = "snd (scan_press year depth ?w4)"
  note step = effects_trans [of ks w]
  have "effects ks w ?w1" by (rule effects_scans [OF assms])
  then have "effects ks w ?w2" by (rule step) (rule effects_scans [OF assms])
  then have "effects ks w ?w3" by (rule step) (rule effects_scans [OF assms])
  then have "effects ks w ?w4" by (rule step) (rule effects_scans [OF assms])
  then have "effects ks w ?w5" by (rule step) (rule effects_scans [OF assms])
  then have "effects ks w (snd (fetch_charltons ?w5))"
    by (rule step) (rule effects_fetch_charltons [OF assms(1)])
  then show ?thesis
    by (simp add: fetch_all_sources_def case_prod_unfold)
qed

end
