(* ===== verification/Bilingual.thy ===== *)
theory Bilingual
  imports Metadata Collaborators
begin

text \<open>
  The Bilingual Expander: \<^verbatim>\<open>translate_to_chinese\<close> (lines 348-353) and the loop of
  \<^verbatim>\<open>create_bilingual_chunks\<close> (lines 370-440) of \<^verbatim>\<open>src/auto_collect_upload.py\<close>.

  For every segment the loop emits the English unit, asks the chat service for the
  translation, emits the Chinese unit when the answer is long enough, and sleeps one
  second. The loop body is \<open>expand_one\<close>, a function from the world to the units it emits
  and the world after it; \<open>expand_chunks\<close> is the loop. The local variables of
  \<^verbatim>\<open>create_bilingual_chunks\<close> that the body reads are the fields of \<open>chunk_env\<close>.

  A unit is the dictionary the source appends: its metadata is \<^verbatim>\<open>base_meta\<close> extended by
  the language (the records \<open>base_metadata\<close> and \<open>metadata\<close> of theory \<open>Metadata\<close>).
  The date is \<open>today\<close> of the world, which no operation changes: a run is taken not to
  pass midnight.
\<close>

section \<open>Literals\<close>

definition TRANSLATE_HEAD :: ustring where [lit_defs]:
  "TRANSLATE_HEAD =
     [0x4F60, 0x662F, 0x20, 0x53, 0x46, 0x43, 0x20, 0x76E3, 0x7BA1, 0x60C5, 0x5831, 0x7FFB,
      0x8B6F, 0x5E2B, 0x3002, 0x7FFB, 0x8B6F, 0x70BA, 0x7E41, 0x9AD4, 0x4E2D, 0x6587, 0x6458,
      0x8981, 0x3002, 0xA, 0x8981, 0x6C42, 0xFF1A, 0x4FDD, 0x7559, 0x5C08, 0x696D, 0x8853,
      0x8A9E, 0x82F1, 0x6587, 0x2B, 0x62EC, 0x865F, 0xFF0C, 0x5982, 0xFF1A, 0x6301, 0x724C,
      0x6CD5, 0x5718, 0x20, 0x28, 0x4C, 0x69, 0x63, 0x65, 0x6E, 0x73, 0x65, 0x64, 0x20, 0x43,
      0x6F, 0x72, 0x70, 0x6F, 0x72, 0x61, 0x74, 0x69, 0x6F, 0x6E, 0x29, 0x3002, 0x4FDD, 0x7559,
      0x65E5, 0x671F, 0x3001, 0x91D1, 0x984D, 0x3001, 0x7DE8, 0x865F, 0x3002, 0xA, 0x539F,
      0x6587, 0xFF1A]"

definition TRANSLATE_TAIL :: ustring where [lit_defs]:
  "TRANSLATE_TAIL = [0xA, 0x53EA, 0x8FD4, 0x56DE, 0x7FFB, 0x8B6F, 0x3002]"

definition ZH_FOOTER_SOURCE :: ustring where [lit_defs]:
  "ZH_FOOTER_SOURCE =
     [0xA, 0xA, 0x2D, 0x2D, 0x2D, 0xA, 0x8CC7, 0x6599, 0x4F86, 0x6E90, 0xFF1A, 0x8B49, 0x76E3,
      0x6703, 0x5B98, 0x65B9, 0x20, 0x28]"

definition ZH_FOOTER_LINK :: ustring where [lit_defs]:
  "ZH_FOOTER_LINK = [0x29, 0xA, 0x539F, 0x6587, 0x93C8, 0x63A5, 0xFF1A]"

section \<open>\<^verbatim>\<open>translate_to_chinese\<close> (lines 348-353)\<close>

definition translate_prompt :: "ustring \<Rightarrow> ustring" where
  "translate_prompt text = TRANSLATE_HEAD @ take 3500 text @ TRANSLATE_TAIL"

definition translate_to_chinese :: "ustring \<Rightarrow> world \<Rightarrow> ustring option \<times> world" where
  "translate_to_chinese text w = deepseek_chat (translate_prompt text) 800 2 w"

section \<open>Units (lines 402-436)\<close>

record vigo_chunk =
  chunk_content :: ustring
  chunk_metadata :: metadata
  chunk_lang :: ustring

record chunk_env =
  env_ref :: ustring
  env_type :: ustring
  env_official_url :: ustring
  env_en_label :: ustring
  env_zh_label :: ustring
  env_keywords :: "ustring list"
  env_total :: nat

definition part_label :: "nat \<Rightarrow> nat \<Rightarrow> ustring" where
  "part_label i n =
     (if n > 1 then U '' (Part '' @ str_nat (i + 1) @ U ''/'' @ str_nat n @ U '')'' else [])"

definition base_meta :: "chunk_env \<Rightarrow> world \<Rightarrow> base_metadata" where
  "base_meta env w =
     \<lparr>m_source = U ''SFC_Official_'' @ env_ref env,
      m_source_url = env_official_url env,
      m_doc_type = env_type env,
      m_category = U ''SFC'',
      m_ref_no = env_ref env,
      m_source_table = U ''vigo_financial'',
      m_keywords = env_keywords env,
      m_collected_date = today w,
      m_content_type = (if env_total env > 1 then U ''pdf_extract'' else U ''html'')\<rparr>"

definition with_language :: "base_metadata \<Rightarrow> ustring \<Rightarrow> metadata" where
  "with_language m l = base_metadata.extend m (metadata.fields l)"

definition unit_header :: "chunk_env \<Rightarrow> ustring \<Rightarrow> nat \<Rightarrow> ustring" where
  "unit_header env label i =
     [0x3010] @ U ''SFC '' @ label @ part_label i (env_total env) @ [0x20, EM_DASH, 0x20] @
     env_ref env @ [0x3011] @ NLNL"

definition en_content :: "chunk_env \<Rightarrow> nat \<Rightarrow> ustring \<Rightarrow> ustring" where
  "en_content env i chunk_text =
     unit_header env (env_en_label env) i @ chunk_text @
     NLNL @ U ''---'' @ [NL] @ U ''Source: SFC Official ('' @ env_ref env @ U '')'' @ [NL] @
     U ''Full document: '' @ env_official_url env"

definition zh_content :: "chunk_env \<Rightarrow> nat \<Rightarrow> ustring \<Rightarrow> ustring" where
  "zh_content env i zh_translation =
     unit_header env (env_zh_label env) i @ zh_translation @
     ZH_FOOTER_SOURCE @ env_ref env @ ZH_FOOTER_LINK @ env_official_url env"

definition en_unit :: "chunk_env \<Rightarrow> world \<Rightarrow> nat \<Rightarrow> ustring \<Rightarrow> vigo_chunk" where
  "en_unit env w i chunk_text =
     \<lparr>chunk_content = en_content env i chunk_text,
      chunk_metadata = with_language (base_meta env w) (U ''en''),
      chunk_lang = U ''EN''\<rparr>"

definition zh_unit :: "chunk_env \<Rightarrow> world \<Rightarrow> nat \<Rightarrow> ustring \<Rightarrow> vigo_chunk" where
  "zh_unit env w i zh_translation =
     \<lparr>chunk_content = zh_content env i zh_translation,
      chunk_metadata = with_language (base_meta env w) (U ''zh''),
      chunk_lang = U ''ZH''\<rparr>"

section \<open>The loop (lines 400-438)\<close>

definition accepted :: "ustring option \<Rightarrow> bool" where
  "accepted zh_translation \<longleftrightarrow>
     (case zh_translation of None \<Rightarrow> False | Some t \<Rightarrow> t \<noteq> [] \<and> length t > 80)"

definition expand_one :: "chunk_env \<Rightarrow> nat \<times> ustring \<Rightarrow> world \<Rightarrow> vigo_chunk list \<times> world" where
  "expand_one env ic w =
     (case ic of (i, chunk_text) \<Rightarrow>
        (case translate_to_chinese chunk_text w of (zh_translation, w1) \<Rightarrow>
           (en_unit env w i chunk_text #
              (if accepted zh_translation then [zh_unit env w i (the zh_translation)] else []),
            sleep 1000 w1)))"

fun expand_chunks :: "chunk_env \<Rightarrow> (nat \<times> ustring) list \<Rightarrow> world \<Rightarrow> vigo_chunk list \<times> world" where
  "expand_chunks env [] w = ([], w)"
| "expand_chunks env (ic # rest) w =
     (case expand_one env ic w of (units, w1) \<Rightarrow>
        (case expand_chunks env rest w1 of (later, w2) \<Rightarrow> (units @ later, w2)))"

definition create_bilingual_chunks ::
  "ustring \<Rightarrow> ustring list \<Rightarrow> ustring \<Rightarrow> ustring \<Rightarrow> world \<Rightarrow> vigo_chunk list \<times> world" where
  "create_bilingual_chunks ref text_chunks doc_type source_url w =
     expand_chunks
       \<lparr>env_ref = ref, env_type = doc_type,
        env_official_url = build_official_url ref doc_type,
        env_en_label = fst (labels_of doc_type), env_zh_label = snd (labels_of doc_type),
        env_keywords = detect_keywords text_chunks,
        env_total = length text_chunks\<rparr>
       (enumerate 0 text_chunks) w"

section \<open>Specification vocabulary\<close>

text \<open>
  The request the translation of a segment makes, the units a segment yields when the
  service answers \<open>r\<close>, and what a segment adds to the trace.
\<close>

definition units_for :: "chunk_env \<Rightarrow> world \<Rightarrow> (nat \<times> ustring) \<times> ustring http_reply \<Rightarrow> vigo_chunk list" where
  "units_for env w x =
     (case x of ((i, chunk_text), r) \<Rightarrow>
        en_unit env w i chunk_text #
          (if accepted (chat_result r) then [zh_unit env w i (the (chat_result r))] else []))"

definition segment_events :: "nat \<times> ustring \<Rightarrow> event list" where
  "segment_events ic = [chat_event (translate_prompt (snd ic)) 800 2, EvSleep 1000]"

definition env_of :: "ustring \<Rightarrow> ustring list \<Rightarrow> ustring \<Rightarrow> chunk_env" where
  "env_of ref text_chunks doc_type =
     \<lparr>env_ref = ref, env_type = doc_type,
      env_official_url = build_official_url ref doc_type,
      env_en_label = fst (labels_of doc_type), env_zh_label = snd (labels_of doc_type),
      env_keywords = detect_keywords text_chunks,
      env_total = length text_chunks\<rparr>"

definition is_en :: "vigo_chunk \<Rightarrow> bool" where
  "is_en u \<longleftrightarrow> chunk_lang u = U ''EN''"

text \<open>A world in which the service translates the first segment and fails on the second.\<close>

definition sample_world :: world where
  "sample_world = \<lparr>chat_script = [Response 200 (Some (replicate 81 0x4E2D)), Response 500 None],
         embed_script = [], fetch_script = [], store_script = [], today = U ''2026-01-15'', trace = []\<rparr>"

section \<open>The loop body\<close>

lemma accepted_iff: "accepted z \<longleftrightarrow> (\<exists>t. z = Some t \<and> 80 < length t)"
  by (auto simp: accepted_def split: option.splits)

lemma base_meta_frame [simp, frame_simps]:
  "base_meta env (w\<lparr>chat_script := s\<rparr>) = base_meta env w"
  "base_meta env (w\<lparr>embed_script := es\<rparr>) = base_meta env w"
  "base_meta env (w\<lparr>fetch_script := fs\<rparr>) = base_meta env w"
  "base_meta env (w\<lparr>store_script := ss\<rparr>) = base_meta env w"
  "base_meta env (w\<lparr>trace := t\<rparr>) = base_meta env w"
  by (simp_all add: base_meta_def)

lemma unit_frame [simp, frame_simps]:
  "en_unit env (w\<lparr>chat_script := s\<rparr>) = en_unit env w"
  "en_unit env (w\<lparr>embed_script := es\<rparr>) = en_unit env w"
  "en_unit env (w\<lparr>fetch_script := fs\<rparr>) = en_unit env w"
  "en_unit env (w\<lparr>store_script := ss\<rparr>) = en_unit env w"
  "en_unit env (w\<lparr>trace := t\<rparr>) = en_unit env w"
  "zh_unit env (w\<lparr>chat_script := s\<rparr>) = zh_unit env w"
  "zh_unit env (w\<lparr>embed_script := es\<rparr>) = zh_unit env w"
  "zh_unit env (w\<lparr>fetch_script := fs\<rparr>) = zh_unit env w"
  "zh_unit env (w\<lparr>store_script := ss\<rparr>) = zh_unit env w"
  "zh_unit env (w\<lparr>trace := t\<rparr>) = zh_unit env w"
  by (simp_all add: en_unit_def zh_unit_def fun_eq_iff)

lemma units_for_frame [simp, frame_simps]:
  "units_for env (w\<lparr>chat_script := s\<rparr>) = units_for env w"
  "units_for env (w\<lparr>embed_script := es\<rparr>) = units_for env w"
  "units_for env (w\<lparr>fetch_script := fs\<rparr>) = units_for env w"
  "units_for env (w\<lparr>store_script := ss\<rparr>) = units_for env w"
  "units_for env (w\<lparr>trace := t\<rparr>) = units_for env w"
  by (simp_all add: units_for_def fun_eq_iff)

lemma translate_to_chinese_eq:
  "translate_to_chinese text w =
     (chat_result (reply_of (chat_script w)),
      w\<lparr>chat_script := tl (chat_script w),
        trace := trace w @ [chat_event (translate_prompt text) 800 2]\<rparr>)"
  by (simp add: translate_to_chinese_def deepseek_chat_eq)

lemma expand_one_eq:
  "expand_one env ic w =
     (units_for env w (ic, reply_of (chat_script w)),
      w\<lparr>chat_script := tl (chat_script w), trace := trace w @ segment_events ic\<rparr>)"
  by (cases ic)
     (simp add: expand_one_def translate_to_chinese_eq units_for_def segment_events_def sleep_eq)

section \<open>The loop\<close>

lemma expand_chunks_eq:
  "expand_chunks env ics w =
     (concat (map (units_for env w) (zip ics (replies (length ics) (chat_script w)))),
      w\<lparr>chat_script := drop (length ics) (chat_script w),
        trace := trace w @ concat (map segment_events ics)\<rparr>)"
proof (induction ics arbitrary: w)
  case (Cons ic ics)
  then show ?case
    by (simp add: expand_one_eq replies_Suc drop_Suc tl_drop)
qed simp

lemma create_bilingual_chunks_eq:
  "create_bilingual_chunks ref text_chunks doc_type source_url w =
     expand_chunks (env_of ref text_chunks doc_type) (enumerate 0 text_chunks) w"
  by (simp add: create_bilingual_chunks_def env_of_def)


section \<open>Units of a document\<close>

lemma is_en_units [simp]: "is_en (en_unit env w i c)" "\<not> is_en (zh_unit env w i t)"
  by (simp_all add: is_en_def en_unit_def zh_unit_def)

lemma filter_is_en_units_for:
  "filter is_en (units_for env w x) = [en_unit env w (fst (fst x)) (snd (fst x))]"
  by (cases x) (auto simp: units_for_def)

lemma length_units_for:
  "length (units_for env w x) = (if accepted (chat_result (snd x)) then 2 else 1)"
  by (cases x) (auto simp: units_for_def)

lemma set_units_for:
  "set (units_for env w x) =
     insert (en_unit env w (fst (fst x)) (snd (fst x)))
       (if accepted (chat_result (snd x))
        then {zh_unit env w (fst (fst x)) (the (chat_result (snd x)))} else {})"
  by (cases x) (auto simp: units_for_def)

lemma concat_segment_events:
  "concat (map segment_events (enumerate k cs)) =
     concat (map (\<lambda>c. [chat_event (translate_prompt c) 800 2, EvSleep 1000]) cs)"
  by (induction cs arbitrary: k) (simp_all add: segment_events_def)

text \<open>C9 (create_bilingual_chunks_units). The units \<^verbatim>\<open>create_bilingual_chunks\<close> returns are those of its segments, in order, each with the reply its translation request got: the loop that threads the world is a map over the segments paired with the next replies of the chat service.\<close>

theorem create_bilingual_chunks_units:
  "fst (create_bilingual_chunks ref text_chunks doc_type source_url w) =
     concat (map (units_for (env_of ref text_chunks doc_type) w)
       (zip (enumerate 0 text_chunks) (replies (length text_chunks) (chat_script w))))"
  by (simp add: create_bilingual_chunks_eq expand_chunks_eq)

text \<open>C4 (create_bilingual_chunks_world). Expanding a document makes, for each segment in order, one translation request (its prompt built from the segment, 800 tokens, temperature 0.2) followed by a sleep of one second, consumes one reply per segment and does nothing else: two translation requests are never made without the pause between them, and the pause follows the last request too.\<close>

theorem create_bilingual_chunks_world:
  "snd (create_bilingual_chunks ref text_chunks doc_type source_url w) =
     w\<lparr>chat_script := drop (length text_chunks) (chat_script w),
       trace := trace w @
         concat (map (\<lambda>c. [chat_event (translate_prompt c) 800 2, EvSleep 1000]) text_chunks)\<rparr>"
  by (simp add: create_bilingual_chunks_eq expand_chunks_eq concat_segment_events)

lemma filter_is_en_concat:
  "length ics = length rs \<Longrightarrow>
   filter is_en (concat (map (units_for env w) (zip ics rs))) =
     map (\<lambda>(i, c). en_unit env w i c) ics"
  by (induction ics rs rule: list_induct2) (simp_all add: filter_is_en_units_for case_prod_unfold)

text \<open>The English units of a document are exactly one per segment, in the order of the segments, whatever the translation service answers.\<close>

theorem english_units:
  "filter is_en (fst (create_bilingual_chunks ref text_chunks doc_type source_url w)) =
     map (\<lambda>(i, c). en_unit (env_of ref text_chunks doc_type) w i c) (enumerate 0 text_chunks)"
  by (simp add: create_bilingual_chunks_eq expand_chunks_eq filter_is_en_concat)

lemma accepted_simps [simp]: "\<not> accepted None" "accepted (Some t) \<longleftrightarrow> 80 < length t"
  by (auto simp: accepted_def)

lemma count_units:
  "length ics = length rs \<Longrightarrow>
   length (concat (map (units_for env w) (zip ics rs))) =
     length ics + length (filter (\<lambda>r. accepted (chat_result r)) rs)"
  by (induction ics rs rule: list_induct2) (simp_all add: length_units_for)

lemma filter_replies:
  "\<not> P Failure \<Longrightarrow> filter P (replies n script) = filter P (take n script)"
  by (simp add: replies_def)

text \<open>A document of \<open>n\<close> segments yields \<open>n\<close> units plus one for every accepted answer among the first \<open>n\<close> replies of the translation service.\<close>

theorem unit_count:
  "length (fst (create_bilingual_chunks ref text_chunks doc_type source_url w)) =
     length text_chunks +
     length (filter (\<lambda>r. accepted (chat_result r)) (take (length text_chunks) (chat_script w)))"
  by (simp add: create_bilingual_chunks_eq expand_chunks_eq count_units filter_replies)

lemma units_bounds:
  "length text_chunks \<le> length (fst (create_bilingual_chunks ref text_chunks doc_type source_url w))"
  "length (fst (create_bilingual_chunks ref text_chunks doc_type source_url w)) \<le> 2 * length text_chunks"
proof -
  have "length (filter P (take n xs)) \<le> n" for P n and xs :: "ustring http_reply list"
    by (rule order_trans [OF length_filter_le]) simp
  then show "length (fst (create_bilingual_chunks ref text_chunks doc_type source_url w)) \<le> 2 * length text_chunks"
    by (simp add: create_bilingual_chunks_eq expand_chunks_eq count_units filter_replies)
qed (simp add: create_bilingual_chunks_eq expand_chunks_eq count_units)

lemma in_units_cases:
  assumes "u \<in> set (fst (create_bilingual_chunks ref text_chunks doc_type source_url w))"
  obtains i where "i < length text_chunks"
    and "u = en_unit (env_of ref text_chunks doc_type) w i (text_chunks ! i)"
  | i t where "i < length text_chunks" and "80 < length t"
    and "u = zh_unit (env_of ref text_chunks doc_type) w i t"
proof -
  let ?ics = "enumerate 0 text_chunks"
  let ?rs = "replies (length text_chunks) (chat_script w)"
  from assms obtain x where x: "x \<in> set (zip ?ics ?rs)"
    and u: "u \<in> set (units_for (env_of ref text_chunks doc_type) w x)"
    by (auto simp: create_bilingual_chunks_eq expand_chunks_eq)
  from x have "fst x \<in> set ?ics" by (metis prod.collapse set_zip_leftD)
  then have i: "fst (fst x) < length text_chunks" "snd (fst x) = text_chunks ! fst (fst x)"
    by (auto simp: in_set_enumerate_eq)
  from u consider "u = en_unit (env_of ref text_chunks doc_type) w (fst (fst x)) (snd (fst x))"
    | "accepted (chat_result (snd x))"
      "u = zh_unit (env_of ref text_chunks doc_type) w (fst (fst x)) (the (chat_result (snd x)))"
    by (auto simp: set_units_for split: if_splits)
  then show thesis
  proof cases
    case 1
    with i that(1) show ?thesis by simp
  next
    case 2
    from 2(1) obtain t where "chat_result (snd x) = Some t" "80 < length t"
      by (auto simp: accepted_iff)
    with 2(2) i that(2) show ?thesis by simp
  qed
qed

text \<open>C31 (units_metadata). Every unit of a document carries the same base metadata (source, link, type, category, reference, table, keywords, date, extraction tag); units differ in the language only, which is \<open>en\<close> for a unit tagged \<open>EN\<close> and \<open>zh\<close> for one tagged \<open>ZH\<close>.\<close>

theorem units_metadata:
  assumes "u \<in> set (fst (create_bilingual_chunks ref text_chunks doc_type source_url w))"
  shows "base_metadata.truncate (chunk_metadata u) = base_meta (env_of ref text_chunks doc_type) w
       \<and> (m_language (chunk_metadata u), chunk_lang u) \<in> {(U ''en'', U ''EN''), (U ''zh'', U ''ZH'')}"
  using assms
  by (rule in_units_cases)
     (simp_all add: en_unit_def zh_unit_def with_language_def base_metadata.truncate_def
        base_metadata.extend_def metadata.fields_def)

theorem units_metadata_witness:
  "base_metadata.truncate (chunk_metadata
       (hd (fst (create_bilingual_chunks (U ''26EC1'') [U ''abc''] (U ''circular'') [] sample_world)))) =
     base_meta (env_of (U ''26EC1'') [U ''abc''] (U ''circular'')) sample_world
   \<and> (m_language (chunk_metadata
          (hd (fst (create_bilingual_chunks (U ''26EC1'') [U ''abc''] (U ''circular'') [] sample_world)))),
        chunk_lang (hd (fst (create_bilingual_chunks (U ''26EC1'') [U ''abc''] (U ''circular'') [] sample_world))))
       \<in> {(U ''en'', U ''EN''), (U ''zh'', U ''ZH'')}"
proof -
  let ?us = "fst (create_bilingual_chunks (U ''26EC1'') [U ''abc''] (U ''circular'') [] sample_world)"
  have "1 \<le> length ?us" using units_bounds(1) [of "[U ''abc'']"] by simp
  then have "hd ?us \<in> set ?us" by (intro hd_in_set) auto
  then show ?thesis by (rule units_metadata)
qed

text \<open>C5 (expand_one_units). One segment yields the English unit and, exactly when the service answers with status 200 and a text of more than 80 code points after stripping, the Chinese unit built from the stripped answer; a failed request, another status, an answer without content and a short answer all yield the English unit alone.\<close>

theorem expand_one_units:
  "fst (expand_one env (i, chunk_text) w) =
     (case reply_of (chat_script w) of
        Response code (Some s) \<Rightarrow>
          if code = 200 \<and> 80 < length (strip s)
          then [en_unit env w i chunk_text, zh_unit env w i (strip s)]
          else [en_unit env w i chunk_text]
      | Response code None \<Rightarrow> [en_unit env w i chunk_text]
      | Failure \<Rightarrow> [en_unit env w i chunk_text])"
  by (auto simp: expand_one_eq units_for_def chat_result_def
      split: http_reply.splits option.splits)

lemma strip_replicate_Han: "strip (replicate n 0x4E2D) = replicate n 0x4E2D"
  by (cases n) (simp_all add: strip_id is_space_def)

text \<open>A translation of exactly 80 code points is dropped: the floor of the source is \<^verbatim>\<open>len > 80\<close>, so the shortest accepted translation has 81.\<close>

theorem translation_of_80_dropped:
  "fst (expand_one env (i, chunk_text)
        (w\<lparr>chat_script := [Response 200 (Some (replicate 80 0x4E2D))]\<rparr>)) =
     [en_unit env w i chunk_text]"
  by (simp add: expand_one_eq units_for_def strip_replicate_Han)

lemma unit_content_type:
  assumes "u \<in> set (fst (create_bilingual_chunks ref text_chunks doc_type source_url w))"
  shows "m_content_type (chunk_metadata u) =
      (if 1 < length text_chunks then U ''pdf_extract'' else U ''html'')"
  using assms
  by (rule in_units_cases)
     (simp_all add: en_unit_def zh_unit_def with_language_def base_meta_def env_of_def
        base_metadata.extend_def metadata.fields_def del: U_inject)

text \<open>The extraction tag of every unit is \<^verbatim>\<open>pdf_extract\<close> when the document has more than one segment and \<^verbatim>\<open>html\<close> otherwise: it is computed from the number of segments, not from how the text was extracted.\<close>

theorem content_type_by_count:
  "map (\<lambda>u. m_content_type (chunk_metadata u))
       (fst (create_bilingual_chunks ref text_chunks doc_type source_url w)) =
     replicate (length (fst (create_bilingual_chunks ref text_chunks doc_type source_url w)))
       (if 1 < length text_chunks then U ''pdf_extract'' else U ''html'')"
  by (rule map_const_replicate) (rule unit_content_type)

lemma length_english_units:
  "length (filter is_en (fst (create_bilingual_chunks ref text_chunks doc_type source_url w))) =
     length text_chunks"
  by (simp add: create_bilingual_chunks_eq expand_chunks_eq filter_is_en_concat)

lemma slept_segment_events [simp]: "slept (concat (map segment_events ics)) = 1000 * length ics"
  by (induction ics) (simp_all add: segment_events_def chat_event_def)

lemma create_bilingual_chunks_slept:
  "slept (trace (snd (create_bilingual_chunks ref text_chunks doc_type source_url w))) =
     slept (trace w) + 1000 * length text_chunks"
  by (simp add: create_bilingual_chunks_eq expand_chunks_eq)

lemma create_bilingual_chunks_frame [simp, frame_simps]:
  "today (snd (create_bilingual_chunks ref text_chunks doc_type source_url w)) = today w"
  "embed_script (snd (create_bilingual_chunks ref text_chunks doc_type source_url w)) = embed_script w"
  "fetch_script (snd (create_bilingual_chunks ref text_chunks doc_type source_url w)) = fetch_script w"
  "store_script (snd (create_bilingual_chunks ref text_chunks doc_type source_url w)) = store_script w"
  by (simp_all add: create_bilingual_chunks_eq expand_chunks_eq)

lemma create_bilingual_chunks_source_url:
  "create_bilingual_chunks ref text_chunks doc_type source_url w =
   create_bilingual_chunks ref text_chunks doc_type source_url' w"
  by (simp add: create_bilingual_chunks_def)

lemma translate_prompt_take: "translate_prompt (take 3500 text) = translate_prompt text"
  by (simp add: translate_prompt_def)

text \<open>The translation prompt holds the 93 code points of the instructions and at most the first 3500 of the segment.\<close>

theorem translate_prompt_length:
  "length (translate_prompt text) = 93 + min 3500 (length text)"
  by (simp add: translate_prompt_def TRANSLATE_HEAD_def TRANSLATE_TAIL_def)

lemma units_lang:
  assumes "u \<in> set (fst (create_bilingual_chunks ref text_chunks doc_type source_url w))"
  shows "chunk_lang u \<in> {U ''EN'', U ''ZH''}"
  using assms by (rule in_units_cases) (simp_all add: en_unit_def zh_unit_def)

section \<open>Effects\<close>

lemma kind_of_segment_events: "e \<in> set (segment_events ic) \<Longrightarrow> kind_of e \<in> {KChat, KSleep}"
  by (auto simp: segment_events_def chat_event_def)

lemma effects_create_bilingual_chunks:
  assumes "KChat \<in> set ks" "KSleep \<in> set ks"
  shows "effects ks w (snd (create_bilingual_chunks ref text_chunks doc_type source_url w))"
  using assms
  by (intro effectsI [where es = "concat (map segment_events (enumerate 0 text_chunks))"])
     (auto simp: create_bilingual_chunks_eq expand_chunks_eq dest!: kind_of_segment_events)

end
