(* ===== verification/Backup.thy ===== *)
theory Backup
  imports Bilingual
begin

text \<open>
  The backup: \<^verbatim>\<open>save_backup\<close> (lines 576-588 of \<^verbatim>\<open>src/auto_collect_upload.py\<close>).

  The function renders every unit as a section (title, body, a dump of the metadata),
  joins the sections by blank lines and writes the text to a file. \<open>backup_section\<close> is
  the body of the loop and \<open>backup_text\<close> the text written; the write is an event of
  the trace (\<open>EvWrite\<close>), and it is taken to succeed. \<open>meta_dump\<close> lists the keys of the
  metadata in the order the dictionary got them, \<^verbatim>\<open>language\<close> last, without the one
  key whose value is a list; the keywords follow on a line of their own when there are
  any. \<open>remove_cp c\<close> is \<^verbatim>\<open>str.replace(c, '')\<close> for a single code point.
\<close>

section \<open>\<^verbatim>\<open>save_backup\<close> (lines 576-588)\<close>

definition meta_entry :: "ustring \<Rightarrow> ustring \<Rightarrow> ustring" where
  "meta_entry k v = k @ U '': '' @ v"

definition meta_dump :: "metadata \<Rightarrow> ustring" where
  "meta_dump m =
     join [NL]
       [meta_entry (U ''source'') (m_source m),
        meta_entry (U ''source_url'') (m_source_url m),
        meta_entry (U ''doc_type'') (m_doc_type m),
        meta_entry (U ''category'') (m_category m),
        meta_entry (U ''ref_no'') (m_ref_no m),
        meta_entry (U ''source_table'') (m_source_table m),
        meta_entry (U ''collected_date'') (m_collected_date m),
        meta_entry (U ''content_type'') (m_content_type m),
        meta_entry (U ''language'') (m_language m)]
     @ (if m_keywords m \<noteq> []
        then [NL] @ U ''keywords: '' @ join (U '', '') (m_keywords m) else [])"

definition remove_cp :: "codepoint \<Rightarrow> ustring \<Rightarrow> ustring" where
  "remove_cp c s = filter (\<lambda>x. x \<noteq> c) s"

definition backup_title :: "ustring \<Rightarrow> ustring" where
  "backup_title content = remove_cp 0x3011 (remove_cp 0x3010 (hd (split_on [NL] content)))"

definition backup_body :: "ustring \<Rightarrow> ustring" where
  "backup_body content = join [NL] (drop 2 (split_on [NL] content))"

definition backup_section :: "vigo_chunk \<Rightarrow> ustring" where
  "backup_section c =
     U ''===SECTION==='' @ [NL] @
     [0x3010, 0x6A19, 0x984C, 0x3011] @ backup_title (chunk_content c) @ [NL] @
     [0x3010, 0x5167, 0x5BB9, 0x3011] @ [NL] @ backup_body (chunk_content c) @ [NL] @
     [0x3010, 0x5143, 0x6578, 0x64DA, 0x3011] @ [NL] @ meta_dump (chunk_metadata c) @ [NL] @
     U ''===END===''"

definition backup_text :: "vigo_chunk list \<Rightarrow> ustring" where
  "backup_text vigo_chunks = join NLNL (map backup_section vigo_chunks)"

definition save_backup :: "vigo_chunk list \<Rightarrow> ustring \<Rightarrow> world \<Rightarrow> world" where
  "save_backup vigo_chunks filename w = log (EvWrite filename (backup_text vigo_chunks)) w"

section \<open>Specification vocabulary\<close>

text \<open>The files a trace writes, with their text, in order.\<close>

definition writes :: "event list \<Rightarrow> (ustring \<times> ustring) list" where
  "writes es = concat (map (\<lambda>e. case e of EvWrite f t \<Rightarrow> [(f, t)] | _ \<Rightarrow> []) es)"

section \<open>Traces\<close>

lemma writes_simps [simp]:
  "writes [] = []"
  "writes (es @ fs) = writes es @ writes fs"
  "writes (EvWrite fname body # es) = (fname, body) # writes es"
  "writes (EvSleep ms # es) = writes es"
  "writes (EvChat c # es) = writes es"
  "writes (EvEmbed t # es) = writes es"
  "writes (EvFetch url # es) = writes es"
  "writes (EvInsert ct md v # es) = writes es"
  "writes (EvQuestion q # es) = writes es"
  by (simp_all add: writes_def)

lemma save_backup_eq:
  "save_backup vigo_chunks filename w =
     w\<lparr>trace := trace w @ [EvWrite filename (backup_text vigo_chunks)]\<rparr>"
  by (simp add: save_backup_def log_def)

section \<open>What a section keeps of a unit\<close>

lemma split_on_header:
  assumes "NL \<notin> set h"
  shows "split_on [NL] (h @ NL # NL # rest) = h # [] # split_on [NL] rest"
proof -
  have "split_on [NL] (h @ NL # NL # rest) = map_hd ((@) h) (split_on [NL] ([NL] @ [NL] @ rest))"
    using split_on_skip [of "[NL]" h "NLNL @ rest"] assms by simp
  also have "split_on [NL] ([NL] @ [NL] @ rest) = [] # split_on [NL] ([NL] @ rest)"
    by (rule split_on_sep) simp
  also have "split_on [NL] ([NL] @ rest) = [] # split_on [NL] rest"
    by (rule split_on_sep) simp
  finally show ?thesis by simp
qed

lemma backup_body_header: "NL \<notin> set h \<Longrightarrow> backup_body (h @ NLNL @ rest) = rest"
  by (simp add: backup_body_def split_on_header join_split_on)

lemma backup_title_header:
  "NL \<notin> set h \<Longrightarrow> backup_title (h @ NLNL @ rest) = remove_cp 0x3011 (remove_cp 0x3010 h)"
  by (simp add: backup_title_def split_on_header)

lemma NL_notin_str_nat: "NL \<notin> set (str_nat n)"
  using str_nat_digits [of NL n] by auto

lemma NL_notin_part_label: "NL \<notin> set (part_label i n)"
  by (simp add: part_label_def NL_notin_str_nat U_def)

lemma unit_header_split:
  "unit_header env label i @ body =
     ([0x3010] @ U ''SFC '' @ label @ part_label i (env_total env) @ [0x20, EM_DASH, 0x20] @
      env_ref env @ [0x3011]) @ NLNL @ body"
  by (simp add: unit_header_def)

lemma backup_body_unit:
  assumes "NL \<notin> set label" "NL \<notin> set (env_ref env)"
  shows "backup_body (unit_header env label i @ body) = body"
  unfolding unit_header_split
  by (rule backup_body_header) (simp add: assms NL_notin_part_label EM_DASH_def U_def)

section \<open>Effects\<close>

lemma effects_save_backup: "KWrite \<in> set ks \<Longrightarrow> effects ks w (save_backup vigo_chunks filename w)"
  by (rule effectsI [where es = "[EvWrite filename (backup_text vigo_chunks)]"])
     (simp_all add: save_backup_eq)

section \<open>The backup keeps the text of a unit\<close>

text \<open>C36 (backup_keeps_body). The section of an English unit keeps its text: when the label and the reference hold no line feed, the body of the section is the unit's content behind its header, that is the segment and the provenance footer, whatever line feeds the segment holds.\<close>

theorem backup_keeps_body:
  assumes "NL \<notin> set (env_en_label env)" "NL \<notin> set (env_ref env)"
  shows "unit_header env (env_en_label env) i @ backup_body (en_content env i chunk_text) =
         en_content env i chunk_text"
  using backup_body_unit [OF assms] by (simp add: en_content_def)

theorem backup_keeps_body_witness:
  "unit_header (env_of (U ''26EC1'') [U ''abc''] (U ''circular'')) (U ''Circular'') 0 @
     backup_body (en_content (env_of (U ''26EC1'') [U ''abc''] (U ''circular'')) 0 (U ''abc'')) =
   en_content (env_of (U ''26EC1'') [U ''abc''] (U ''circular'')) 0 (U ''abc'')"
  using backup_keeps_body [of "env_of (U ''26EC1'') [U ''abc''] (U ''circular'')" 0 "U ''abc''"]
  by (simp add: env_of_def labels_of_def type_labels_def U_def)

end
