(* ===== verification/Embedder.thy ===== *)
theory Embedder
  imports Collaborators
begin

text \<open>
  The Embedder: \<^verbatim>\<open>generate_embedding\<close> (lines 249-268 of
  \<^verbatim>\<open>src/auto_collect_upload.py\<close>), the one operation of the collector that retries.

  The loop \<^verbatim>\<open>for attempt in range(3)\<close> is \<open>embed_attempts\<close>, a recursion over the
  attempts that are left. A reply with status 200 whose body does not hold the vector
  raises inside the \<^verbatim>\<open>try\<close> block, so it takes the branch of the exception. The vector
  is a list of numbers the collector never reads; integers stand for the floats.

  The lemmas show which reply decides the result (\<open>embed_outcome\<close>), that at most three
  requests are made, each with the first 8000 code points of the text, and how long the
  operation sleeps.
\<close>

section \<open>\<^verbatim>\<open>generate_embedding\<close> (lines 249-268)\<close>

definition post_embedding :: "ustring \<Rightarrow> world \<Rightarrow> embedding http_reply \<times> world" where
  "post_embedding text w =
     (reply_of (embed_script w),
      w\<lparr>embed_script := tl (embed_script w), trace := trace w @ [EvEmbed text]\<rparr>)"

fun embed_attempts :: "nat list \<Rightarrow> ustring \<Rightarrow> world \<Rightarrow> embedding option \<times> world" where
  "embed_attempts [] text w = (None, w)"
| "embed_attempts (attempt # rest) text w =
     (case post_embedding text w of
        (Response code body, w1) \<Rightarrow>
          if code = 200 then
            (case body of
               Some v \<Rightarrow> (Some v, w1)
             | None \<Rightarrow> embed_attempts rest text (if attempt < 2 then sleep 2000 w1 else w1))
          else if code \<in> set [429, 500, 502, 503]
          then embed_attempts rest text (sleep (1000 * min (2 ^ attempt) 8) w1)
          else (None, w1)
      | (Failure, w1) \<Rightarrow>
          embed_attempts rest text (if attempt < 2 then sleep 2000 w1 else w1))"

definition generate_embedding :: "ustring \<Rightarrow> world \<Rightarrow> embedding option \<times> world" where
  "generate_embedding text w = embed_attempts [0..<3] (take 8000 text) w"

section \<open>Specification vocabulary\<close>

text \<open>
  A reply after which the loop goes on, the result the first other reply gives, and the
  embedding requests of a trace.
\<close>

definition retryable :: "embedding http_reply \<Rightarrow> bool" where
  "retryable r \<longleftrightarrow>
     (case r of
        Failure \<Rightarrow> True
      | Response code body \<Rightarrow>
          (if code = 200 then body = None else code \<in> set [429, 500, 502, 503]))"

definition embed_outcome :: "embedding http_reply list \<Rightarrow> embedding option" where
  "embed_outcome rs =
     (case dropWhile retryable rs of
        Response code (Some v) # _ \<Rightarrow> if code = 200 then Some v else None
      | _ \<Rightarrow> None)"

definition embed_requests :: "event list \<Rightarrow> ustring list" where
  "embed_requests es = concat (map (\<lambda>e. case e of EvEmbed t \<Rightarrow> [t] | _ \<Rightarrow> []) es)"

text \<open>The longest sleep that can follow attempt \<open>a\<close>.\<close>

definition attempt_budget :: "nat \<Rightarrow> nat" where
  "attempt_budget a = max (1000 * min (2 ^ a) 8) (if a < 2 then 2000 else 0)"

definition busy_world :: world where
  "busy_world =
     \<lparr>chat_script = [], embed_script = [Response 429 None, Response 429 None, Response 429 None],
      fetch_script = [], store_script = [],
      today = U ''2026-01-15'', trace = []\<rparr>"

section \<open>Traces\<close>

lemma embed_requests_simps [simp]:
  "embed_requests [] = []"
  "embed_requests (es @ fs) = embed_requests es @ embed_requests fs"
  "embed_requests (EvEmbed t # es) = t # embed_requests es"
  "embed_requests (EvSleep ms # es) = embed_requests es"
  "embed_requests (EvChat c # es) = embed_requests es"
  "embed_requests (EvFetch url # es) = embed_requests es"
  "embed_requests (EvWrite fname body # es) = embed_requests es"
  "embed_requests (EvInsert ct md v # es) = embed_requests es"
  "embed_requests (EvQuestion q # es) = embed_requests es"
  by (simp_all add: embed_requests_def)

section \<open>The retry loop\<close>

lemma embed_outcome_simps [simp]:
  "embed_outcome [] = None"
  "retryable r \<Longrightarrow> embed_outcome (r # rs) = embed_outcome rs"
  "embed_outcome (Response 200 (Some v) # rs) = Some v"
  "\<not> retryable r \<Longrightarrow> (\<forall>v. r \<noteq> Response 200 (Some v)) \<Longrightarrow> embed_outcome (r # rs) = None"
  by (auto simp: embed_outcome_def retryable_def split: http_reply.splits option.splits list.splits)

lemma embed_attempts_result:
  "fst (embed_attempts atts text w) = embed_outcome (replies (length atts) (embed_script w))"
proof (induction atts arbitrary: w)
  case (Cons a atts)
  show ?case
    by (cases "reply_of (embed_script w)")
       (auto simp: post_embedding_def replies_Suc Cons embed_outcome_def retryable_def sleep_eq
          split: option.splits)
qed simp

lemma embed_attempts_requests:
  "embed_requests (trace (snd (embed_attempts atts text w))) =
     embed_requests (trace w) @
     replicate (min (length atts)
         (Suc (length (takeWhile retryable (replies (length atts) (embed_script w)))))) text"
proof (induction atts arbitrary: w)
  case (Cons a atts)
  show ?case
    by (cases "reply_of (embed_script w)")
       (auto simp: post_embedding_def replies_Suc Cons retryable_def sleep_eq
          replicate_append_same split: option.splits)
qed simp

lemma embed_attempts_script:
  "embed_script (snd (embed_attempts atts text w)) =
     drop (min (length atts)
         (Suc (length (takeWhile retryable (replies (length atts) (embed_script w))))))
       (embed_script w)"
proof (induction atts arbitrary: w)
  case (Cons a atts)
  show ?case
    by (cases "reply_of (embed_script w)")
       (auto simp: post_embedding_def replies_Suc Cons retryable_def sleep_eq drop_Suc tl_drop
          split: option.splits)
qed simp

lemma embed_attempts_frame [simp, frame_simps]:
  "chat_script (snd (embed_attempts atts text w)) = chat_script w"
  "fetch_script (snd (embed_attempts atts text w)) = fetch_script w"
  "store_script (snd (embed_attempts atts text w)) = store_script w"
  "today (snd (embed_attempts atts text w)) = today w"
proof (induction atts arbitrary: w)
  case (Cons a atts)
  {
    case 1 show ?case
      by (cases "reply_of (embed_script w)")
         (auto simp: post_embedding_def Cons sleep_eq split: option.splits)
  next
    case 2 show ?case
      by (cases "reply_of (embed_script w)")
         (auto simp: post_embedding_def Cons sleep_eq split: option.splits)
  next
    case 3 show ?case
      by (cases "reply_of (embed_script w)")
         (auto simp: post_embedding_def Cons sleep_eq split: option.splits)
  next
    case 4 show ?case
      by (cases "reply_of (embed_script w)")
         (auto simp: post_embedding_def Cons sleep_eq split: option.splits)
  }
qed simp_all

lemma upt_3: "[0..<3] = [0, 1, 2]"
  by (simp add: upt_rec)

text \<open>C6 (generate_embedding_result). The embedder returns the vector of the first of its
  three replies that is not retryable, when that reply has status 200 and holds a vector;
  it returns nothing when that reply is an error, and when all three are retryable (a
  status among 429, 500, 502 and 503, a failed request, or a body without the vector).\<close>

theorem generate_embedding_result:
  "fst (generate_embedding text w) = embed_outcome (replies 3 (embed_script w))"
  by (simp add: generate_embedding_def embed_attempts_result)

text \<open>C23 (generate_embedding_requests). The embedder makes between one and three requests:
  one more than the retryable replies it gets, and never more than three. Every request
  carries the first 8000 code points of the text.\<close>

theorem generate_embedding_requests:
  "embed_requests (trace (snd (generate_embedding text w))) =
     embed_requests (trace w) @
     replicate (min 3 (Suc (length (takeWhile retryable (replies 3 (embed_script w))))))
       (take 8000 text)"
  by (simp add: generate_embedding_def embed_attempts_requests)

lemma embed_attempts_slept:
  "slept (trace (snd (embed_attempts atts text w))) \<le>
     slept (trace w) + sum_list (map attempt_budget atts)"
proof (induction atts arbitrary: w)
  case (Cons a atts)
  have budget: "1000 * min (2 ^ a) 8 \<le> attempt_budget a" "a < 2 \<Longrightarrow> 2000 \<le> attempt_budget a"
    by (simp_all add: attempt_budget_def)
  note step = order_trans [OF Cons]
  show ?case
    using budget
    by (cases "reply_of (embed_script w)")
       (auto simp: post_embedding_def sleep_eq split: option.splits intro!: step)
qed simp

text \<open>One call of the embedder sleeps eight seconds at most.\<close>

theorem generate_embedding_slept:
  "slept (trace (snd (generate_embedding text w))) \<le> slept (trace w) + 8000"
  using embed_attempts_slept [of "[0, 1, 2]" "take 8000 text" w]
  by (simp add: generate_embedding_def upt_3 attempt_budget_def)

lemma generate_embedding_slept_tight:
  "slept (trace (snd (generate_embedding text
      (busy_world\<lparr>embed_script := [Failure, Failure, Response 429 None]\<rparr>)))) = 8000"
  by (simp add: generate_embedding_def upt_3 busy_world_def post_embedding_def sleep_eq)

text \<open>When the service answers 429 three times the embedder
  sleeps one, two and four seconds, the last of them after the final attempt, and
  returns nothing.\<close>

theorem generate_embedding_busy:
  "generate_embedding text busy_world =
     (None,
      busy_world\<lparr>embed_script := [],
        trace := [EvEmbed (take 8000 text), EvSleep 1000, EvEmbed (take 8000 text), EvSleep 2000,
                  EvEmbed (take 8000 text), EvSleep 4000]\<rparr>)"
  by (simp add: generate_embedding_def upt_3 busy_world_def post_embedding_def sleep_eq)

section \<open>Effects\<close>

lemma effects_embed_attempts:
  assumes "KEmbed \<in> set ks" "KSleep \<in> set ks"
  shows "effects ks w v \<Longrightarrow> effects ks w (snd (embed_attempts atts text v))"
proof (induction atts arbitrary: v)
  case (Cons a atts)
  have step: "effects ks w (snd (post_embedding text v))"
    by (rule effects_trans [OF Cons.prems])
       (rule effectsI [where es = "[EvEmbed text]"], simp_all add: post_embedding_def assms)
  show ?case
    by (cases "reply_of (embed_script v)")
       (auto simp: post_embedding_def split: option.splits
          intro!: Cons.IH effects_sleep assms step [unfolded post_embedding_def, simplified])
qed simp

lemma effects_generate_embedding:
  "KEmbed \<in> set ks \<Longrightarrow> KSleep \<in> set ks \<Longrightarrow> effects ks w (snd (generate_embedding text w))"
  by (simp add: generate_embedding_def effects_embed_attempts)

end
