(* ===== verification/Store.thy ===== *)
theory Store
  imports Embedder Bilingual
begin

text \<open>
  The Question Generator and the Store: \<^verbatim>\<open>generate_questions\<close> (lines 289-301),
  \<^verbatim>\<open>upload_chunk\<close> (lines 304-342) and the upload loop of \<^verbatim>\<open>main\<close> (lines 734-750)
  of \<^verbatim>\<open>src/auto_collect_upload.py\<close>.

  \<^verbatim>\<open>upload_chunk\<close> asks the embedder for the vector, inserts the unit, asks the chat
  service for two questions and inserts each of them. Both kinds of insert go to the same
  service and take their replies from \<open>store_script\<close>; the body of a reply to the first
  is the list of the identifiers of the rows it returns (\<open>None\<close> for a row without
  \<^verbatim>\<open>id\<close>), or nothing when the body is not such a list. An identifier is a number,
  and \<open>0\<close> is false as in Python.

  \<^verbatim>\<open>json.loads\<close> is a parameter \<open>loads\<close> of the operations that parse: a function from a
  text to a JSON value, or to nothing where the library raises. The two substitutions
  that remove a Markdown fence are \<open>strip_fence_open\<close> and \<open>strip_fence_close\<close>; the
  comprehension that selects the questions is \<open>keep_questions\<close>, which fails where
  \<^verbatim>\<open>len\<close> raises. Every \<^verbatim>\<open>except\<close> branch is a result \<open>None\<close>.
\<close>

section \<open>Literals\<close>

definition FENCE :: ustring where [lit_defs]:
  "FENCE = [0x60, 0x60, 0x60]"

definition QUESTIONS_ZH_HEAD :: ustring where [lit_defs]:
  "QUESTIONS_ZH_HEAD =
     [0x4F60, 0x662F, 0x9999, 0x6E2F, 0x91D1, 0x878D, 0x5408, 0x898F, 0x5C08, 0x5BB6, 0x3002,
      0x751F, 0x6210, 0x20, 0x32, 0x20, 0x500B, 0x7528, 0x6236, 0x53EF, 0x80FD, 0x554F, 0x7684,
      0x7E41, 0x9AD4, 0x4E2D, 0x6587, 0x554F, 0x984C, 0x3002, 0xA, 0x5167, 0x5BB9, 0xFF1A]"

definition QUESTIONS_ZH_TAIL :: ustring where [lit_defs]:
  "QUESTIONS_ZH_TAIL =
     [0xA, 0x53EA, 0x8FD4, 0x56DE, 0x20, 0x4A, 0x53, 0x4F, 0x4E, 0xFF1A, 0x5B, 0x22, 0x554F,
      0x984C, 0x31, 0xFF1F, 0x22, 0x2C, 0x20, 0x22, 0x554F, 0x984C, 0x32, 0xFF1F, 0x22, 0x5D]"

definition QUESTIONS_EN_HEAD :: ustring where [lit_defs]:
  "QUESTIONS_EN_HEAD =
     U ''You are an HK compliance expert. Generate 2 likely user questions.'' @ [NL] @
     U ''Content: ''"

definition QUESTIONS_EN_TAIL :: ustring where [lit_defs]:
  "QUESTIONS_EN_TAIL =
     [NL] @ U ''Return ONLY JSON: ['' @ [0x22] @ U ''Q1?'' @ [0x22] @ U '', '' @ [0x22] @
     U ''Q2?'' @ [0x22] @ U '']''"

section \<open>Truth value and length of a JSON value\<close>

fun truthy :: "json \<Rightarrow> bool" where
  "truthy JNull = False"
| "truthy (JBool b) = b"
| "truthy (JNum n) = (n \<noteq> 0)"
| "truthy (JStr s) = (s \<noteq> [])"
| "truthy (JArr xs) = (xs \<noteq> [])"
| "truthy (JObj kvs) = (kvs \<noteq> [])"

fun py_len :: "json \<Rightarrow> nat option" where
  "py_len (JStr s) = Some (length s)"
| "py_len (JArr xs) = Some (length xs)"
| "py_len (JObj kvs) = Some (length kvs)"
| "py_len JNull = None"
| "py_len (JBool b) = None"
| "py_len (JNum n) = None"

section \<open>\<^verbatim>\<open>generate_questions\<close> (lines 289-301)\<close>

definition question_prompt :: "ustring \<Rightarrow> ustring \<Rightarrow> ustring" where
  "question_prompt content lang =
     (if lang = U ''zh''
      then QUESTIONS_ZH_HEAD @ take 500 content @ QUESTIONS_ZH_TAIL
      else QUESTIONS_EN_HEAD @ take 500 content @ QUESTIONS_EN_TAIL)"

definition rstrip :: "ustring \<Rightarrow> ustring" where
  "rstrip s = rev (dropWhile is_space (rev s))"

definition strip_fence_open :: "ustring \<Rightarrow> ustring" where
  "strip_fence_open answer =
     (if prefix (FENCE @ U ''json'') answer
      then dropWhile is_space (drop (length (FENCE @ U ''json'')) answer)
      else answer)"

definition strip_fence_close :: "ustring \<Rightarrow> ustring" where
  "strip_fence_close answer =
     (if suffix FENCE answer
      then rstrip (take (length answer - length FENCE) answer)
      else if suffix (FENCE @ [NL]) answer
      then rstrip (take (length answer - length (FENCE @ [NL])) answer) @ [NL]
      else answer)"

fun keep_questions :: "json list \<Rightarrow> json list option" where
  "keep_questions [] = Some []"
| "keep_questions (x # q) =
     (if \<not> truthy x then keep_questions q
      else (case py_len x of
              None \<Rightarrow> None
            | Some n \<Rightarrow>
                (case keep_questions q of
                   None \<Rightarrow> None
                 | Some kept \<Rightarrow> Some (if n \<ge> 5 then x # kept else kept))))"

definition parse_questions :: "(ustring \<Rightarrow> json option) \<Rightarrow> ustring \<Rightarrow> json list option" where
  "parse_questions loads answer =
     (case loads (strip (strip_fence_close (strip_fence_open answer))) of
        None \<Rightarrow> None
      | Some q \<Rightarrow>
          (case q of
             JArr xs \<Rightarrow> map_option (take 2) (keep_questions xs)
           | _ \<Rightarrow> None))"

definition generate_questions ::
  "(ustring \<Rightarrow> json option) \<Rightarrow> ustring \<Rightarrow> ustring \<Rightarrow> world \<Rightarrow> json list option \<times> world" where
  "generate_questions loads content lang w =
     (case deepseek_chat (question_prompt content lang) 150 7 w of (answer, w1) \<Rightarrow>
        ((case answer of
            None \<Rightarrow> None
          | Some a \<Rightarrow> if a = [] then None else parse_questions loads a),
         w1))"

section \<open>\<^verbatim>\<open>upload_chunk\<close> (lines 304-342)\<close>

definition post_insert ::
  "ustring \<Rightarrow> metadata \<Rightarrow> embedding \<Rightarrow> world \<Rightarrow> nat option list http_reply \<times> world" where
  "post_insert content md embedding w =
     (reply_of (store_script w),
      w\<lparr>store_script := tl (store_script w),
        trace := trace w @ [EvInsert content md embedding]\<rparr>)"

definition question_row_of :: "json \<Rightarrow> metadata \<Rightarrow> nat option \<Rightarrow> question_row" where
  "question_row_of q md kid =
     \<lparr>question_text = q,
      q_category = m_category md,
      q_keywords = m_keywords md,
      source_knowledge_id = kid,
      q_source_table = U ''vigo_knowledge'',
      generation_method = U ''auto'',
      is_active = True\<rparr>"

definition post_question :: "question_row \<Rightarrow> world \<Rightarrow> nat option list http_reply \<times> world" where
  "post_question row w =
     (reply_of (store_script w),
      w\<lparr>store_script := tl (store_script w), trace := trace w @ [EvQuestion row]\<rparr>)"

text \<open>The loop over the questions: \<open>False\<close> when a request raises, which ends the loop.\<close>

fun post_questions :: "json list \<Rightarrow> metadata \<Rightarrow> nat option \<Rightarrow> world \<Rightarrow> bool \<times> world" where
  "post_questions [] md kid w = (True, w)"
| "post_questions (q # questions) md kid w =
     (case post_question (question_row_of q md kid) w of
        (Failure, w1) \<Rightarrow> (False, w1)
      | (Response code body, w1) \<Rightarrow> post_questions questions md kid (sleep 200 w1))"

definition upload_chunk ::
  "(ustring \<Rightarrow> json option) \<Rightarrow> ustring \<Rightarrow> metadata \<Rightarrow> world \<Rightarrow> nat option \<times> world" where
  "upload_chunk loads content md w =
     (case generate_embedding content w of (embedding, w1) \<Rightarrow>
        (case embedding of
           None \<Rightarrow> (None, w1)
         | Some v \<Rightarrow>
             if v = [] then (None, w1)
             else (case post_insert content md v w1 of
                     (Failure, w2) \<Rightarrow> (None, w2)
                   | (Response code body, w2) \<Rightarrow>
                       if code \<in> set [200, 201]
                       then (case body of
                               None \<Rightarrow> (None, w2)
                             | Some rows \<Rightarrow>
                                 if rows = [] then (None, w2)
                                 else (case generate_questions loads content (m_language md) w2 of
                                         (questions, w3) \<Rightarrow>
                                           (case questions of
                                              None \<Rightarrow> (hd rows, w3)
                                            | Some qs \<Rightarrow>
                                                (case post_questions qs md (hd rows) w3 of
                                                   (posted, w4) \<Rightarrow>
                                                     (if posted then hd rows else None, w4)))))
                       else (None, w2))))"

section \<open>The upload loop (\<^verbatim>\<open>main\<close>, lines 734-750)\<close>

type_synonym stats = "ustring \<Rightarrow> nat"

definition bump :: "ustring \<Rightarrow> stats \<Rightarrow> stats" where
  "bump k stats = stats(k := stats k + 1)"

definition kid_ok :: "nat option \<Rightarrow> bool" where
  "kid_ok kid \<longleftrightarrow> (case kid of None \<Rightarrow> False | Some k \<Rightarrow> k \<noteq> 0)"

definition upload_one ::
  "(ustring \<Rightarrow> json option) \<Rightarrow> vigo_chunk \<Rightarrow> stats \<Rightarrow> world \<Rightarrow> stats \<times> world" where
  "upload_one loads c stats w =
     (case upload_chunk loads (chunk_content c) (chunk_metadata c) w of (kid, w1) \<Rightarrow>
        (if kid_ok kid then bump (lower (chunk_lang c)) (bump (U ''ok'') stats)
         else bump (U ''fail'') stats,
         sleep 500 w1))"

fun upload_all ::
  "(ustring \<Rightarrow> json option) \<Rightarrow> vigo_chunk list \<Rightarrow> stats \<Rightarrow> world \<Rightarrow> stats \<times> world" where
  "upload_all loads [] stats w = (stats, w)"
| "upload_all loads (c # rest) stats w =
     (case upload_one loads c stats w of (stats1, w1) \<Rightarrow> upload_all loads rest stats1 w1)"

section \<open>Specification vocabulary\<close>

text \<open>
  The inserts and the question rows of a trace; the questions an answer of the chat
  service yields; the text \<^verbatim>\<open>json.loads\<close> is given; the steps of \<^verbatim>\<open>upload_chunk\<close>
  after the row is inserted (\<open>ask_and_post\<close>) and after the vector is there
  (\<open>store_unit\<close>); the units counted as done and by language; a parser, worlds and a
  metadata record for the examples.
\<close>

definition inserts :: "event list \<Rightarrow> (ustring \<times> metadata \<times> embedding) list" where
  "inserts es = concat (map (\<lambda>e. case e of EvInsert c m v \<Rightarrow> [(c, m, v)] | _ \<Rightarrow> []) es)"

definition question_rows :: "event list \<Rightarrow> question_row list" where
  "question_rows es = concat (map (\<lambda>e. case e of EvQuestion q \<Rightarrow> [q] | _ \<Rightarrow> []) es)"

definition questions_of :: "(ustring \<Rightarrow> json option) \<Rightarrow> ustring option \<Rightarrow> json list option" where
  "questions_of loads answer =
     (case answer of None \<Rightarrow> None | Some a \<Rightarrow> if a = [] then None else parse_questions loads a)"

definition payload :: "ustring \<Rightarrow> ustring" where
  "payload answer = strip (strip_fence_close (strip_fence_open answer))"

definition ask_and_post ::
  "(ustring \<Rightarrow> json option) \<Rightarrow> ustring \<Rightarrow> metadata \<Rightarrow> nat option \<Rightarrow> world \<Rightarrow> nat option \<times> world" where
  "ask_and_post loads content md kid w2 =
     (case generate_questions loads content (m_language md) w2 of
        (questions, w3) \<Rightarrow>
          (case questions of
             None \<Rightarrow> (kid, w3)
           | Some qs \<Rightarrow>
               (case post_questions qs md kid w3 of
                  (posted, w4) \<Rightarrow> (if posted then kid else None, w4))))"

definition store_unit ::
  "(ustring \<Rightarrow> json option) \<Rightarrow> ustring \<Rightarrow> metadata \<Rightarrow> embedding \<Rightarrow> world \<Rightarrow> nat option \<times> world" where
  "store_unit loads content md v w1 =
     (case post_insert content md v w1 of
        (Failure, w2) \<Rightarrow> (None, w2)
      | (Response code body, w2) \<Rightarrow>
          if code \<in> set [200, 201]
          then (case body of
                  None \<Rightarrow> (None, w2)
                | Some rows \<Rightarrow>
                    if rows = [] then (None, w2)
                    else ask_and_post loads content md (hd rows) w2)
          else (None, w2))"

text \<open>The kinds of event an upload may add to the trace.\<close>

definition upload_kinds :: "kind list" where
  "upload_kinds = [KEmbed, KInsert, KChat, KQuestion, KSleep]"

definition done_count :: "stats \<Rightarrow> nat" where
  "done_count stats = stats (U ''ok'') + stats (U ''fail'')"

definition lang_count :: "stats \<Rightarrow> nat" where
  "lang_count stats = stats (U ''en'') + stats (U ''zh'')"

definition sample_loads :: "ustring \<Rightarrow> json option" where
  "sample_loads s = (if s = U ''[]'' then Some (JArr []) else
     Some (JArr [JStr (U ''What changed?''), JStr (U ''Who is affected?'')]))"

definition good_world :: world where
  "good_world =
     \<lparr>chat_script = [],
      embed_script = [Response 200 (Some [1, 2])],
      fetch_script = [],
      store_script = [Response 201 (Some [Some 7])],
      today = U ''2026-01-15'', trace = []\<rparr>"

definition flaky_world :: world where
  "flaky_world =
     \<lparr>chat_script = [Response 200 (Some (U ''q''))],
      embed_script = [Response 200 (Some [1, 2])],
      fetch_script = [],
      store_script = [Response 201 (Some [Some 7]), Failure],
      today = U ''2026-01-15'', trace = []\<rparr>"

definition sample_meta :: metadata where
  "sample_meta =
     with_language (base_meta (env_of (U ''26EC1'') [U ''abc''] (U ''circular'')) flaky_world)
       (U ''en'')"

definition sample_unit :: vigo_chunk where
  "sample_unit = en_unit (env_of (U ''26EC1'') [U ''abc''] (U ''circular'')) good_world 0 (U ''abc'')"

section \<open>Traces\<close>

lemma inserts_simps [simp]:
  "inserts [] = []"
  "inserts (es @ fs) = inserts es @ inserts fs"
  "inserts (EvInsert c m v # es) = (c, m, v) # inserts es"
  "inserts (EvQuestion q # es) = inserts es"
  "inserts (EvEmbed t # es) = inserts es"
  "inserts (EvSleep ms # es) = inserts es"
  "inserts (EvChat cr # es) = inserts es"
  "inserts (EvFetch url # es) = inserts es"
  "inserts (EvWrite fname body # es) = inserts es"
  "inserts (chat_event pr mt temp # es) = inserts es"
  by (simp_all add: inserts_def chat_event_def)

lemma question_rows_simps [simp]:
  "question_rows [] = []"
  "question_rows (es @ fs) = question_rows es @ question_rows fs"
  "question_rows (EvQuestion q # es) = q # question_rows es"
  "question_rows (EvInsert c m v # es) = question_rows es"
  "question_rows (EvEmbed t # es) = question_rows es"
  "question_rows (EvSleep ms # es) = question_rows es"
  "question_rows (EvChat cr # es) = question_rows es"
  "question_rows (EvFetch url # es) = question_rows es"
  "question_rows (EvWrite fname body # es) = question_rows es"
  "question_rows (chat_event pr mt temp # es) = question_rows es"
  by (simp_all add: question_rows_def chat_event_def)

lemma generate_questions_eq:
  "generate_questions loads content lang w =
     (questions_of loads (chat_result (reply_of (chat_script w))),
      w\<lparr>chat_script := tl (chat_script w),
        trace := trace w @ [chat_event (question_prompt content lang) 150 7]\<rparr>)"
  by (simp add: generate_questions_def deepseek_chat_eq questions_of_def)

lemma keep_questions_subset:
  "keep_questions q = Some ks \<Longrightarrow> set ks \<subseteq> set q"
  by (induction q arbitrary: ks) (auto split: if_splits option.splits)

lemma keep_questions_sound:
  "keep_questions q = Some ks \<Longrightarrow> x \<in> set ks \<Longrightarrow> truthy x \<and> (\<exists>n \<ge> 5. py_len x = Some n)"
  by (induction q arbitrary: ks) (auto split: if_splits option.splits)

lemma keep_questions_strings:
  "keep_questions (map JStr ss) = Some (map JStr (filter (\<lambda>s. 5 \<le> length s) ss))"
  by (induction ss) auto

lemma keep_questions_None_iff:
  "keep_questions q = None \<longleftrightarrow> (\<exists>x \<in> set q. truthy x \<and> py_len x = None)"
  by (induction q) (auto split: option.splits)

lemma parse_questions_length:
  "parse_questions loads answer = Some qs \<Longrightarrow> length qs \<le> 2"
  by (auto simp: parse_questions_def split: option.splits json.splits)

lemma questions_of_length: "questions_of loads answer = Some qs \<Longrightarrow> length qs \<le> 2"
  by (auto simp: questions_of_def parse_questions_length split: option.splits if_splits)

section \<open>The question loop\<close>

lemma post_questions_trace:
  "\<exists>k \<le> length qs.
     trace (snd (post_questions qs md kid w)) =
       trace w @ concat (map (\<lambda>q. [EvQuestion (question_row_of q md kid), EvSleep 200]) (take k qs))
         @ (if fst (post_questions qs md kid w) then []
            else [EvQuestion (question_row_of (qs ! k) md kid)])
     \<and> (fst (post_questions qs md kid w) \<longrightarrow> k = length qs)
     \<and> (\<not> fst (post_questions qs md kid w) \<longrightarrow> k < length qs)"
proof (induction qs arbitrary: w)
  case (Cons q qs)
  show ?case
  proof (cases "reply_of (store_script w)")
    case Failure
    then show ?thesis
      by (intro exI [of _ 0]) (simp add: post_question_def)
  next
    case (Response code body)
    let ?w1 = "sleep 200 (snd (post_question (question_row_of q md kid) w))"
    from Cons [of ?w1] obtain k where k: "k \<le> length qs"
      "trace (snd (post_questions qs md kid ?w1)) =
         trace ?w1 @ concat (map (\<lambda>q. [EvQuestion (question_row_of q md kid), EvSleep 200]) (take k qs))
           @ (if fst (post_questions qs md kid ?w1) then []
              else [EvQuestion (question_row_of (qs ! k) md kid)])"
      "fst (post_questions qs md kid ?w1) \<longrightarrow> k = length qs"
      "\<not> fst (post_questions qs md kid ?w1) \<longrightarrow> k < length qs"
      by blast
    with Response show ?thesis
      by (intro exI [of _ "Suc k"]) (simp add: post_question_def sleep_eq)
  qed
qed simp

lemma post_questions_frame [simp, frame_simps]:
  "inserts (trace (snd (post_questions qs md kid w))) = inserts (trace w)"
  "chat_script (snd (post_questions qs md kid w)) = chat_script w"
  "embed_script (snd (post_questions qs md kid w)) = embed_script w"
  "today (snd (post_questions qs md kid w)) = today w"
proof (induction qs arbitrary: w)
  case (Cons q qs)
  {
    case 1 show ?case
      by (cases "reply_of (store_script w)") (simp_all add: post_question_def sleep_eq Cons)
  next
    case 2 show ?case
      by (cases "reply_of (store_script w)") (simp_all add: post_question_def sleep_eq Cons)
  next
    case 3 show ?case
      by (cases "reply_of (store_script w)") (simp_all add: post_question_def sleep_eq Cons)
  next
    case 4 show ?case
      by (cases "reply_of (store_script w)") (simp_all add: post_question_def sleep_eq Cons)
  }
qed simp_all

lemma post_questions_rows:
  "length (question_rows (trace (snd (post_questions qs md kid w)))) \<le>
     length (question_rows (trace w)) + length qs"
proof (induction qs arbitrary: w)
  case (Cons q qs)
  show ?case
  proof (cases "reply_of (store_script w)")
    case (Response code body)
    then show ?thesis
      using Cons [of "sleep 200 (snd (post_question (question_row_of q md kid) w))"]
      by (simp add: post_question_def sleep_eq)
  qed (simp add: post_question_def)
qed simp

lemma embed_attempts_rows [simp]:
  "inserts (trace (snd (embed_attempts atts text w))) = inserts (trace w)"
  "question_rows (trace (snd (embed_attempts atts text w))) = question_rows (trace w)"
proof (induction atts arbitrary: w)
  case (Cons a atts)
  {
    case 1 show ?case
      by (cases "reply_of (embed_script w)")
         (auto simp: post_embedding_def Cons sleep_eq split: option.splits)
  next
    case 2 show ?case
      by (cases "reply_of (embed_script w)")
         (auto simp: post_embedding_def Cons sleep_eq split: option.splits)
  }
qed simp_all

section \<open>Uploading a unit\<close>

lemma upload_chunk_eq:
  "upload_chunk loads content md w =
     (case fst (generate_embedding content w) of
        None \<Rightarrow> (None, snd (generate_embedding content w))
      | Some v \<Rightarrow>
          if v = [] then (None, snd (generate_embedding content w))
          else store_unit loads content md v (snd (generate_embedding content w)))"
  unfolding upload_chunk_def store_unit_def ask_and_post_def
  by (cases "generate_embedding content w") (simp split: option.splits)

lemma ask_and_post_inserts [simp]:
  "inserts (trace (snd (ask_and_post loads content md kid w))) = inserts (trace w)"
  by (simp add: ask_and_post_def generate_questions_eq case_prod_unfold split: option.splits)

lemma ask_and_post_rows:
  "length (question_rows (trace (snd (ask_and_post loads content md kid w)))) \<le>
     length (question_rows (trace w)) + 2"
proof (cases "fst (generate_questions loads content (m_language md) w)")
  case (Some qs)
  then have "length qs \<le> 2"
    by (simp add: generate_questions_eq questions_of_length)
  with Some show ?thesis
    using post_questions_rows [of qs md kid "snd (generate_questions loads content (m_language md) w)"]
    by (simp add: ask_and_post_def case_prod_unfold generate_questions_eq)
qed (simp add: ask_and_post_def case_prod_unfold generate_questions_eq)

lemma ask_and_post_result:
  "fst (ask_and_post loads content md kid w) = kid \<or> fst (ask_and_post loads content md kid w) = None"
  by (simp add: ask_and_post_def case_prod_unfold split: option.splits)

lemma store_unit_inserts:
  "inserts (trace (snd (store_unit loads content md v w))) =
     inserts (trace w) @ [(content, md, v)]"
  by (cases "reply_of (store_script w)")
     (auto simp: store_unit_def post_insert_def split: option.splits)

lemma store_unit_rows:
  "length (question_rows (trace (snd (store_unit loads content md v w)))) \<le>
     length (question_rows (trace w)) + 2"
proof (cases "reply_of (store_script w)")
  case (Response code body)
  let ?w2 = "snd (post_insert content md v w)"
  have "length (question_rows (trace (snd (ask_and_post loads content md kid ?w2)))) \<le>
      length (question_rows (trace w)) + 2" for kid
    using ask_and_post_rows [of loads content md kid ?w2] by (simp add: post_insert_def)
  with Response show ?thesis
    by (auto simp: store_unit_def post_insert_def split: option.splits)
qed (simp add: store_unit_def post_insert_def)

lemma upload_chunk_inserts:
  "inserts (trace (snd (upload_chunk loads content md w))) =
     inserts (trace w) @
       (case fst (generate_embedding content w) of
          None \<Rightarrow> []
        | Some v \<Rightarrow> if v = [] then [] else [(content, md, v)])"
  by (simp add: upload_chunk_eq store_unit_inserts generate_embedding_def split: option.splits)

section \<open>Fences and parsing\<close>

lemma dropWhile_append_keep:
  "ys \<noteq> [] \<Longrightarrow> \<not> P (hd ys) \<Longrightarrow> dropWhile P (xs @ ys) = dropWhile P xs @ ys"
  by (induction xs) (auto simp: dropWhile_eq_self_iff)

lemma FENCE_not_space: "FENCE \<noteq> []" "\<not> is_space (hd FENCE)" "length FENCE = 3"
  by (simp_all add: FENCE_def is_space_def)

lemma strip_fence_open_fenced:
  "strip_fence_open (FENCE @ U ''json'' @ rest) = dropWhile is_space rest"
  by (simp add: strip_fence_open_def)

lemma strip_fence_close_fenced: "strip_fence_close (xs @ FENCE) = rstrip xs"
proof -
  have "suffix FENCE (xs @ FENCE)" by (simp add: suffix_def)
  then show ?thesis by (simp add: strip_fence_close_def)
qed

lemma rstrip_dropWhile: "rstrip (dropWhile is_space s) = strip s"
  by (simp only: rstrip_def strip_def)

lemma strip_space_Cons: "is_space c \<Longrightarrow> strip (c # s) = strip s"
  by (simp add: strip_def)

lemma strip_space_snoc: "is_space c \<Longrightarrow> strip (s @ [c]) = strip s"
proof (cases "\<forall>x \<in> set s. is_space x")
  case True
  then show "is_space c \<Longrightarrow> strip (s @ [c]) = strip s"
    by (simp add: strip_eq_Nil_iff [THEN iffD2])
next
  case False
  then obtain x where "x \<in> set s" "\<not> is_space x" by blast
  then have "dropWhile is_space (s @ [c]) = dropWhile is_space s @ [c]"
    by (rule dropWhile_append1)
  then show "is_space c \<Longrightarrow> strip (s @ [c]) = strip s"
    by (simp add: strip_def)
qed

text \<open>An answer wrapped in a Markdown fence is parsed as the stripped text inside the fence.\<close>

theorem payload_fenced:
  "payload (FENCE @ U ''json'' @ [NL] @ body @ [NL] @ FENCE) = strip body"
proof -
  have "dropWhile is_space ([NL] @ body @ [NL] @ FENCE) =
        dropWhile is_space ([NL] @ body @ [NL]) @ FENCE"
    using dropWhile_append_keep [of FENCE is_space "[NL] @ body @ [NL]"] FENCE_not_space
    by simp
  then have "strip_fence_close (strip_fence_open (FENCE @ U ''json'' @ [NL] @ body @ [NL] @ FENCE)) =
      strip ([NL] @ body @ [NL])"
    by (simp only: strip_fence_open_fenced strip_fence_close_fenced rstrip_dropWhile)
  moreover have "strip ([NL] @ body @ [NL]) = strip body"
    using strip_space_snoc [of NL "NL # body"] by (simp add: strip_space_Cons is_space_NL)
  ultimately show ?thesis
    by (simp add: payload_def strip_idem)
qed

text \<open>C34 (parse_questions_strings). When the answer parses to a list of strings, the questions are the first two of its strings that have at least five code points.\<close>

theorem parse_questions_strings:
  assumes "loads (payload answer) = Some (JArr (map JStr ss))"
  shows "parse_questions loads answer = Some (map JStr (take 2 (filter (\<lambda>s. 5 \<le> length s) ss)))"
  using assms by (simp add: parse_questions_def payload_def keep_questions_strings take_map)

theorem parse_questions_strings_witness:
  "parse_questions sample_loads (U ''x'') =
     Some (map JStr (take 2 (filter (\<lambda>s. 5 \<le> length s) [U ''What changed?'', U ''Who is affected?''])))"
  by (rule parse_questions_strings)
     (simp add: sample_loads_def payload_def strip_fence_open_def strip_fence_close_def
        FENCE_def strip_def is_space_def U_def suffix_to_prefix)

text \<open>C12 (upload_chunk_one_insert). Uploading a unit inserts it exactly once, with its content, its metadata and the vector of the embedder, when the embedder returns a non-empty vector; when the embedder fails nothing is inserted: there is no partial record.\<close>

theorem upload_chunk_one_insert:
  "inserts (trace (snd (upload_chunk loads content md w))) =
     inserts (trace w) @
       (case embed_outcome (replies 3 (embed_script w)) of
          None \<Rightarrow> []
        | Some v \<Rightarrow> if v = [] then [] else [(content, md, v)])"
  by (simp add: upload_chunk_inserts generate_embedding_def embed_attempts_result)

text \<open>Uploading a unit inserts at most two question rows.\<close>

theorem upload_chunk_questions_bound:
  "length (question_rows (trace (snd (upload_chunk loads content md w)))) \<le>
     length (question_rows (trace w)) + 2"
  using store_unit_rows [of loads content md _ "snd (generate_embedding content w)"]
  by (simp add: upload_chunk_eq generate_embedding_def split: option.splits)

lemma store_unit_Some:
  assumes "fst (store_unit loads content md v w) = Some k"
  shows "\<exists>code rows. reply_of (store_script w) = Response code (Some rows) \<and>
           code \<in> {200, 201} \<and> rows \<noteq> [] \<and> hd rows = Some k"
proof (cases "reply_of (store_script w)")
  case (Response code body)
  with assms obtain rows where rows: "code \<in> {200, 201}" "body = Some rows" "rows \<noteq> []"
    and "fst (ask_and_post loads content md (hd rows) (snd (post_insert content md v w))) = Some k"
    by (auto simp: store_unit_def post_insert_def split: option.splits if_splits)
  then have "hd rows = Some k"
    using ask_and_post_result [of loads content md "hd rows" "snd (post_insert content md v w)"]
    by auto
  with Response rows show ?thesis by blast
qed (use assms in \<open>simp add: store_unit_def post_insert_def\<close>)

text \<open>C20 (upload_chunk_success_stored). When \<^verbatim>\<open>upload_chunk\<close> returns an identifier, the unit was inserted with a vector and the identifier is that of the first row the store returned, with status 200 or 201.\<close>

theorem upload_chunk_success_stored:
  assumes "fst (upload_chunk loads content md w) = Some k"
  shows "\<exists>v code rows. v \<noteq> [] \<and> embed_outcome (replies 3 (embed_script w)) = Some v
         \<and> inserts (trace (snd (upload_chunk loads content md w))) =
             inserts (trace w) @ [(content, md, v)]
         \<and> reply_of (store_script w) = Response code (Some rows) \<and> code \<in> {200, 201}
         \<and> rows \<noteq> [] \<and> hd rows = Some k"
proof -
  from assms obtain v where v: "fst (generate_embedding content w) = Some v" "v \<noteq> []"
    and st: "fst (store_unit loads content md v (snd (generate_embedding content w))) = Some k"
    by (auto simp: upload_chunk_eq split: option.splits if_splits)
  from v have "embed_outcome (replies 3 (embed_script w)) = Some v"
    by (simp add: generate_embedding_def embed_attempts_result)
  moreover from v have "inserts (trace (snd (upload_chunk loads content md w))) =
      inserts (trace w) @ [(content, md, v)]"
    by (simp add: upload_chunk_inserts)
  moreover from store_unit_Some [OF st] obtain code rows where
    "reply_of (store_script w) = Response code (Some rows)" "code \<in> {200, 201}" "rows \<noteq> []"
    "hd rows = Some k"
    by (auto simp: generate_embedding_def)
  ultimately show ?thesis using v(2) by blast
qed



lemmas upload_eval = upload_chunk_eq generate_embedding_def upt_3 post_embedding_def
  store_unit_def post_insert_def ask_and_post_def generate_questions_eq questions_of_def
  post_question_def sleep_eq

theorem upload_chunk_success_stored_witness:
  "\<exists>v code rows. v \<noteq> [] \<and> embed_outcome (replies 3 (embed_script good_world)) = Some v
     \<and> inserts (trace (snd (upload_chunk sample_loads (U ''abc'') sample_meta good_world))) =
         inserts (trace good_world) @ [(U ''abc'', sample_meta, v)]
     \<and> reply_of (store_script good_world) = Response code (Some rows) \<and> code \<in> {200, 201}
     \<and> rows \<noteq> [] \<and> hd rows = Some 7"
  by (rule upload_chunk_success_stored [of sample_loads]) (simp add: upload_eval good_world_def)

lemma store_unit_question_failure:
  assumes "store_script w = Response 201 (Some (Some k # rows)) # Failure # rest"
    and "questions_of loads (chat_result (reply_of (chat_script w))) = Some (q # qs)"
  shows "fst (store_unit loads content md v w) = None"
  using assms
  by (simp add: store_unit_def post_insert_def ask_and_post_def generate_questions_eq
      post_question_def)

text \<open>C11 (question_failure_hides_record). When the insert of a question raises, \<^verbatim>\<open>upload_chunk\<close> returns nothing although the unit is stored: the request is inside the \<^verbatim>\<open>try\<close> block of the upload.\<close>

theorem question_failure_hides_record:
  assumes "embed_outcome (replies 3 (embed_script w)) = Some v" and "v \<noteq> []"
    and "store_script w = Response 201 (Some (Some k # rows)) # Failure # rest"
    and "questions_of loads (chat_result (reply_of (chat_script w))) = Some (q # qs)"
  shows "fst (upload_chunk loads content md w) = None
       \<and> inserts (trace (snd (upload_chunk loads content md w))) =
           inserts (trace w) @ [(content, md, v)]"
proof -
  let ?w1 = "snd (generate_embedding content w)"
  from assms(1) have v: "fst (generate_embedding content w) = Some v"
    by (simp add: generate_embedding_def embed_attempts_result)
  have "store_script ?w1 = store_script w" "chat_script ?w1 = chat_script w"
    by (simp_all add: generate_embedding_def)
  with assms(3,4) have "fst (store_unit loads content md v ?w1) = None"
    by (intro store_unit_question_failure) simp_all
  with v assms(2) have "fst (upload_chunk loads content md w) = None"
    by (simp add: upload_chunk_eq)
  moreover from v assms(2) have "inserts (trace (snd (upload_chunk loads content md w))) =
      inserts (trace w) @ [(content, md, v)]"
    by (simp add: upload_chunk_inserts)
  ultimately show ?thesis by simp
qed

theorem question_failure_hides_record_witness:
  "fst (upload_chunk sample_loads (U ''abc'') sample_meta flaky_world) = None
   \<and> inserts (trace (snd (upload_chunk sample_loads (U ''abc'') sample_meta flaky_world))) =
       inserts (trace flaky_world) @ [(U ''abc'', sample_meta, [1, 2])]"
proof (rule question_failure_hides_record)
  show "embed_outcome (replies 3 (embed_script flaky_world)) = Some [1, 2]"
    by (simp add: flaky_world_def replies_def)
  show "store_script flaky_world = Response 201 (Some (Some 7 # [])) # Failure # []"
    by (simp add: flaky_world_def)
  show "questions_of sample_loads (chat_result (reply_of (chat_script flaky_world))) =
      Some (JStr (U ''What changed?'') # [JStr (U ''Who is affected?'')])"
    by (simp add: flaky_world_def questions_of_def parse_questions_def sample_loads_def
        strip_fence_open_def strip_fence_close_def FENCE_def strip_def is_space_def U_def
        suffix_to_prefix)
qed simp

section \<open>The upload loop\<close>

lemma lower_langs: "lower (U ''EN'') = U ''en''" "lower (U ''ZH'') = U ''zh''"
  by (simp_all add: lower_def lower_cp_def U_def)

lemma bump_apply: "bump k stats j = (if j = k then stats k + 1 else stats j)"
  by (simp add: bump_def)

lemma upload_one_stats:
  "fst (upload_one loads c stats w) =
     (if kid_ok (fst (upload_chunk loads (chunk_content c) (chunk_metadata c) w))
      then bump (lower (chunk_lang c)) (bump (U ''ok'') stats)
      else bump (U ''fail'') stats)"
  by (simp add: upload_one_def case_prod_unfold)

lemma upload_one_counts:
  assumes "chunk_lang c \<in> {U ''EN'', U ''ZH''}"
  shows "done_count (fst (upload_one loads c stats w)) = Suc (done_count stats)"
    and "lang_count (fst (upload_one loads c stats w)) + stats (U ''ok'') =
         lang_count stats + fst (upload_one loads c stats w) (U ''ok'')"
proof -
  from assms consider "lower (chunk_lang c) = U ''en''" | "lower (chunk_lang c) = U ''zh''"
    by (auto simp: lower_langs)
  then show "done_count (fst (upload_one loads c stats w)) = Suc (done_count stats)"
    by cases (simp_all add: upload_one_stats bump_apply done_count_def)
  from assms consider "lower (chunk_lang c) = U ''en''" | "lower (chunk_lang c) = U ''zh''"
    by (auto simp: lower_langs)
  then show "lang_count (fst (upload_one loads c stats w)) + stats (U ''ok'') =
      lang_count stats + fst (upload_one loads c stats w) (U ''ok'')"
    by cases (simp_all add: upload_one_stats bump_apply lang_count_def)
qed

lemma upload_all_Cons:
  "upload_all loads (c # cs) stats w =
     upload_all loads cs (fst (upload_one loads c stats w)) (snd (upload_one loads c stats w))"
  by (simp add: case_prod_unfold)

lemma upload_all_counts:
  assumes "\<forall>c \<in> set cs. chunk_lang c \<in> {U ''EN'', U ''ZH''}"
  shows "done_count (fst (upload_all loads cs stats w)) = done_count stats + length cs
       \<and> lang_count (fst (upload_all loads cs stats w)) + stats (U ''ok'') =
           lang_count stats + fst (upload_all loads cs stats w) (U ''ok'')"
  using assms
proof (induction cs arbitrary: stats w)
  case (Cons c cs)
  let ?s1 = "fst (upload_one loads c stats w)"
  let ?w1 = "snd (upload_one loads c stats w)"
  from Cons.prems have c: "chunk_lang c \<in> {U ''EN'', U ''ZH''}"
    and cs: "\<forall>c \<in> set cs. chunk_lang c \<in> {U ''EN'', U ''ZH''}" by simp_all
  note ih = Cons.IH [OF cs, of ?s1 ?w1]
  note one = upload_one_counts [OF c, of loads stats w]
  from ih one(1) have "done_count (fst (upload_all loads (c # cs) stats w)) =
      done_count stats + length (c # cs)"
    by (simp only: upload_all_Cons) simp
  moreover from ih one(2) have "lang_count (fst (upload_all loads (c # cs) stats w)) + stats (U ''ok'') =
      lang_count stats + fst (upload_all loads (c # cs) stats w) (U ''ok'')"
    by (simp only: upload_all_Cons) arith
  ultimately show ?case by simp
qed simp

text \<open>C33 (upload_all_stats). The upload loop counts every unit once as done or failed, and every done unit once under its language.\<close>

theorem upload_all_stats:
  assumes "\<forall>c \<in> set cs. chunk_lang c \<in> {U ''EN'', U ''ZH''}"
  shows "done_count (fst (upload_all loads cs stats w)) = done_count stats + length cs
       \<and> lang_count (fst (upload_all loads cs stats w)) + stats (U ''ok'') =
           lang_count stats + fst (upload_all loads cs stats w) (U ''ok'')"
  using assms by (rule upload_all_counts)

theorem upload_all_stats_witness:
  "done_count (fst (upload_all sample_loads [sample_unit] (\<lambda>k. 0) good_world)) =
     done_count (\<lambda>k. 0) + length [sample_unit]
   \<and> lang_count (fst (upload_all sample_loads [sample_unit] (\<lambda>k. 0) good_world)) + 0 =
       lang_count (\<lambda>k. 0) + fst (upload_all sample_loads [sample_unit] (\<lambda>k. 0) good_world) (U ''ok'')"
  using upload_all_stats [of "[sample_unit]" sample_loads "\<lambda>k. 0" good_world]
  by (simp add: sample_unit_def en_unit_def)

section \<open>Effects\<close>

lemma effects_generate_questions:
  "KChat \<in> set ks \<Longrightarrow> effects ks w (snd (generate_questions loads content lang w))"
  by (rule effectsI [where es = "[chat_event (question_prompt content lang) 150 7]"])
     (simp_all add: generate_questions_eq chat_event_def)

lemma effects_post_question:
  "KQuestion \<in> set ks \<Longrightarrow> effects ks w (snd (post_question row w))"
  by (rule effectsI [where es = "[EvQuestion row]"]) (simp_all add: post_question_def)

lemma effects_post_questions:
  assumes "KQuestion \<in> set ks" "KSleep \<in> set ks"
  shows "effects ks w v \<Longrightarrow> effects ks w (snd (post_questions qs md kid v))"
proof (induction qs arbitrary: v)
  case (Cons q qs)
  let ?v1 = "snd (post_question (question_row_of q md kid) v)"
  have v1: "effects ks w ?v1"
    by (rule effects_trans [OF Cons.prems]) (rule effects_post_question [OF assms(1)])
  then have "effects ks w (snd (post_questions qs md kid (sleep 200 ?v1)))"
    by (intro Cons.IH effects_sleep assms)
  with v1 show ?case
    by (cases "reply_of (store_script v)") (simp_all add: post_question_def)
qed simp

lemma effects_ask_and_post:
  assumes "KChat \<in> set ks" "KQuestion \<in> set ks" "KSleep \<in> set ks"
  shows "effects ks w (snd (ask_and_post loads content md kid w))"
  using effects_generate_questions [OF assms(1), of w loads content "m_language md"]
    effects_post_questions [OF assms(2,3)]
  by (simp add: ask_and_post_def case_prod_unfold split: option.splits)

lemma effects_post_insert:
  "KInsert \<in> set ks \<Longrightarrow> effects ks w (snd (post_insert content md v w))"
  by (rule effectsI [where es = "[EvInsert content md v]"]) (simp_all add: post_insert_def)

lemma effects_store_unit:
  assumes "set upload_kinds \<subseteq> set ks"
  shows "effects ks w (snd (store_unit loads content md v w))"
proof -
  from assms have ks: "KInsert \<in> set ks" "KChat \<in> set ks" "KQuestion \<in> set ks" "KSleep \<in> set ks"
    by (auto simp: upload_kinds_def)
  let ?w2 = "snd (post_insert content md v w)"
  have w2: "effects ks w ?w2" by (rule effects_post_insert [OF ks(1)])
  then have "effects ks w (snd (ask_and_post loads content md kid ?w2))" for kid
    by (rule effects_trans) (rule effects_ask_and_post [OF ks(2-4)])
  with w2 show ?thesis
    by (cases "reply_of (store_script w)")
       (auto simp: store_unit_def post_insert_def split: option.splits)
qed

lemma effects_upload_chunk:
  assumes "set upload_kinds \<subseteq> set ks"
  shows "effects ks w (snd (upload_chunk loads content md w))"
proof -
  from assms have ks: "KEmbed \<in> set ks" "KSleep \<in> set ks"
    by (auto simp: upload_kinds_def)
  let ?w1 = "snd (generate_embedding content w)"
  have w1: "effects ks w ?w1" by (rule effects_generate_embedding [OF ks])
  then have "effects ks w (snd (store_unit loads content md v ?w1))" for v
    by (rule effects_trans) (rule effects_store_unit [OF assms])
  with w1 show ?thesis
    by (simp add: upload_chunk_eq split: option.splits)
qed

lemma effects_upload_all:
  assumes "set upload_kinds \<subseteq> set ks"
  shows "effects ks w v \<Longrightarrow> effects ks w (snd (upload_all loads cs stats v))"
proof (induction cs arbitrary: stats v)
  case (Cons c cs)
  from assms have "KSleep \<in> set ks" by (auto simp: upload_kinds_def)
  with Cons.prems have "effects ks w (snd (upload_one loads c stats v))"
    by (auto simp: upload_one_def case_prod_unfold
        intro!: effects_sleep effects_trans [OF _ effects_upload_chunk [OF assms]])
  then show ?case
    by (simp only: upload_all_Cons) (rule Cons.IH)
qed simp

section \<open>What the store receives\<close>

lemma inserts_other_kinds: "\<forall>e \<in> set es. kind_of e \<noteq> KInsert \<Longrightarrow> inserts es = []"
proof (induction es)
  case (Cons e es)
  then show ?case by (cases e) simp_all
qed simp

lemma upload_one_inserts:
  "inserts (trace (snd (upload_one loads c stats w))) =
     inserts (trace w) @
       (case fst (generate_embedding (chunk_content c) w) of
          None \<Rightarrow> []
        | Some v \<Rightarrow> if v = [] then [] else [(chunk_content c, chunk_metadata c, v)])"
  by (simp add: upload_one_def case_prod_unfold sleep_eq upload_chunk_inserts)

lemma upload_all_inserts:
  "\<exists>xs. inserts (trace (snd (upload_all loads cs stats w))) = inserts (trace w) @ xs
     \<and> subseq (map (\<lambda>x. (fst x, fst (snd x))) xs)
          (map (\<lambda>u. (chunk_content u, chunk_metadata u)) cs)"
proof (induction cs arbitrary: stats w)
  case (Cons c cs)
  let ?w1 = "snd (upload_one loads c stats w)"
  let ?one = "case fst (generate_embedding (chunk_content c) w) of
      None \<Rightarrow> []
    | Some v \<Rightarrow> if v = [] then [] else [(chunk_content c, chunk_metadata c, v)]"
  from Cons [of "fst (upload_one loads c stats w)" ?w1] obtain xs where
    xs: "inserts (trace (snd (upload_all loads (c # cs) stats w))) = inserts (trace ?w1) @ xs"
      "subseq (map (\<lambda>x. (fst x, fst (snd x))) xs)
         (map (\<lambda>u. (chunk_content u, chunk_metadata u)) cs)"
    by (auto simp only: upload_all_Cons)
  have "subseq (map (\<lambda>x. (fst x, fst (snd x))) (?one @ xs))
      (map (\<lambda>u. (chunk_content u, chunk_metadata u)) (c # cs))"
    using xs(2) by (auto split: option.splits)
  with xs(1) show ?case
    by (intro exI [of _ "?one @ xs"]) (simp add: upload_one_inserts)
qed simp

end
