(* ===== verification/Patterns.thy ===== *)
theory Patterns
  imports Py_Regex Segmenter Store
begin

text \<open>
  The regular expressions of the Segmenter and of the Question Generator, transcribed
  as patterns of \<open>Py_Regex\<close>, and the proofs that the hand-written routines of
  \<open>Segmenter\<close> and \<open>Store\<close> are \<^verbatim>\<open>re.split\<close> and \<^verbatim>\<open>re.sub\<close> with them.

  Line 124 of \<^verbatim>\<open>src/auto_collect_upload.py\<close> splits the text with
  \<^verbatim>\<open>re.split(r'\n(?=\d{1,2}\.\s+[A-Z])', full_text)\<close>. \<open>HEADING_RE\<close> is that pattern:
  a line feed, and a look-ahead for one or two digits, a full stop, whitespace and a
  capital. \<open>heading_match\<close> is the match of the pattern at the start of a text, in the
  terms of \<open>Segmenter.heading_ahead\<close>.
\<close>

definition HEADING_RE :: re where
  "HEADING_RE =
     RSeq (RChr NL)
       (RLook (RSeq (RCls is_decimal) (RSeq (ROpt (RCls is_decimal))
          (RSeq (RChr 0x2E) (RSeq (RPlus (RCls is_space)) (RCls is_upper_ascii))))))"

definition heading_match :: "ustring \<Rightarrow> ustring option" where
  "heading_match s =
     (case s of [] \<Rightarrow> None | c # cs \<Rightarrow> if c = NL \<and> heading_ahead cs then Some cs else None)"

text \<open>
  Line 297 removes an opening fence with \<^verbatim>\<open>re.sub(r'^```json\s*', '', answer)\<close>.
  \<open>FENCE_OPEN_RE\<close> is that pattern; without \<^verbatim>\<open>re.MULTILINE\<close> the anchor matches at
  the start of the text only.
\<close>

definition FENCE_OPEN_RE :: re where
  "FENCE_OPEN_RE = RSeq RBol (RSeq (RLit (FENCE @ U ''json'')) (RStar (RCls is_space)))"

text \<open>
  Line 298 removes a closing fence with \<^verbatim>\<open>re.sub(r'\s*```$', '', answer)\<close>.
  \<open>FENCE_CLOSE_RE\<close> is that pattern; \<^verbatim>\<open>$\<close> matches at the end of the text and before
  a line feed that ends it. \<open>fence_close_match\<close> is the match of the pattern at the start
  of a text: the whitespace, the fence, and nothing or one line feed left.
\<close>

definition FENCE_CLOSE_RE :: re where
  "FENCE_CLOSE_RE = RSeq (RStar (RCls is_space)) (RSeq (RLit FENCE) REol)"

definition fence_close_match :: "ustring \<Rightarrow> ustring option" where
  "fence_close_match t =
     (if dropWhile is_space t = FENCE then Some []
      else if dropWhile is_space t = FENCE @ [NL] then Some [NL]
      else None)"

lemma upper_not_space: "t \<noteq> [] \<Longrightarrow> is_space (hd t) \<Longrightarrow> ends n (RCls is_upper_ascii) t = []"
  by (cases t) (auto simp: is_space_def is_upper_ascii_def)

lemma ends_heading_tail:
  "ends n (RSeq (RChr 0x2E) (RSeq (RPlus (RCls is_space)) (RCls is_upper_ascii))) s = []
   \<longleftrightarrow> \<not> heading_tail s"
  by (auto simp add: ends_RChr_then ends_plus_cls_then [OF upper_not_space] heading_tail_def
      simp del: ends_RSeq ends_RChr ends_RPlus split: list.splits
      dest: dropWhile_eq_Nil_conv [THEN iffD2])

lemma ends_heading_ahead:
  "ends n (RSeq (RCls is_decimal) (RSeq (ROpt (RCls is_decimal))
      (RSeq (RChr 0x2E) (RSeq (RPlus (RCls is_space)) (RCls is_upper_ascii))))) s = []
   \<longleftrightarrow> \<not> heading_ahead s"
  by (auto simp add: ends_RCls_then ends_ROpt_then ends_heading_tail heading_ahead_def
      simp del: ends_RSeq ends_RChr ends_RPlus ends_ROpt split: list.splits)

lemma ends_HEADING_RE:
  "ends n HEADING_RE s = (case heading_match s of None \<Rightarrow> [] | Some cs \<Rightarrow> [cs])"
  by (simp add: HEADING_RE_def ends_RChr_then ends_heading_ahead heading_match_def
      del: ends_RSeq ends_RChr ends_RPlus ends_ROpt split: list.splits)

lemma split_sections_split_by: "split_sections s = split_by heading_match s"
  by (induction s) (simp_all add: heading_match_def)

text \<open>C15 (split_sections_re_split). The structural split of the Segmenter, written by hand as a recursion over the text, is \<^verbatim>\<open>re.split\<close> with the heading pattern of the source, under the backtracking semantics of \<^verbatim>\<open>re\<close>: the text is cut at every line feed that one or two digits, a full stop, whitespace and a capital follow, and the line feed is dropped.\<close>

theorem split_sections_re_split: "split_sections s = re_split HEADING_RE s"
proof -
  have "first_end adv (ends n HEADING_RE t) t = heading_match t" for adv n t
    by (cases t) (simp_all add: ends_HEADING_RE first_end_def heading_match_def)
  moreover have "length t' < length t" if "heading_match t = Some t'" for t t'
    using that by (cases t) (simp_all add: heading_match_def split: if_splits)
  ultimately show ?thesis
    by (simp add: split_sections_split_by re_split_split_by)
qed

section \<open>The opening fence\<close>

lemma ends_FENCE_OPEN_RE:
  "ends n FENCE_OPEN_RE t =
     (if length t = n \<and> prefix (FENCE @ U ''json'') t
      then ends n (RStar (RCls is_space)) (drop (length (FENCE @ U ''json'')) t) else [])"
  by (simp add: FENCE_OPEN_RE_def)

lemma scan_below_start:
  assumes "length s < n"
  shows "scan n FENCE_OPEN_RE gap adv s = ([], gap @ s)"
proof (rule scan_no_match)
  fix t
  assume "suffix t s"
  then have "length t \<le> length s" by (rule suffix_length_le)
  with assms show "ends n FENCE_OPEN_RE t = []" by (simp add: ends_FENCE_OPEN_RE)
qed

text \<open>
  Removing the opening fence, written by hand as a test of the prefix, is \<^verbatim>\<open>re.sub\<close> with
  the anchored pattern: the fence is removed at the start of the answer only, with the
  whitespace that follows it.
\<close>

lemma strip_fence_open_eq: "strip_fence_open answer = re_sub FENCE_OPEN_RE (\<lambda>m. []) answer"
proof (cases "prefix (FENCE @ U ''json'') answer")
  case True
  let ?rest = "drop (length (FENCE @ U ''json'')) answer"
  let ?es = "ends (length answer) (RStar (RCls is_space)) ?rest"
  have short: "length e < length answer" if "e \<in> set ?es" for e
    using ends_length [OF that] True by (auto simp: prefix_def)
  then have "first_end False (ends (length answer) FENCE_OPEN_RE answer) answer = Some (hd ?es)"
    using True by (simp add: ends_FENCE_OPEN_RE first_end_hd split: list.splits)
  then have "scan (length answer) FENCE_OPEN_RE [] False answer =
      (([], take (length answer - length (hd ?es)) answer) #
         fst (scan (length answer) FENCE_OPEN_RE [] (hd ?es = answer) (hd ?es)),
       snd (scan (length answer) FENCE_OPEN_RE [] (hd ?es = answer) (hd ?es)))"
    by (rule scan_match)
  moreover have "length (hd ?es) < length answer"
    by (rule short) simp
  ultimately show ?thesis
    using True
    by (simp add: re_sub_def scan_below_start hd_ends_RStar_RCls strip_fence_open_def)
next
  case False
  then have "re_sub FENCE_OPEN_RE (\<lambda>m. []) answer = answer"
    using suffix_same_length
    by (intro re_sub_no_match) (auto simp: ends_FENCE_OPEN_RE)
  with False show ?thesis by (simp add: strip_fence_open_def)
qed

section \<open>The closing fence\<close>

lemma ends_fence_eol:
  "ends n (RSeq (RLit FENCE) REol) t =
     (if t = FENCE then [[]] else if t = FENCE @ [NL] then [[NL]] else [])"
  by (auto simp: prefix_def FENCE_def)

lemma ends_FENCE_CLOSE_RE:
  "ends n FENCE_CLOSE_RE t = (case fence_close_match t of None \<Rightarrow> [] | Some r \<Rightarrow> [r])"
proof -
  have "ends n (RSeq (RLit FENCE) REol) u = []" if "u \<noteq> []" "is_space (hd u)" for u
    using that by (cases u) (auto simp: ends_fence_eol FENCE_def is_space_def)
  from ends_star_cls_then [of is_space n "RSeq (RLit FENCE) REol", OF this]
  have "ends n FENCE_CLOSE_RE t = ends n (RSeq (RLit FENCE) REol) (dropWhile is_space t)"
    unfolding FENCE_CLOSE_RE_def .
  then show ?thesis
    by (simp add: ends_fence_eol fence_close_match_def del: ends_RSeq ends_RLit)
qed

lemma fence_close_match_shorter: "fence_close_match t = Some r \<Longrightarrow> length r < length t"
proof -
  assume m: "fence_close_match t = Some r"
  have "length (dropWhile is_space t) \<le> length t" by (rule length_dropWhile_le)
  with m show ?thesis
    by (auto simp: fence_close_match_def FENCE_def split: if_splits)
qed

lemma first_end_FENCE_CLOSE_RE:
  "first_end adv (ends n FENCE_CLOSE_RE t) t = fence_close_match t"
  by (cases "fence_close_match t")
     (auto simp: ends_FENCE_CLOSE_RE first_end_def dest: fence_close_match_shorter)

lemma rstrip_Cons:
  "rstrip (c # s) = (if is_space c \<and> (\<forall>x \<in> set s. is_space x) then [] else c # rstrip s)"
  by (auto simp: rstrip_def dropWhile_append)

lemma rstrip_spaces: "\<forall>x \<in> set s. is_space x \<Longrightarrow> rstrip s = []"
  by (simp add: rstrip_def)

lemma fence_close_match_Some:
  "fence_close_match t = Some r \<longleftrightarrow>
     (\<exists>ws. (\<forall>x \<in> set ws. is_space x) \<and> t = ws @ FENCE @ r) \<and> (r = [] \<or> r = [NL])"
proof
  assume m: "fence_close_match t = Some r"
  then have d: "dropWhile is_space t = FENCE @ r" "r = [] \<or> r = [NL]"
    by (auto simp: fence_close_match_def split: if_splits)
  have "t = takeWhile is_space t @ FENCE @ r"
    by (metis d(1) takeWhile_dropWhile_id)
  with d(2) show "(\<exists>ws. (\<forall>x \<in> set ws. is_space x) \<and> t = ws @ FENCE @ r) \<and> (r = [] \<or> r = [NL])"
    by (blast dest: set_takeWhileD)
next
  assume "(\<exists>ws. (\<forall>x \<in> set ws. is_space x) \<and> t = ws @ FENCE @ r) \<and> (r = [] \<or> r = [NL])"
  then obtain ws where ws: "\<forall>x \<in> set ws. is_space x" "t = ws @ FENCE @ r" "r = [] \<or> r = [NL]"
    by blast
  then have "dropWhile is_space t = FENCE @ r"
    by (simp add: dropWhile_append FENCE_def is_space_def)
  with ws(3) show "fence_close_match t = Some r"
    by (auto simp: fence_close_match_def FENCE_def)
qed

lemma strip_fence_close_line: "strip_fence_close (body @ FENCE @ [NL]) = rstrip body @ [NL]"
  by (simp add: strip_fence_close_def suffix_def FENCE_def)

lemma strip_fence_close_other:
  "\<not> suffix FENCE a \<Longrightarrow> \<not> suffix (FENCE @ [NL]) a \<Longrightarrow> strip_fence_close a = a"
  by (simp add: strip_fence_close_def)

lemma strip_fence_close_match:
  assumes "fence_close_match t = Some r"
  shows "strip_fence_close t = r"
proof -
  from assms obtain ws where ws: "\<forall>x \<in> set ws. is_space x" "t = ws @ FENCE @ r" "r = [] \<or> r = [NL]"
    by (auto simp: fence_close_match_Some)
  from ws(3) show ?thesis
  proof
    assume "r = []"
    with ws show ?thesis by (simp add: strip_fence_close_fenced rstrip_spaces)
  next
    assume "r = [NL]"
    with ws show ?thesis by (simp add: strip_fence_close_line rstrip_spaces)
  qed
qed

lemma rstrip_Cons_keep:
  assumes "fence_close_match (c # body @ FENCE @ r) = None" "r = [] \<or> r = [NL]"
  shows "rstrip (c # body) = c # rstrip body"
proof -
  have "\<not> (is_space c \<and> (\<forall>x \<in> set body. is_space x))"
  proof
    assume "is_space c \<and> (\<forall>x \<in> set body. is_space x)"
    then have "\<forall>x \<in> set (c # body). is_space x" by simp
    with assms(2) have "fence_close_match ((c # body) @ FENCE @ r) = Some r"
      unfolding fence_close_match_Some by blast
    with assms(1) show False by simp
  qed
  then show ?thesis by (auto simp: rstrip_Cons)
qed

lemma strip_fence_close_Cons:
  assumes none: "fence_close_match (c # cs) = None"
  shows "strip_fence_close (c # cs) = c # strip_fence_close cs"
proof -
  have whole: "c # cs \<noteq> FENCE @ r" if "r = [] \<or> r = [NL]" for r
  proof
    assume "c # cs = FENCE @ r"
    with that have "fence_close_match (c # cs) = Some r"
      unfolding fence_close_match_Some by (intro conjI exI [of _ "[]"]) simp_all
    with none show False by simp
  qed
  consider (fence) body where "c # cs = body @ FENCE"
    | (line) body where "c # cs = body @ FENCE @ [NL]"
    | (other) "\<not> suffix FENCE (c # cs)" "\<not> suffix (FENCE @ [NL]) (c # cs)"
    by (auto simp: suffix_def)
  then show ?thesis
  proof cases
    case fence
    with whole [of "[]"] obtain b where b: "body = c # b" "cs = b @ FENCE"
      by (cases body) auto
    with none have "rstrip (c # b) = c # rstrip b"
      using rstrip_Cons_keep [of c b "[]"] by simp
    with b fence show ?thesis
      using strip_fence_close_fenced [of "c # b"] by (simp add: strip_fence_close_fenced)
  next
    case line
    with whole [of "[NL]"] obtain b where b: "body = c # b" "cs = b @ FENCE @ [NL]"
      by (cases body) auto
    with none have "rstrip (c # b) = c # rstrip b"
      using rstrip_Cons_keep [of c b "[NL]"] by simp
    with b line show ?thesis
      using strip_fence_close_line [of "c # b"] by (simp add: strip_fence_close_line)
  next
    case other
    then have "\<not> suffix FENCE cs" "\<not> suffix (FENCE @ [NL]) cs"
      by (auto dest: suffix_ConsI)
    with other show ?thesis by (simp add: strip_fence_close_other)
  qed
qed

lemma sub_by_fence_close: "sub_by fence_close_match (\<lambda>m. []) s = strip_fence_close s"
proof (induction s)
  case Nil
  show ?case by (simp add: strip_fence_close_other FENCE_def)
next
  case (Cons c cs)
  show ?case
  proof (cases "fence_close_match (c # cs)")
    case None
    with Cons show ?thesis by (simp add: strip_fence_close_Cons)
  next
    case (Some r)
    then have r: "r = [] \<or> r = [NL]" "length r \<le> length cs"
      using fence_close_match_shorter [OF Some] by (auto simp: fence_close_match_Some)
    have "sub_by fence_close_match (\<lambda>m. []) r = r"
      using r(1) by (auto simp: fence_close_match_def FENCE_def cls_simps)
    with Some r(2) show ?thesis by (simp add: strip_fence_close_match)
  qed
qed

lemma strip_fence_close_eq:
  "strip_fence_close answer = re_sub FENCE_CLOSE_RE (\<lambda>m. []) answer"
  using re_sub_sub_by [of answer FENCE_CLOSE_RE fence_close_match "\<lambda>m. []"]
  by (simp add: first_end_FENCE_CLOSE_RE fence_close_match_shorter sub_by_fence_close)

text \<open>C37 (strip_fences_re_sub). The two hand-written routines that remove a Markdown fence from the answer of the chat service are the two substitutions of lines 297-298, each and in sequence: the opening fence is removed at the start of the answer only, with the whitespace after it; the closing fence at the end of the answer or before a line feed that ends it, with the whitespace before it, and that line feed stays.\<close>

theorem strip_fences_re_sub:
  "strip_fence_open answer = re_sub FENCE_OPEN_RE (\<lambda>m. []) answer
   \<and> strip_fence_close answer = re_sub FENCE_CLOSE_RE (\<lambda>m. []) answer
   \<and> strip_fence_close (strip_fence_open answer) =
       re_sub FENCE_CLOSE_RE (\<lambda>m. []) (re_sub FENCE_OPEN_RE (\<lambda>m. []) answer)"
  by (simp add: strip_fence_open_eq strip_fence_close_eq)

end
