(* ===== verification/Spec2Isabelle.thy ===== *)
theory Spec2Isabelle
  imports Sources Backup Store Patterns
begin

text \<open>
  Verification of the VIGO SFC bilingual collector, \<^verbatim>\<open>src/auto_collect_upload.py\<close>.

  \<^bold>\<open>The program.\<close> The collector is one sequential Python script. \<^verbatim>\<open>main\<close> asks the
  operator for a mode, scans the sources of the regulator (\<^verbatim>\<open>fetch_all_sources\<close>,
  \<^verbatim>\<open>scan_source\<close>): for every reference number it fetches the document
  (\<^verbatim>\<open>fetch_sfc_content\<close>, which extracts the text of a PDF with
  \<^verbatim>\<open>extract_text_from_pdf\<close> or cleans an HTML page) and cuts the text into labelled
  segments (\<^verbatim>\<open>smart_chunk_text\<close>). It removes documents scanned twice, turns every
  segment into an English unit and, when the translation service answers well, a Chinese
  unit (\<^verbatim>\<open>create_bilingual_chunks\<close>, \<^verbatim>\<open>translate_to_chinese\<close>, \<^verbatim>\<open>deepseek_chat\<close>,
  \<^verbatim>\<open>build_official_url\<close>), writes a backup file (\<^verbatim>\<open>save_backup\<close>) and, when the
  operator agrees, uploads every unit with its embedding and up to two generated questions
  (\<^verbatim>\<open>upload_chunk\<close>, \<^verbatim>\<open>generate_embedding\<close>, \<^verbatim>\<open>generate_questions\<close>). Nothing runs
  concurrently.

  \<^bold>\<open>The theories\<close>, in dependency order, and the code each models:
  \<^item> \<open>Vigo_Prelude\<close>: text as lists of Unicode code points (\<open>ustring\<close>), the
    collections of facts, lists that grow at the end (\<open>snoc_last\<close>, \<open>map_hd\<close>),
    content up to ignorable elements (\<open>strip_all\<close>), first occurrences (\<open>first_seen\<close>).
  \<^item> \<open>Py_String\<close>: the operations of \<^verbatim>\<open>str\<close> the collector calls:
    \<open>strip\<close>, \<open>join\<close>, \<open>split_on\<close>, \<open>py_in\<close>, \<open>lower\<close>, \<open>str_nat\<close>,
    \<open>str_int\<close> and the classes \<open>is_space\<close>, \<open>is_decimal\<close>, \<open>is_upper_ascii\<close>;
    lemmas: round trip of split and join, what \<open>strip\<close> removes, \<open>py_in\<close> is the
    sublist relation.
  \<^item> \<open>Py_Regex\<close>: the regular expressions of \<^verbatim>\<open>re\<close> as a datatype of patterns, the
    backtracking matcher \<open>ends\<close> (the ways a pattern matches at a position, in the order
    \<^verbatim>\<open>re\<close> tries them), the loop \<open>scan\<close> over the text, and \<open>re_sub\<close> and
    \<open>re_split\<close>. Lemmas: a match leaves a suffix; the matcher for classes, literals
    and repetitions of a class; substituting every match by itself gives the text back;
    for a pattern that never matches the empty text the loop is the plain recursion
    \<open>sub_by\<close> or \<open>split_by\<close>; a text in which the pattern cannot start is left alone.
  \<^item> \<open>Segmenter\<close>: \<^verbatim>\<open>smart_chunk_text\<close> (lines 111-193) with \<^verbatim>\<open>CHUNK_MIN\<close>,
    \<^verbatim>\<open>CHUNK_MAX\<close>, \<^verbatim>\<open>CHUNK_IDEAL\<close> (lines 59-61). The heading pattern is
    \<open>split_sections\<close>; the three packing loops are \<open>pack_sections\<close>, \<open>sub_pack\<close> and
    \<open>pack_paragraphs\<close> over the state \<open>(chunks, current_chunk)\<close>; the merge pass is
    \<open>merge_short\<close>, the labelling loop \<open>contextualize\<close>. Lemmas: no non-whitespace code
    point is lost or reordered; the size of a chunk is at most \<open>max_size + 2\<close> unless it
    is one paragraph; after the merge pass only the first segment can be shorter than
    \<open>CHUNK_MIN\<close>; both strategies agree on pieces that fit; the scenarios of the
    specification, evaluated.
  \<^item> \<open>Metadata\<close>: \<^verbatim>\<open>build_official_url\<close> (lines 359-367), the label table and the
    keyword loop of \<^verbatim>\<open>create_bilingual_chunks\<close> (lines 375-398). Lemmas: the keyword
    list is the first six of the default tag and the first occurrences of the tags found;
    it is distinct and starts with the default tag. The theory also declares the records
    of the metadata dictionary.
  \<^item> \<open>Collaborators\<close>: the world outside, as a record of the scripts of replies of the
    chat, embedding, fetch and store services, the date, and the trace of requests,
    sleeps and file writes; the reply of the site (\<open>response\<close>); JSON values;
    \<^verbatim>\<open>deepseek_chat\<close> (lines 271-286) and \<^verbatim>\<open>time.sleep\<close>. Lemmas: every operation
    as a pair of its result and the world after it; the effect discipline \<open>effects\<close>
    (an operation continues the trace by events of given kinds only), which every
    component proves of its operations.
  \<^item> \<open>Fetcher\<close>: \<^verbatim>\<open>extract_text_from_pdf\<close> (lines 67-105) and
    \<^verbatim>\<open>fetch_sfc_content\<close> (lines 199-243), with their nine expressions as patterns
    applied by \<open>re_sub\<close>; \<open>page_content\<close> is the function after the request. Lemmas:
    collapsing whitespace is the recursion \<open>squeeze\<close>; a cleaned page is in normal form
    (single spaces only, none at the ends, no line feed); a returned text has more than
    200 code points and is stripped; which replies give nothing; one request per fetch.
  \<^item> \<open>Bilingual\<close>: \<^verbatim>\<open>translate_to_chinese\<close> (lines 348-353) and the loop of
    \<^verbatim>\<open>create_bilingual_chunks\<close> (lines 400-440): \<open>expand_one\<close> is its body,
    \<open>expand_chunks\<close> the loop. Lemmas: the units of a document as a map over its
    segments and the replies of the chat service; the trace (one request and one pause of
    a second per segment, in order); one English unit per segment; which replies yield a
    Chinese unit; the metadata all units share.
  \<^item> \<open>Embedder\<close>: \<^verbatim>\<open>generate_embedding\<close> (lines 249-268), the retry loop as
    \<open>embed_attempts\<close>. Lemmas: which reply decides the result, at most three requests,
    at most eight seconds asleep.
  \<^item> \<open>Scanner\<close>: \<^verbatim>\<open>scan_source\<close> (lines 446-483) as \<open>scan_prefixes\<close>,
    \<open>scan_range\<close> and \<open>scan_one\<close> over the state \<open>(results, found)\<close>, and the
    deduplication loop of \<^verbatim>\<open>main\<close> (lines 668-675) as \<open>dedupe\<close>. Lemmas: a rule
    for what the loops maintain; the cap on the documents; where every document comes
    from; the order of the fetches; the pauses; every document is well formed (a PDF, or
    a page of one segment); deduplication keeps first occurrences.
  \<^item> \<open>Sources\<close>: \<^verbatim>\<open>fetch_all_sources\<close> (lines 486-570): the five scans with their
    prefixes, ranges, filters and caps, and the Charltons page. Lemmas: at most 45
    documents; the filters test substrings.
  \<^item> \<open>Store\<close>: \<^verbatim>\<open>generate_questions\<close> (lines 289-301) with the fence
    substitutions and the selection of the questions, \<^verbatim>\<open>upload_chunk\<close> (lines 304-342)
    and the upload loop of \<^verbatim>\<open>main\<close> (lines 734-750) as \<open>upload_all\<close>. Lemmas: a unit
    is inserted at most once and only with a vector; a returned identifier means a stored
    row; a failing question insert makes the upload report failure although the row is
    stored; at most two questions per unit; the counters of the loop.
  \<^item> \<open>Backup\<close>: \<^verbatim>\<open>save_backup\<close> (lines 576-588): the section of a unit, the text of
    the file, the write as an event. Lemmas: the section keeps the content of a unit.
  \<^item> \<open>Patterns\<close>: the heading pattern of line 124 and the fence patterns of lines
    297-298 as patterns of \<open>Py_Regex\<close>, and the proofs that the hand-written
    \<open>split_sections\<close>, \<open>strip_fence_open\<close> and \<open>strip_fence_close\<close> are
    \<^verbatim>\<open>re.split\<close> and \<^verbatim>\<open>re.sub\<close> with them.
  \<^item> \<open>Spec2Isabelle\<close> (this theory): \<^verbatim>\<open>main\<close> (lines 594-764). \<open>generate_units\<close> is
    the loop that expands the scanned documents (lines 697-709); \<open>collect\<close> the choice
    of the mode and the scan; \<open>prepare\<close> the run up to the units; \<open>upload_phase\<close> the
    backup, the confirmation and the upload; an \<open>outcome\<close> for every return. Lemmas,
    across components: an HTML page is one segment; the trace of a run is preparation,
    one write of the backup, upload; nothing is uploaded without the operator's
    \<^verbatim>\<open>y\<close>; after \<^verbatim>\<open>y\<close> every unit is attempted.

  \<^bold>\<open>Conventions.\<close> Every operation that calls a service or sleeps is a function from
  the world to its result and the world after it; a failure of a service is a value of
  the reply type, and every \<^verbatim>\<open>except\<close> branch and early return of the source is a
  branch of the model. Loops are recursive functions over the list they walk; all of them
  are structurally recursive except \<open>split_on\<close>, \<open>first_seen\<close>, the matcher \<open>ends\<close>,
  the loop \<open>scan\<close> and the references \<open>sub_by\<close>, \<open>split_by\<close> and \<open>squeeze\<close>, whose
  termination is proved (the text gets shorter, or the pattern smaller). No function
  needs fuel: the one retry loop of the program is bounded by \<^verbatim>\<open>range(3)\<close>.

  \<^bold>\<open>Bounds of the model.\<close>
  \<^item> Character classes are those of CPython 3.11 (Unicode 14): \<open>is_space\<close> is the class
    of \<^verbatim>\<open>str.strip\<close> and \<^verbatim>\<open>\s\<close>, \<open>is_decimal\<close> the class \<^verbatim>\<open>\d\<close>.
  \<^item> \<open>lower\<close> maps the ASCII capitals and the two other code points whose lower case
    holds an ASCII letter; the collector only searches the lowered text for ASCII phrases,
    for which this agrees with \<^verbatim>\<open>str.lower\<close>.
  \<^item> Durations are milliseconds, the temperature of a chat request is in tenths.
  \<^item> The date is a field of the world that no operation changes: a run does not pass
    midnight.
  \<^item> An embedding is a list of integers standing for the floats, which the collector
    never reads.
  \<^item> Patterns are those the collector uses: no capturing group is read but the one of
    line 90, whose text is the leading digits of the match; no back-reference, no flag
    but \<^verbatim>\<open>re.DOTALL\<close>. The matcher was compared with \<^verbatim>\<open>re\<close> of CPython on random
    texts for each of the twelve patterns.
  \<^item> \<^verbatim>\<open>pdfplumber\<close> and \<^verbatim>\<open>BeautifulSoup\<close> are libraries: what they read in a body
    is part of the reply (\<open>r_pages\<close>, \<open>r_article\<close>), where \<open>None\<close> stands for a
    missing library, an exception, or a page without an article.
  \<^item> What the operator types is a list of lines (\<open>typed\<close>); an \<^verbatim>\<open>input()\<close> without a
    line is the exception the last lines of the script catch. Writing the backup
    succeeds.
  \<^item> \<^verbatim>\<open>json.loads\<close> is a parameter of the operations that parse, so their lemmas hold
    for every parser; an identifier of a stored row is a natural number.

  \<^bold>\<open>Not modelled.\<close> The transport (HTTP headers, keys, time-outs, JSON encoding);
  the console output (banner, progress lines, the summary of lines 681-690 and
  752-763); the inside of \<^verbatim>\<open>pdfplumber\<close>, \<^verbatim>\<open>BeautifulSoup\<close> and \<^verbatim>\<open>json.loads\<close>;
  failures of the file system; the last lines of the script (766-777), which catch what
  \<^verbatim>\<open>main\<close> raises and wait for a key.
\<close>

section \<open>From scanned documents to units (\<^verbatim>\<open>main\<close>, lines 697-709)\<close>

definition units_of_item :: "scan_item \<Rightarrow> world \<Rightarrow> vigo_chunk list \<times> world" where
  "units_of_item r w =
     create_bilingual_chunks (item_ref r) (item_chunks r) (item_doc_type r) (item_source_url r) w"

fun generate_units :: "scan_item list \<Rightarrow> world \<Rightarrow> vigo_chunk list \<times> world" where
  "generate_units [] w = ([], w)"
| "generate_units (r # rest) w =
     (case units_of_item r w of (vigo_chunks, w1) \<Rightarrow>
        (case generate_units rest w1 of (later, w2) \<Rightarrow> (vigo_chunks @ later, w2)))"

definition total_chunks :: "scan_item list \<Rightarrow> nat" where
  "total_chunks results = sum_list (map (\<lambda>r. length (item_chunks r)) results)"

section \<open>The operator surface (\<^verbatim>\<open>main\<close>, lines 594-764)\<close>

text \<open>
  What a run reads besides the services: the clock (\<open>now_year\<close> is \<^verbatim>\<open>now.year\<close>,
  \<open>now_stamp\<close> is \<^verbatim>\<open>now.strftime('%Y%m%d')\<close>), whether the two optional packages
  import, and the lines the operator types, in order. An \<^verbatim>\<open>input()\<close> that finds no line
  raises, which ends the run in the handler of the last lines of the script
  (\<open>Crashed\<close>). The other outcomes are the returns of \<^verbatim>\<open>main\<close>, in the order of the
  source; the console output is not modelled.

  \<open>collect\<close> is the choice of the mode and the scan (lines 618-666), \<open>prepare\<close> the run
  up to the generated units (lines 607-719), \<open>upload_phase\<close> the backup, the
  confirmation and the upload loop (lines 721-750), and \<open>main\<close> their composition.
\<close>

record session =
  now_year :: nat
  now_stamp :: ustring
  have_pdfplumber :: bool
  have_bs4 :: bool
  typed :: "ustring list"

datatype outcome =
    Missing "ustring list"
  | Invalid
  | No_Items
  | No_Chunks
  | Saved ustring
  | Uploaded stats ustring
  | Crashed

definition missing_deps :: "session \<Rightarrow> ustring list" where
  "missing_deps ses =
     (if have_pdfplumber ses then [] else [U ''pdfplumber'']) @
     (if have_bs4 ses then [] else [U ''beautifulsoup4''])"

definition test_enforce_kw :: "ustring list" where
  "test_enforce_kw = [U ''reprimand'', U ''fine'', U ''suspend'', U ''ban'', U ''prosecut'',
     U ''convict'']"

definition test_va_kw :: "ustring list" where
  "test_va_kw = [U ''virtual asset'', U ''vatp'', U ''vasp'', U ''crypto'', U ''stablecoin'',
     U ''staking'', U ''aspire'']"

definition test_prefix :: "int \<Rightarrow> ustring \<Rightarrow> nat \<Rightarrow> ustring \<Rightarrow> ref_prefix list" where
  "test_prefix year code n doc_type =
     [\<lparr>p_year = year, p_code = code, p_range = down_range n 0, p_doc_type = Some doc_type\<rparr>]"

definition test_source :: "int \<Rightarrow> ustring \<Rightarrow> world \<Rightarrow> (scan_item list \<times> world) option" where
  "test_source year src w =
     (if src = U ''a''
      then Some (scan_source (U ''Test: Circulars'') (test_prefix year (U ''EC'') 8 (U ''circular''))
                   (U ''circular/openFile'') None 5 w)
      else if src = U ''b''
      then Some (scan_source (U ''Test: Enforcement'')
                   (test_prefix year (U ''PR'') 15 (U ''enforcement''))
                   (U ''news/list-content'') (Some (any_in test_enforce_kw)) 5 w)
      else if src = U ''c''
      then Some (scan_source (U ''Test: Consultations'')
                   (test_prefix year (U ''CP'') 8 (U ''consultation''))
                   (U ''consultation/openFile'') None 5 w)
      else if src = U ''d''
      then Some (scan_source (U ''Test: VATP'') (test_prefix year (U ''PR'') 15 (U ''vatp''))
                   (U ''news/list-content'') (Some (any_in test_va_kw)) 5 w)
      else if src = U ''e''
      then Some (scan_source (U ''Test: Press'')
                   (test_prefix year (U ''PR'') 15 (U ''press_release''))
                   (U ''news/list-content'')
                   (Some (\<lambda>t. \<not> any_in (test_enforce_kw @ test_va_kw) t)) 5 w)
      else None)"

definition collect ::
  "session \<Rightarrow> world \<Rightarrow> (outcome + scan_item list \<times> ustring list) \<times> world" where
  "collect ses w =
     (case typed ses of
        [] \<Rightarrow> (Inl Crashed, w)
      | line1 # rest1 \<Rightarrow>
          if strip line1 = U ''3''
          then (case rest1 of
                  [] \<Rightarrow> (Inl Crashed, w)
                | line2 # rest2 \<Rightarrow>
                    (case test_source (int (now_year ses mod 100)) (lower (strip line2)) w of
                       None \<Rightarrow> (Inl Invalid, w)
                     | Some (results, w1) \<Rightarrow> (Inr (results, rest2), w1)))
          else if strip line1 = U ''1'' \<or> strip line1 = U ''2''
          then (case fetch_all_sources (int (now_year ses mod 100))
                       (if strip line1 = U ''1'' then U ''quick'' else U ''full'') w of
                  (results, w1) \<Rightarrow> (Inr (results, rest1), w1))
          else (Inl Invalid, w))"

definition prepare ::
  "session \<Rightarrow> world \<Rightarrow> (outcome + vigo_chunk list \<times> ustring list) \<times> world" where
  "prepare ses w =
     (if missing_deps ses \<noteq> [] then (Inl (Missing (missing_deps ses)), w)
      else (case collect ses w of
              (Inl out, w1) \<Rightarrow> (Inl out, w1)
            | (Inr (results, rest), w1) \<Rightarrow>
                if dedupe results = [] then (Inl No_Items, w1)
                else (case generate_units (dedupe results) w1 of
                        (all_vigo_chunks, w2) \<Rightarrow>
                          if all_vigo_chunks = [] then (Inl No_Chunks, w2)
                          else (Inr (all_vigo_chunks, rest), w2))))"

definition backup_name :: "session \<Rightarrow> ustring" where
  "backup_name ses = U ''VIGO_SFC_bilingual_'' @ now_stamp ses @ U ''.md''"

definition upload_phase ::
  "(ustring \<Rightarrow> json option) \<Rightarrow> ustring \<Rightarrow> vigo_chunk list \<Rightarrow> ustring list \<Rightarrow> world
   \<Rightarrow> outcome \<times> world" where
  "upload_phase loads backup all_vigo_chunks rest w =
     (case rest of
        [] \<Rightarrow> (Crashed, save_backup all_vigo_chunks backup w)
      | answer # _ \<Rightarrow>
          if lower (strip answer) \<noteq> U ''y''
          then (Saved backup, save_backup all_vigo_chunks backup w)
          else (case upload_all loads all_vigo_chunks (\<lambda>k. 0)
                       (save_backup all_vigo_chunks backup w) of
                  (stats, w1) \<Rightarrow> (Uploaded stats backup, w1)))"

definition main :: "(ustring \<Rightarrow> json option) \<Rightarrow> session \<Rightarrow> world \<Rightarrow> outcome \<times> world" where
  "main loads ses w =
     (case prepare ses w of
        (Inl out, w1) \<Rightarrow> (out, w1)
      | (Inr (all_vigo_chunks, rest), w1) \<Rightarrow>
          upload_phase loads (backup_name ses) all_vigo_chunks rest w1)"

section \<open>Specification vocabulary\<close>

text \<open>
  Whether a run reached the upload; the kinds of event of the two phases before it; the
  shape of the trace of a run that wrote its backup: events of the preparation, the one
  write, events of the upload. A session for the examples: the operator asks for the
  test of a source that does not exist.
\<close>

fun uploaded :: "outcome \<Rightarrow> bool" where
  "uploaded (Uploaded stats backup) = True"
| "uploaded (Missing ms) = False"
| "uploaded Invalid = False"
| "uploaded No_Items = False"
| "uploaded No_Chunks = False"
| "uploaded (Saved backup) = False"
| "uploaded Crashed = False"

definition collect_kinds :: "kind list" where
  "collect_kinds = [KFetch, KSleep]"

definition prepare_kinds :: "kind list" where
  "prepare_kinds = [KFetch, KSleep, KChat]"

definition backup_first :: "ustring \<Rightarrow> world \<Rightarrow> world \<Rightarrow> bool" where
  "backup_first backup w w' \<longleftrightarrow>
     prefix (trace w) (trace w') \<and>
     (case dropWhile (\<lambda>e. kind_of e \<in> set prepare_kinds) (added w w') of
        EvWrite fname body # post \<Rightarrow>
          fname = backup \<and> list_all (\<lambda>e. kind_of e \<in> set upload_kinds) post
      | _ \<Rightarrow> False)"

definition sample_session :: session where
  "sample_session = \<lparr>now_year = 2026, now_stamp = U ''20260115'', have_pdfplumber = True,
     have_bs4 = True, typed = [U '' 3'', U ''Z'']\<rparr>"

section \<open>Properties of the pipeline\<close>

lemma generate_units_Cons:
  "generate_units (r # rest) w =
     (fst (units_of_item r w) @ fst (generate_units rest (snd (units_of_item r w))),
      snd (generate_units rest (snd (units_of_item r w))))"
  by (simp add: case_prod_unfold)

lemma total_chunks_simps [simp]:
  "total_chunks [] = 0"
  "total_chunks (r # rest) = length (item_chunks r) + total_chunks rest"
  by (simp_all add: total_chunks_def)

text \<open>The units generated for the scanned documents hold exactly one English unit per segment: their number is the total number of segments the summary of \<^verbatim>\<open>main\<close> prints.\<close>

theorem generate_units_english:
  "length (filter is_en (fst (generate_units results w))) = total_chunks results"
proof (induction results arbitrary: w)
  case (Cons r rest)
  then show ?case
    by (simp add: generate_units_Cons units_of_item_def length_english_units
        del: generate_units.simps)
qed simp

text \<open>Generating the units sleeps one second per segment of all documents together.\<close>

theorem generate_units_slept:
  "slept (trace (snd (generate_units results w))) = slept (trace w) + 1000 * total_chunks results"
proof (induction results arbitrary: w)
  case (Cons r rest)
  then show ?case
    by (simp add: generate_units_Cons units_of_item_def create_bilingual_chunks_slept
        algebra_simps del: generate_units.simps)
qed simp

text \<open>C38 (short_pdf_tagged_html). A PDF whose text fits \<^verbatim>\<open>CHUNK_MAX\<close> is scanned as one segment, and all its units are tagged \<^verbatim>\<open>html\<close>: the content type the scanner recorded is not what the units carry.\<close>

theorem short_pdf_tagged_html:
  assumes "length text \<le> CHUNK_MAX"
  shows "map (\<lambda>u. m_content_type (chunk_metadata u))
           (fst (units_of_item (new_item api_path pfx ref text (U ''pdf'')) w)) =
         replicate (length (fst (units_of_item (new_item api_path pfx ref text (U ''pdf'')) w)))
           (U ''html'')"
proof (rule map_const_replicate)
  fix u
  assume "u \<in> set (fst (units_of_item (new_item api_path pfx ref text (U ''pdf'')) w))"
  then have "m_content_type (chunk_metadata u) =
      (if 1 < length (item_chunks (new_item api_path pfx ref text (U ''pdf'')))
       then U ''pdf_extract'' else U ''html'')"
    unfolding units_of_item_def by (rule unit_content_type)
  with assms show "m_content_type (chunk_metadata u) = U ''html''"
    by (simp add: new_item_def smart_chunk_text_def)
qed

theorem short_pdf_tagged_html_witness:
  "map (\<lambda>u. m_content_type (chunk_metadata u))
       (fst (units_of_item
          (new_item (U ''circular/openFile'') sample_prefix (U ''26EC1'') (U ''Circular text'')
             (U ''pdf'')) sample_world)) =
     replicate (length (fst (units_of_item
          (new_item (U ''circular/openFile'') sample_prefix (U ''26EC1'') (U ''Circular text'')
             (U ''pdf'')) sample_world)))
       (U ''html'')"
  by (rule short_pdf_tagged_html) (simp add: CHUNK_MAX_def)

text \<open>C14 (html_one_segment). An HTML page is never split: cleaning leaves no line feed in its text, so the segmenter finds neither a heading nor a paragraph break, and the page is one segment however long it is; beyond the bound the segment is the whole text under the label of the document.\<close>

theorem html_one_segment:
  "smart_chunk_text (clean_html page) doc_title max_size =
     (if length (clean_html page) \<le> max_size then [clean_html page]
      else [U ''['' @ doc_title @ U '']'' @ NLNL @ clean_html page])"
proof (cases "length (clean_html page) \<le> max_size")
  case False
  have "NL \<notin> set (clean_html page)" "strip (clean_html page) = clean_html page"
    by (simp_all add: clean_html_normal spaces_normal_no_NL spaces_normal_strip)
  moreover from False have "clean_html page \<noteq> []" by auto
  ultimately show ?thesis
    using False smart_chunk_text_one_line [of "clean_html page" max_size doc_title] by simp
qed (simp add: smart_chunk_text_def)

section \<open>The phases of a run and their effects\<close>

lemma effects_generate_units:
  assumes "KChat \<in> set ks" "KSleep \<in> set ks"
  shows "effects ks w v \<Longrightarrow> effects ks w (snd (generate_units results v))"
proof (induction results arbitrary: v)
  case (Cons r rest)
  from Cons.prems have "effects ks w (snd (units_of_item r v))"
    unfolding units_of_item_def
    by (rule effects_trans) (rule effects_create_bilingual_chunks [OF assms])
  then show ?case
    by (simp only: generate_units_Cons snd_conv) (rule Cons.IH)
qed simp

lemma effects_test_source:
  "test_source year src w = Some (results, w1) \<Longrightarrow> effects collect_kinds w w1"
  by (auto simp: test_source_def collect_kinds_def split: if_splits
      intro!: effects_scan_source [THEN effects_trace [rotated]] dest!: arg_cong [where f = snd])

lemma effects_collect: "effects collect_kinds w (snd (collect ses w))"
  using effects_fetch_all_sources [of collect_kinds w]
  by (auto simp: collect_def collect_kinds_def case_prod_unfold
      split: list.splits option.splits dest: effects_test_source [unfolded collect_kinds_def])

lemma effects_prepare: "effects prepare_kinds w (snd (prepare ses w))"
proof -
  have c: "effects prepare_kinds w (snd (collect ses w))"
    by (rule effects_mono [OF effects_collect]) (simp add: collect_kinds_def prepare_kinds_def)
  then have "effects prepare_kinds w (snd (generate_units results (snd (collect ses w))))"
    for results
    by (intro effects_generate_units) (simp_all add: prepare_kinds_def)
  with c show ?thesis
    by (simp add: prepare_def case_prod_unfold split: sum.splits)
qed

lemma generate_units_langs:
  "u \<in> set (fst (generate_units results w)) \<Longrightarrow> chunk_lang u \<in> {U ''EN'', U ''ZH''}"
proof (induction results arbitrary: w)
  case (Cons r rest)
  then show ?case
    by (auto simp: generate_units_Cons units_of_item_def dest: units_lang
        simp del: generate_units.simps)
qed simp

lemma prepare_units:
  assumes "fst (prepare ses w) = Inr (units, rest)"
  shows "units \<noteq> []" and "\<forall>u \<in> set units. chunk_lang u \<in> {U ''EN'', U ''ZH''}"
  using assms
  by (auto simp: prepare_def case_prod_unfold split: if_splits sum.splits
      dest: generate_units_langs)

lemma backup_firstI:
  assumes "effects prepare_kinds w w1"
    and "effects upload_kinds (save_backup units backup w1) w2"
  shows "backup_first backup w w2"
proof -
  from assms(1) obtain pre where pre: "trace w1 = trace w @ pre"
    "\<forall>e \<in> set pre. kind_of e \<in> set prepare_kinds"
    by (auto simp: effects_iff)
  from assms(2) obtain post where post:
    "trace w2 = trace w1 @ EvWrite backup (backup_text units) # post"
    "\<forall>e \<in> set post. kind_of e \<in> set upload_kinds"
    by (auto simp: effects_iff save_backup_eq)
  have "dropWhile (\<lambda>e. kind_of e \<in> set prepare_kinds) (pre @ EvWrite backup (backup_text units) # post)
      = EvWrite backup (backup_text units) # post"
    using pre(2) by (simp add: dropWhile_append2 prepare_kinds_def)
  with pre(1) post show ?thesis
    by (simp add: backup_first_def added_def list_all_iff)
qed

lemma upload_phase_backup_first:
  assumes "effects prepare_kinds w w1"
  shows "backup_first backup w (snd (upload_phase loads backup units rest w1))"
proof -
  have "effects upload_kinds (save_backup units backup w1)
      (snd (upload_all loads units stats (save_backup units backup w1)))" for stats
    by (rule effects_upload_all) simp_all
  then show ?thesis
    by (auto simp: upload_phase_def case_prod_unfold split: list.splits
        intro!: backup_firstI [OF assms, where units = units])
qed

lemma main_eq:
  "main loads ses w =
     (case fst (prepare ses w) of
        Inl out \<Rightarrow> (out, snd (prepare ses w))
      | Inr (units, rest) \<Rightarrow> upload_phase loads (backup_name ses) units rest (snd (prepare ses w)))"
  by (simp add: main_def case_prod_unfold split: sum.splits)

text \<open>C13 (main_backup_first). A run that reaches the backup writes it exactly once, under the name of the day, after the last request of the preparation and before the first request of the upload: the trace of the run is fetches, sleeps and translations, then the write, then embeddings, inserts, question requests and sleeps. A run that ends earlier writes nothing.\<close>

theorem main_backup_first:
  "case fst (prepare ses w) of
     Inl out \<Rightarrow> fst (main loads ses w) = out
       \<and> effects prepare_kinds w (snd (main loads ses w))
   | Inr (units, rest) \<Rightarrow> backup_first (backup_name ses) w (snd (main loads ses w))"
  using effects_prepare [of w ses] upload_phase_backup_first [OF effects_prepare [of w ses]]
  by (simp add: main_eq split: sum.splits)

text \<open>C16 (main_consent). Nothing is embedded and nothing is sent to the store unless the run ends as uploaded, which takes the operator's \<^verbatim>\<open>y\<close>: every other run only fetches, sleeps, translates and writes the backup.\<close>

theorem main_consent:
  "uploaded (fst (main loads ses w))
   \<or> effects (KWrite # prepare_kinds) w (snd (main loads ses w))"
proof -
  let ?w1 = "snd (prepare ses w)"
  have p: "effects (KWrite # prepare_kinds) w ?w1"
    by (rule effects_mono [OF effects_prepare]) auto
  then have "effects (KWrite # prepare_kinds) w (save_backup units backup ?w1)" for units backup
    by (rule effects_trans) (rule effects_save_backup, simp)
  with p show ?thesis
    by (auto simp: main_eq upload_phase_def case_prod_unfold split: sum.splits list.splits)
qed

text \<open>C18 (main_outcome). The outcome of a run, on every path: a run that prepared no units ends with the outcome of the preparation; a run with units and no answer crashes after the backup; an answer other than \<^verbatim>\<open>y\<close> (after stripping and lowering) ends the run with the backup saved; and after \<^verbatim>\<open>y\<close> the upload loop attempts every unit: the units counted as done or failed are all the units generated, and those counted under a language are those counted as done.\<close>

theorem main_outcome:
  "case fst (prepare ses w) of
     Inl out \<Rightarrow> fst (main loads ses w) = out
   | Inr (units, rest) \<Rightarrow>
       (case rest of
          [] \<Rightarrow> fst (main loads ses w) = Crashed
        | answer # _ \<Rightarrow>
            if lower (strip answer) = U ''y''
            then (\<exists>stats. fst (main loads ses w) = Uploaded stats (backup_name ses)
                   \<and> done_count stats = length units
                   \<and> lang_count stats = stats (U ''ok''))
            else fst (main loads ses w) = Saved (backup_name ses))"
proof (cases "fst (prepare ses w)")
  case (Inr ur)
  obtain units rest where ur: "ur = (units, rest)" by (cases ur)
  note langs = prepare_units(2) [OF Inr [unfolded ur]]
  from upload_all_counts [OF langs, of loads "\<lambda>k. 0"] Inr ur show ?thesis
    by (simp add: main_eq upload_phase_def case_prod_unfold done_count_def lang_count_def
        split: list.splits)
qed (simp add: main_eq)

text \<open>C17 (main_inserts_units). The store receives nothing but the units the run generated: the rows a run inserts are units of the preparation with their metadata, in the order of generation and each at most once; a run that prepared no units inserts nothing.\<close>

theorem main_inserts_units:
  "case fst (prepare ses w) of
     Inl out \<Rightarrow> inserts (trace (snd (main loads ses w))) = inserts (trace w)
   | Inr (units, rest) \<Rightarrow>
       (\<exists>xs. inserts (trace (snd (main loads ses w))) = inserts (trace w) @ xs
          \<and> subseq (map (\<lambda>x. (fst x, fst (snd x))) xs)
               (map (\<lambda>u. (chunk_content u, chunk_metadata u)) units))"
proof -
  let ?w1 = "snd (prepare ses w)"
  from effects_added [OF effects_prepare [of w ses]]
  have "inserts (trace ?w1) = inserts (trace w) @ inserts (added w ?w1)"
    and "\<forall>e \<in> set (added w ?w1). kind_of e \<noteq> KInsert"
    by (auto simp: prepare_kinds_def)
  then have w1: "inserts (trace ?w1) = inserts (trace w)"
    by (simp add: inserts_other_kinds)
  have "\<exists>xs. inserts (trace (snd (upload_phase loads backup units rest ?w1))) =
        inserts (trace w) @ xs
      \<and> subseq (map (\<lambda>x. (fst x, fst (snd x))) xs)
           (map (\<lambda>u. (chunk_content u, chunk_metadata u)) units)" for backup units rest
    using upload_all_inserts [of loads units "\<lambda>k. 0" "save_backup units backup ?w1"] w1
    by (auto simp: upload_phase_def case_prod_unfold save_backup_eq split: list.splits)
  with w1 show ?thesis
    by (simp add: main_eq split: sum.splits)
qed

end
